(* ===== verification/Agent_Prelude.thy ===== *)
theory Agent_Prelude
  imports
    Main
    "HOL-Library.Char_ord"
    "HOL-Library.List_Lexorder"
    "HOL-Library.Multiset"
    "HOL-Library.Sublist"
    "HOL-Library.Word"
begin

text \<open>
  Shared vocabulary of the development.

  \<^item> The functions of Go's \<open>strings\<close>, \<open>strconv\<close> and \<open>sort\<close> packages the agent uses, on
    byte strings (\<open>string\<close> is a list of 8-bit characters, as a Go string is). Case folding
    and white space are those of ASCII.
  \<^item> Errors as values: \<open>go_err\<close> keeps the format string and the arguments of a
    \<open>fmt.Errorf\<close>, the wrapped error of a \<open>%w\<close>, and the typed errors the code tells apart;
    \<open>err_chain\<close> is the chain \<open>errors.Is\<close> and \<open>errors.As\<close> walk.
  \<^item> The generic lemmas and the \<open>named_theorems\<close> collections the component theories use.
\<close>

named_theorems go_strings \<open>characteristic facts of the Go string functions\<close>
named_theorems handler_defs \<open>definitions a command handler unfolds to\<close>

section \<open>Strings\<close>

text \<open>\<open>strings.Split(s, sep)\<close> for a separator of one byte.\<close>

fun Split :: "string \<Rightarrow> char \<Rightarrow> string list" where
  "Split [] c = [[]]"
| "Split (x # xs) c =
     (if x = c then [] # Split xs c
      else (x # hd (Split xs c)) # tl (Split xs c))"

text \<open>\<open>strings.Join(xs, sep)\<close>.\<close>

fun Join :: "string list \<Rightarrow> string \<Rightarrow> string" where
  "Join [] sep = []"
| "Join [x] sep = x"
| "Join (x # y # ys) sep = x @ sep @ Join (y # ys) sep"

definition HasPrefix :: "string \<Rightarrow> string \<Rightarrow> bool" where
  "HasPrefix s p \<longleftrightarrow> take (length p) s = p"

definition HasSuffix :: "string \<Rightarrow> string \<Rightarrow> bool" where
  "HasSuffix s q \<longleftrightarrow> length q \<le> length s \<and> drop (length s - length q) s = q"

fun Contains :: "string \<Rightarrow> string \<Rightarrow> bool" where
  "Contains [] sub \<longleftrightarrow> sub = []"
| "Contains (x # xs) sub \<longleftrightarrow> HasPrefix (x # xs) sub \<or> Contains xs sub"

definition TrimPrefix :: "string \<Rightarrow> string \<Rightarrow> string" where
  "TrimPrefix s p = (if HasPrefix s p then drop (length p) s else s)"

definition TrimSuffix :: "string \<Rightarrow> string \<Rightarrow> string" where
  "TrimSuffix s q = (if HasSuffix s q then take (length s - length q) s else s)"

definition is_space :: "char \<Rightarrow> bool" where
  "is_space c \<longleftrightarrow> c \<in> {CHR '' '', CHR 0x09, CHR 0x0A, CHR 0x0B, CHR 0x0C, CHR 0x0D}"

definition TrimSpace :: "string \<Rightarrow> string" where
  "TrimSpace s = rev (dropWhile is_space (rev (dropWhile is_space s)))"

definition lower_char :: "char \<Rightarrow> char" where
  "lower_char c = (if CHR ''A'' \<le> c \<and> c \<le> CHR ''Z'' then char_of (of_char c + (32::nat)) else c)"

definition upper_char :: "char \<Rightarrow> char" where
  "upper_char c = (if CHR ''a'' \<le> c \<and> c \<le> CHR ''z'' then char_of (of_char c - (32::nat)) else c)"

definition ToLower :: "string \<Rightarrow> string" where
  "ToLower s = map lower_char s"

definition EqualFold :: "string \<Rightarrow> string \<Rightarrow> bool" where
  "EqualFold s t \<longleftrightarrow> ToLower s = ToLower t"

text \<open>\<open>strings.Cut(s, sep)\<close> for a separator of one byte: before, after, found.\<close>

fun Cut :: "string \<Rightarrow> char \<Rightarrow> string \<times> string \<times> bool" where
  "Cut [] c = ([], [], False)"
| "Cut (x # xs) c =
     (if x = c then ([], xs, True)
      else (case Cut xs c of (b, a, f) \<Rightarrow> (x # b, a, f)))"

text \<open>Decimal output (\<open>%d\<close>) and input (\<open>strconv.Atoi\<close>, \<open>strconv.ParseInt(s, 10, 64)\<close>).\<close>

fun show_nat :: "nat \<Rightarrow> string" where
  "show_nat n =
     (if n < 10 then [char_of (48 + n)]
      else show_nat (n div 10) @ [char_of (48 + n mod 10)])"

declare show_nat.simps [simp del]

definition show_int :: "int \<Rightarrow> string" where
  "show_int i = (if i < 0 then CHR ''-'' # show_nat (nat (- i)) else show_nat (nat i))"

definition is_digit :: "char \<Rightarrow> bool" where
  "is_digit c \<longleftrightarrow> CHR ''0'' \<le> c \<and> c \<le> CHR ''9''"

definition digit_val :: "char \<Rightarrow> nat" where
  "digit_val c = of_char c - 48"

fun parse_digits :: "nat \<Rightarrow> string \<Rightarrow> nat" where
  "parse_digits acc [] = acc"
| "parse_digits acc (c # cs) = parse_digits (10 * acc + digit_val c) cs"

datatype num_error = ErrSyntax | ErrRange

text \<open>
  The value \<open>strconv\<close> returns and its error: a syntax error comes with the value 0, a range
  error with the nearest 64-bit bound, and callers that drop the error go on with that value.
\<close>

definition ParseInt64 :: "string \<Rightarrow> int \<times> num_error option" where
  "ParseInt64 s =
     (let neg = (s \<noteq> [] \<and> hd s = CHR ''-'');
          ds = (if s \<noteq> [] \<and> (hd s = CHR ''-'' \<or> hd s = CHR ''+'') then tl s else s)
      in if ds = [] \<or> \<not> list_all is_digit ds then (0, Some ErrSyntax)
         else let v = (if neg then - int (parse_digits 0 ds) else int (parse_digits 0 ds))
              in if v < - (2 ^ 63) then (- (2 ^ 63), Some ErrRange)
                 else if v > 2 ^ 63 - 1 then (2 ^ 63 - 1, Some ErrRange)
                 else (v, None))"

definition Atoi :: "string \<Rightarrow> int \<times> num_error option" where
  "Atoi s = ParseInt64 s"

section \<open>Errors as values\<close>

datatype api_code = NotFound | AlreadyExists | Conflict | Forbidden | OtherApi

datatype connect_code =
    CodeNotFound | CodeFailedPrecondition | CodeAlreadyExists | CodeInvalidArgument
  | CodePermissionDenied | CodeUnauthenticated | CodeOther

datatype redeem_code =
    RedeemNotFound | RedeemExpired | RedeemAlreadyRedeemed | RedeemInvalid | RedeemDenied
  | RedeemOther

datatype fmt_arg = AStr string | AInt int | AList "string list"

text \<open>
  \<^item> \<open>Errorf f args\<close>: \<open>errors.New\<close> or a \<open>fmt.Errorf\<close> without \<open>%w\<close>;
  \<^item> \<open>Wrapf f args e\<close>: a \<open>fmt.Errorf\<close> whose \<open>%w\<close> is \<open>e\<close>;
  \<^item> \<open>ApiError\<close>, \<open>ConnectError\<close>, \<open>GithubError\<close>: the typed errors of the Kubernetes API, of
    Connect and of the GitHub client, with the code the agent looks at;
  \<^item> \<open>CommandError\<close>, \<open>RedeemError\<close>: the error types of the command package;
  \<^item> \<open>HandshakeError\<close>: the error type of the stream package, with the text of what it wraps;
  \<^item> \<open>Canceled\<close>, \<open>DeadlineExceeded\<close>, \<open>EOF\<close>: the sentinels of \<open>context\<close> and \<open>io\<close>;
  \<^item> \<open>ExtError\<close>: any other error of a library.
\<close>

datatype go_err =
    Errorf string "fmt_arg list"
  | Wrapf string "fmt_arg list" go_err
  | ApiError api_code string
  | ConnectError connect_code string
  | GithubError int string
  | CommandError string go_err
  | RedeemError redeem_code
  | HandshakeError go_err
  | Canceled
  | DeadlineExceeded
  | EOF
  | ExtError string

type_synonym 'a res = "go_err + 'a"

text \<open>The chain of an error: itself, then what it unwraps to.\<close>

primrec err_chain :: "go_err \<Rightarrow> go_err list" where
  "err_chain (Errorf f as) = [Errorf f as]"
| "err_chain (Wrapf f as e) = Wrapf f as e # err_chain e"
| "err_chain (ApiError c m) = [ApiError c m]"
| "err_chain (ConnectError c m) = [ConnectError c m]"
| "err_chain (GithubError c m) = [GithubError c m]"
| "err_chain (CommandError i e) = CommandError i e # err_chain e"
| "err_chain (RedeemError c) = [RedeemError c]"
| "err_chain (HandshakeError e) = HandshakeError e # err_chain e"
| "err_chain Canceled = [Canceled]"
| "err_chain DeadlineExceeded = [DeadlineExceeded]"
| "err_chain EOF = [EOF]"
| "err_chain (ExtError m) = [ExtError m]"

definition IsNotFound :: "go_err \<Rightarrow> bool" where
  "IsNotFound e \<longleftrightarrow> (\<exists>x \<in> set (err_chain e). case x of ApiError c m \<Rightarrow> c = NotFound | _ \<Rightarrow> False)"

definition IsAlreadyExists :: "go_err \<Rightarrow> bool" where
  "IsAlreadyExists e \<longleftrightarrow> (\<exists>x \<in> set (err_chain e). case x of ApiError c m \<Rightarrow> c = AlreadyExists | _ \<Rightarrow> False)"

definition IsConflict :: "go_err \<Rightarrow> bool" where
  "IsConflict e \<longleftrightarrow> (\<exists>x \<in> set (err_chain e). case x of ApiError c m \<Rightarrow> c = Conflict | _ \<Rightarrow> False)"

definition IsForbidden :: "go_err \<Rightarrow> bool" where
  "IsForbidden e \<longleftrightarrow> (\<exists>x \<in> set (err_chain e). case x of ApiError c m \<Rightarrow> c = Forbidden | _ \<Rightarrow> False)"

text \<open>\<open>errors.As\<close> for the typed errors: the first of the chain that has the type.\<close>

definition as_command_error :: "go_err \<Rightarrow> string option" where
  "as_command_error e =
     (case [x \<leftarrow> err_chain e. case x of CommandError i e' \<Rightarrow> True | _ \<Rightarrow> False] of
        CommandError i e' # _ \<Rightarrow> Some i | _ \<Rightarrow> None)"

definition as_redeem_error :: "go_err \<Rightarrow> redeem_code option" where
  "as_redeem_error e =
     (case [x \<leftarrow> err_chain e. case x of RedeemError c \<Rightarrow> True | _ \<Rightarrow> False] of
        RedeemError c # _ \<Rightarrow> Some c | _ \<Rightarrow> None)"

definition as_connect_error :: "go_err \<Rightarrow> connect_code option" where
  "as_connect_error e =
     (case [x \<leftarrow> err_chain e. case x of ConnectError c m \<Rightarrow> True | _ \<Rightarrow> False] of
        ConnectError c m # _ \<Rightarrow> Some c | _ \<Rightarrow> None)"

text \<open>
  The message of an acknowledgement: a text the code writes itself, the text of an error
  (\<open>err.Error()\<close>), or a \<open>Sprintf\<close> that quotes a string (\<open>%q\<close>) or prints an error (\<open>%v\<close>).
\<close>

datatype message =
    Text string
  | ErrText go_err
  | Sprintf string "fmt_arg list"
  | SprintfErr string "fmt_arg list" go_err

section \<open>Facts about the string functions\<close>

lemma Split_not_Nil [simp]: "Split s c \<noteq> []"
  by (cases s) auto

lemma Join_Cons: "Join (x # xs) sep = (if xs = [] then x else x @ sep @ Join xs sep)"
  by (cases xs) auto

lemma Join_Split [go_strings]: "Join (Split s c) [c] = s"
proof (induction s)
  case Nil
  then show ?case by simp
next
  case (Cons x xs)
  have "Split xs c = hd (Split xs c) # tl (Split xs c)" by simp
  then have "Join ((x # hd (Split xs c)) # tl (Split xs c)) [c] = x # Join (Split xs c) [c]"
    by (metis Join_Cons append_Cons)
  with Cons show ?case by (simp add: Join_Cons)
qed

lemma Split_no_sep [go_strings]: "c \<notin> set s \<Longrightarrow> Split s c = [s]"
  by (induction s) auto

lemma Split_append [go_strings]: "Split (a @ c # b) c = Split a c @ Split b c"
  by (induction a) auto

lemma Split_Join [go_strings]:
  "xs \<noteq> [] \<Longrightarrow> \<forall>x\<in>set xs. c \<notin> set x \<Longrightarrow> Split (Join xs [c]) c = xs"
proof (induction xs)
  case Nil
  then show ?case by simp
next
  case (Cons x xs)
  then show ?case
    by (cases "xs = []") (auto simp: Join_Cons Split_append Split_no_sep)
qed

lemma Split_segment_no_sep: "x \<in> set (Split s c) \<Longrightarrow> c \<notin> set x"
proof (induction s arbitrary: x)
  case Nil
  then show ?case by simp
next
  case (Cons a s)
  have "Split s c = hd (Split s c) # tl (Split s c)" by simp
  then have "\<And>y. y = hd (Split s c) \<or> y \<in> set (tl (Split s c)) \<Longrightarrow> y \<in> set (Split s c)"
    by (metis list.set_intros)
  with Cons show ?case by (auto split: if_splits)
qed

lemma HasPrefix_iff [go_strings]: "HasPrefix s p \<longleftrightarrow> (\<exists>t. s = p @ t)"
  unfolding HasPrefix_def by (metis append_eq_conv_conj append_take_drop_id)

lemma HasSuffix_iff [go_strings]: "HasSuffix s q \<longleftrightarrow> (\<exists>t. s = t @ q)"
proof
  assume "HasSuffix s q"
  then have "s = take (length s - length q) s @ q"
    unfolding HasSuffix_def by (metis append_take_drop_id)
  then show "\<exists>t. s = t @ q" by blast
qed (auto simp: HasSuffix_def)

lemma Contains_iff [go_strings]: "Contains s sub \<longleftrightarrow> (\<exists>a b. s = a @ sub @ b)"
proof (induction s)
  case Nil
  then show ?case by auto
next
  case (Cons x xs)
  have "(\<exists>a b. x # xs = a @ sub @ b) \<longleftrightarrow> HasPrefix (x # xs) sub \<or> (\<exists>a b. xs = a @ sub @ b)"
    by (auto simp: HasPrefix_iff Cons_eq_append_conv)
  with Cons show ?case by simp
qed

lemma Contains_trans: "Contains s t \<Longrightarrow> Contains t u \<Longrightarrow> Contains s u"
  by (auto simp: Contains_iff) (metis append.assoc)

lemma Join_member_Contains: "x \<in> set xs \<Longrightarrow> Contains (Join xs sep) x"
proof (induction xs)
  case Nil
  then show ?case by simp
next
  case (Cons y ys)
  show ?case
  proof (cases "x = y")
    case True
    then show ?thesis by (auto simp: Join_Cons Contains_iff intro: exI [of _ "[]"])
  next
    case False
    with Cons have "ys \<noteq> []" and "Contains (Join ys sep) x" by auto
    then obtain a b where "Join ys sep = a @ x @ b" by (auto simp: Contains_iff)
    with \<open>ys \<noteq> []\<close> have "Join (y # ys) sep = (y @ sep @ a) @ x @ b" by (simp add: Join_Cons)
    then show ?thesis unfolding Contains_iff by blast
  qed
qed

lemma Split_segment_Contains: "x \<in> set (Split s c) \<Longrightarrow> Contains s x"
  by (metis Join_Split Join_member_Contains)

lemma TrimSuffix_cases [go_strings]: "TrimSuffix s q = s \<or> s = TrimSuffix s q @ q"
  unfolding TrimSuffix_def HasSuffix_def by (metis append_take_drop_id)

lemma TrimPrefix_append [simp]: "TrimPrefix (p @ s) p = s"
  by (simp add: TrimPrefix_def HasPrefix_def)

lemma Cut_append [go_strings]: "c \<notin> set b \<Longrightarrow> Cut (b @ c # a) c = (b, a, True)"
  by (induction b) auto

lemma Cut_no_sep [go_strings]: "c \<notin> set b \<Longrightarrow> Cut b c = (b, [], False)"
  by (induction b) auto

lemma digit_val_char: "d < 10 \<Longrightarrow> digit_val (char_of (48 + d)) = d"
  by (simp add: digit_val_def of_char_of)

lemma parse_digits_append: "parse_digits acc (xs @ ys) = parse_digits (parse_digits acc xs) ys"
  by (induction xs arbitrary: acc) auto

lemma parse_show_nat [go_strings]: "parse_digits 0 (show_nat n) = n"
proof (induction n rule: show_nat.induct)
  case (1 n)
  show ?case
  proof (cases "n < 10")
    case True
    then show ?thesis by (simp add: show_nat.simps [of n] digit_val_char)
  next
    case False
    with 1 have "parse_digits 0 (show_nat (n div 10)) = n div 10" by simp
    with False show ?thesis
      by (simp add: show_nat.simps [of n] parse_digits_append digit_val_char)
  qed
qed

lemma show_nat_not_Nil [simp]: "show_nat n \<noteq> []"
  by (simp add: show_nat.simps [of n])

lemma show_nat_inj: "show_nat m = show_nat n \<longleftrightarrow> m = n"
  by (metis parse_show_nat)

lemma show_nat_digits: "list_all is_digit (show_nat n)"
proof (induction n rule: show_nat.induct)
  case (1 n)
  have d: "is_digit (char_of (48 + d))" if "d < 10" for d :: nat
    using that by (simp add: is_digit_def less_eq_char_def of_char_of)
  show ?case
  proof (cases "n < 10")
    case True
    with d show ?thesis by (simp add: show_nat.simps [of n])
  next
    case False
    with 1 d show ?thesis by (simp add: show_nat.simps [of n])
  qed
qed

section \<open>Facts about errors\<close>

lemma err_chain_not_Nil [simp]: "err_chain e \<noteq> []"
  by (cases e) auto

lemma IsNotFound_ApiError [simp]: "IsNotFound (ApiError c m) \<longleftrightarrow> c = NotFound"
  by (simp add: IsNotFound_def)

lemma IsAlreadyExists_ApiError [simp]: "IsAlreadyExists (ApiError c m) \<longleftrightarrow> c = AlreadyExists"
  by (simp add: IsAlreadyExists_def)

lemma IsConflict_ApiError [simp]: "IsConflict (ApiError c m) \<longleftrightarrow> c = Conflict"
  by (simp add: IsConflict_def)

lemma IsForbidden_ApiError [simp]: "IsForbidden (ApiError c m) \<longleftrightarrow> c = Forbidden"
  by (simp add: IsForbidden_def)

lemma api_errors_ExtError [simp]:
  "\<not> IsNotFound (ExtError m)" "\<not> IsAlreadyExists (ExtError m)" "\<not> IsConflict (ExtError m)" "\<not> IsForbidden (ExtError m)"
  by (simp_all add: IsNotFound_def IsAlreadyExists_def IsConflict_def IsForbidden_def)

lemma as_command_error_CommandError [simp]: "as_command_error (CommandError i e) = Some i"
  by (simp add: as_command_error_def)

lemma as_redeem_error_RedeemError [simp]: "as_redeem_error (RedeemError c) = Some c"
  by (simp add: as_redeem_error_def)

lemma as_redeem_error_Wrapf [simp]: "as_redeem_error (Wrapf f xs e) = as_redeem_error e"
  by (simp add: as_redeem_error_def)

section \<open>Facts about lists and maps\<close>

lemma map_le_upd_fresh: "m k = None \<Longrightarrow> m \<subseteq>\<^sub>m m(k \<mapsto> v)"
  by (auto simp: map_le_def)

lemma sort_cong_mset: "mset xs = mset ys \<Longrightarrow> sort xs = sort (ys :: 'a :: linorder list)"
  by (metis mset_sort properties_for_sort sorted_sort)

lemma map_le_domD: "m \<subseteq>\<^sub>m m' \<Longrightarrow> m k = Some v \<Longrightarrow> m' k = Some v"
  by (metis domI map_le_def)

end
