(* ===== verification/Git_Provider.thy ===== *)
theory Git_Provider
  imports Agent_Prelude
begin

text \<open>
  The state-repository writer of \<open>internal/git\<close>: targets and file paths with their validation
  (\<open>provider.go\<close>), the \<open>Provider\<close> interface, and the in-memory provider (\<open>mem.go\<close>).
  The locale \<open>idempotent_provider\<close> is the contract of the interface: repeating an operation
  changes nothing; \<open>git_provider\<close> adds that every operation succeeds on a ready provider. It is
  interpreted on the in-memory provider; SHA-256 is a parameter \<open>H\<close> from the hashed bytes to the hex digest.
\<close>

section \<open>Targets and paths (provider.go)\<close>

record File =
  f_Path :: string
  f_Content :: string

record Target =
  t_Repo :: string
  t_Path :: string
  t_Branch :: string

definition Validate :: "Target \<Rightarrow> string \<Rightarrow> Target res" where
  "Validate t0 defaultRepo =
     (let t = (if t_Repo t0 = [] then t0\<lparr>t_Repo := defaultRepo\<rparr> else t0)
      in if t_Repo t = [] then
           Inl (Errorf ''git: no target repo and no tenant default configured'' [])
         else let parts = Split (t_Repo t) (CHR ''/'')
         in if length parts \<noteq> 2 \<or> parts ! 0 = [] \<or> parts ! 1 = [] then
              Inl (Errorf ''git: repo %q must be owner/name'' [AStr (t_Repo t)])
            else if Contains (t_Path t) ''..'' then
              Inl (Errorf ''git: path %q must not escape the repository'' [AStr (t_Path t)])
            else Inr (if t_Branch t = [] then t\<lparr>t_Branch := ''main''\<rparr> else t))"

text \<open>\<open>strings.SplitN(t.Repo, "/", 2)\<close>; \<open>None\<close> is the panic of \<open>parts[1]\<close> without a slash.\<close>

definition OwnerName :: "Target \<Rightarrow> (string \<times> string) option" where
  "OwnerName t =
     (case Cut (t_Repo t) (CHR ''/'') of (owner, name, found) \<Rightarrow>
        if found then Some (owner, name) else None)"

definition FullPath :: "Target \<Rightarrow> string \<Rightarrow> string" where
  "FullPath t p = (if t_Path t = [] then p else TrimSuffix (t_Path t) ''/'' @ ''/'' @ p)"

definition bad_segment :: "string \<Rightarrow> bool" where
  "bad_segment seg \<longleftrightarrow> seg = [] \<or> seg = ''..'' \<or> seg = ''.''"

definition ValidateFilePath :: "string \<Rightarrow> go_err option" where
  "ValidateFilePath p =
     (if p = [] \<or> HasPrefix p ''/'' then
        Some (Errorf ''git: file path %q must be relative and non-empty'' [AStr p])
      else case find bad_segment (Split p (CHR ''/'')) of
        Some seg \<Rightarrow> Some (Errorf ''git: file path %q contains invalid segment %q'' [AStr p, AStr seg])
      | None \<Rightarrow> None)"

section \<open>The Provider interface (provider.go)\<close>

record 's Provider =
  CommitFiles :: "Target \<Rightarrow> File list \<Rightarrow> string \<Rightarrow> 's \<Rightarrow> (string \<times> bool) res \<times> 's"
  OpenPR :: "Target \<Rightarrow> File list \<Rightarrow> string \<Rightarrow> string \<Rightarrow> string \<Rightarrow> 's \<Rightarrow> string res \<times> 's"
  DeleteFiles :: "Target \<Rightarrow> string list \<Rightarrow> string \<Rightarrow> 's \<Rightarrow> (string \<times> bool) res \<times> 's"

section \<open>The in-memory provider (mem.go)\<close>

record DeleteRecord =
  dr_Target :: Target
  dr_Paths :: "string list"
  dr_Message :: string
  dr_SHA :: string
  dr_Changed :: bool

record CommitRecord =
  cr_Target :: Target
  cr_Files :: "File list"
  cr_Message :: string
  cr_SHA :: string
  cr_Changed :: bool

record PRRecord =
  pr_Target :: Target
  pr_Files :: "File list"
  pr_Branch :: string
  pr_Title :: string
  pr_Body :: string
  pr_URL :: string

record MemProvider =
  mp_Commits :: "CommitRecord list"
  mp_PRs :: "PRRecord list"
  mp_Deletes :: "DeleteRecord list"
  mp_present :: "(string \<rightharpoonup> bool) option"
  mp_Err :: "go_err option"

definition NewMemProvider :: MemProvider where
  "NewMemProvider =
     \<lparr>mp_Commits = [], mp_PRs = [], mp_Deletes = [], mp_present = Some Map.empty, mp_Err = None\<rparr>"

definition ensurePresent :: "MemProvider \<Rightarrow> MemProvider" where
  "ensurePresent m =
     (case mp_present m of None \<Rightarrow> m\<lparr>mp_present := Some Map.empty\<rparr> | Some _ \<Rightarrow> m)"

text \<open>A lookup in Go's \<open>map[string]bool\<close>: false when absent or when the map is nil.\<close>

definition is_present :: "MemProvider \<Rightarrow> string \<Rightarrow> bool" where
  "is_present m k = (case mp_present m of None \<Rightarrow> False | Some p \<Rightarrow> (p k = Some True))"

definition set_present :: "string \<Rightarrow> bool \<Rightarrow> MemProvider \<Rightarrow> MemProvider" where
  "set_present k b m = m\<lparr>mp_present := map_option (\<lambda>p. p(k \<mapsto> b)) (mp_present m)\<rparr>"

definition hashFiles :: "(string \<Rightarrow> string) \<Rightarrow> File list \<Rightarrow> string" where
  "hashFiles H files =
     (let paths = map f_Path files;
          byPath = map_of (rev (map (\<lambda>f. (f_Path f, f_Content f)) files))
      in H (concat (map (\<lambda>p. p @ [CHR 0x00] @ (case byPath p of None \<Rightarrow> [] | Some b \<Rightarrow> b) @ [CHR 0x00])
                        (sort paths))))"

definition mem_CommitFiles ::
  "(string \<Rightarrow> string) \<Rightarrow> Target \<Rightarrow> File list \<Rightarrow> string \<Rightarrow> MemProvider \<Rightarrow> (string \<times> bool) res \<times> MemProvider"
where
  "mem_CommitFiles H target files message m =
     (case mp_Err m of
        Some err \<Rightarrow> (Inl err, m\<lparr>mp_Err := None\<rparr>)
      | None \<Rightarrow>
          let sum = hashFiles H files;
              changed = \<not> (mp_Commits m \<noteq> [] \<and> cr_Target (last (mp_Commits m)) = target
                            \<and> cr_SHA (last (mp_Commits m)) = sum);
              m1 = m\<lparr>mp_Commits := mp_Commits m @
                      [\<lparr>cr_Target = target, cr_Files = files, cr_Message = message,
                        cr_SHA = sum, cr_Changed = changed\<rparr>]\<rparr>;
              m2 = ensurePresent m1;
              m3 = fold (\<lambda>f. set_present (FullPath target (f_Path f)) True) files m2
          in (Inr (sum, changed), m3))"

text \<open>The loop over the paths to delete: the provider and whether anything was present.\<close>

fun delete_present :: "Target \<Rightarrow> string list \<Rightarrow> MemProvider \<Rightarrow> bool \<Rightarrow> MemProvider \<times> bool" where
  "delete_present target [] m changed = (m, changed)"
| "delete_present target (p # ps) m changed =
     (if is_present m (FullPath target p)
      then delete_present target ps (set_present (FullPath target p) False m) True
      else delete_present target ps m changed)"

definition mem_DeleteFiles ::
  "(string \<Rightarrow> string) \<Rightarrow> Target \<Rightarrow> string list \<Rightarrow> string \<Rightarrow> MemProvider \<Rightarrow> (string \<times> bool) res \<times> MemProvider"
where
  "mem_DeleteFiles H target paths message m =
     (case mp_Err m of
        Some err \<Rightarrow> (Inl err, m\<lparr>mp_Err := None\<rparr>)
      | None \<Rightarrow>
          (case delete_present target paths (ensurePresent m) False of (m1, changed) \<Rightarrow>
             let sum = hashFiles H [\<lparr>f_Path = ''delete:'' @ Join paths '','', f_Content = []\<rparr>]
             in (Inr (sum, changed),
                 m1\<lparr>mp_Deletes := mp_Deletes m1 @
                     [\<lparr>dr_Target = target, dr_Paths = paths, dr_Message = message,
                       dr_SHA = sum, dr_Changed = changed\<rparr>]\<rparr>)))"

definition mem_OpenPR ::
  "Target \<Rightarrow> File list \<Rightarrow> string \<Rightarrow> string \<Rightarrow> string \<Rightarrow> MemProvider \<Rightarrow> string res \<times> MemProvider"
where
  "mem_OpenPR target files branch title body m =
     (case mp_Err m of
        Some err \<Rightarrow> (Inl err, m\<lparr>mp_Err := None\<rparr>)
      | None \<Rightarrow>
          (case find (\<lambda>pr. pr_Target pr = target \<and> pr_Branch pr = branch) (mp_PRs m) of
             Some pr \<Rightarrow> (Inr (pr_URL pr), m)
           | None \<Rightarrow>
               let url = ''https://example.invalid/'' @ t_Repo target @ ''/pull/''
                         @ show_nat (length (mp_PRs m) + 1)
               in (Inr url,
                   m\<lparr>mp_PRs := mp_PRs m @
                      [\<lparr>pr_Target = target, pr_Files = files, pr_Branch = branch,
                        pr_Title = title, pr_Body = body, pr_URL = url\<rparr>]\<rparr>)))"

definition mem_provider :: "(string \<Rightarrow> string) \<Rightarrow> MemProvider Provider" where
  "mem_provider H =
     \<lparr>CommitFiles = mem_CommitFiles H, OpenPR = mem_OpenPR, DeleteFiles = mem_DeleteFiles H\<rparr>"

section \<open>Validation\<close>

lemma Split_two:
  assumes "length (Split s c) = 2"
  obtains a b where "s = a @ c # b" and "Split s c = [a, b]" and "c \<notin> set a" and "c \<notin> set b"
proof -
  from assms obtain a b where ab: "Split s c = [a, b]"
    by (metis One_nat_def Suc_1 length_0_conv length_Suc_conv)
  then have "s = a @ c # b" using Join_Split [of s c] by simp
  moreover have "c \<notin> set a" "c \<notin> set b"
    using ab Split_segment_no_sep [of _ s c] by simp_all
  ultimately show thesis using ab that by blast
qed

lemma ValidateFilePath_None [go_strings]:
  "ValidateFilePath p = None \<longleftrightarrow> (\<forall>seg \<in> set (Split p (CHR ''/'')). \<not> bad_segment seg)"
proof (cases "p = [] \<or> HasPrefix p ''/''")
  case True
  then have "[] \<in> set (Split p (CHR ''/''))" by (auto simp: HasPrefix_iff)
  moreover have "bad_segment []" by (simp add: bad_segment_def)
  ultimately show ?thesis using True by (auto simp only: ValidateFilePath_def if_True option.distinct)
next
  case False
  then have "ValidateFilePath p = None \<longleftrightarrow> find bad_segment (Split p (CHR ''/'')) = None"
    by (simp add: ValidateFilePath_def split: option.split)
  then show ?thesis by (auto simp: find_None_iff)
qed

lemma Validate_Inr:
  assumes "Validate t d = Inr t'"
  shows "t_Repo t' = (if t_Repo t = [] then d else t_Repo t)"
    and "t_Path t' = t_Path t"
    and "\<not> Contains (t_Path t') ''..''"
    and "t_Branch t' = (if t_Branch t = [] then ''main'' else t_Branch t)"
    and "\<exists>owner name. t_Repo t' = owner @ ''/'' @ name \<and> owner \<noteq> [] \<and> name \<noteq> []
           \<and> CHR ''/'' \<notin> set owner \<and> CHR ''/'' \<notin> set name"
proof -
  let ?t = "if t_Repo t = [] then t\<lparr>t_Repo := d\<rparr> else t"
  let ?parts = "Split (t_Repo ?t) (CHR ''/'')"
  from assms have parts: "length ?parts = 2" "?parts ! 0 \<noteq> []" "?parts ! 1 \<noteq> []"
    and path: "\<not> Contains (t_Path ?t) ''..''"
    and t': "t' = (if t_Branch ?t = [] then ?t\<lparr>t_Branch := ''main''\<rparr> else ?t)"
    by (auto simp: Validate_def Let_def split: if_splits)
  from t' show "t_Repo t' = (if t_Repo t = [] then d else t_Repo t)" by simp
  from t' show "t_Path t' = t_Path t" by simp
  from t' path show "\<not> Contains (t_Path t') ''..''" by simp
  from t' show "t_Branch t' = (if t_Branch t = [] then ''main'' else t_Branch t)" by simp
  obtain a b where "t_Repo ?t = a @ CHR ''/'' # b" "?parts = [a, b]"
    "CHR ''/'' \<notin> set a" "CHR ''/'' \<notin> set b"
    using Split_two [OF parts(1)] by blast
  with parts t' show "\<exists>owner name. t_Repo t' = owner @ ''/'' @ name \<and> owner \<noteq> [] \<and> name \<noteq> []
           \<and> CHR ''/'' \<notin> set owner \<and> CHR ''/'' \<notin> set name"
    by (intro exI [of _ a] exI [of _ b]) simp
qed

lemma OwnerName_Validate:
  assumes "Validate t d = Inr t'"
  obtains owner name where "OwnerName t' = Some (owner, name)"
    and "t_Repo t' = owner @ ''/'' @ name" and "CHR ''/'' \<notin> set name"
proof -
  obtain a b where "t_Repo t' = a @ CHR ''/'' # b" "CHR ''/'' \<notin> set a" "CHR ''/'' \<notin> set b"
    using Validate_Inr(5) [OF assms] by auto
  moreover from this have "OwnerName t' = Some (a, b)" by (simp add: OwnerName_def Cut_append)
  ultimately show thesis using that by simp
qed

lemma FullPath_segments:
  assumes "t_Path t \<noteq> []"
  shows "Split (FullPath t p) (CHR ''/'') =
           Split (TrimSuffix (t_Path t) ''/'') (CHR ''/'') @ Split p (CHR ''/'')"
  using assms Split_append [of "TrimSuffix (t_Path t) ''/''"] by (simp add: FullPath_def)

lemma TrimSuffix_no_dotdot:
  "\<not> Contains s ''..'' \<Longrightarrow> x \<in> set (Split (TrimSuffix s ''/'') (CHR ''/'')) \<Longrightarrow> x \<noteq> ''..''"
proof
  assume no: "\<not> Contains s ''..''" and x: "x \<in> set (Split (TrimSuffix s ''/'') (CHR ''/''))"
    and dd: "x = ''..''"
  from x dd have "Contains (TrimSuffix s ''/'') ''..''" using Split_segment_Contains by blast
  moreover have "Contains s (TrimSuffix s ''/'')"
    unfolding Contains_iff using TrimSuffix_cases [of s "''/''"] by (metis append_Nil append_Nil2)
  ultimately show False using no Contains_trans by blast
qed

section \<open>The contract of a provider\<close>

text \<open>
  What the interface's comments ask of every implementation: repeating an operation (the
  at-least-once redelivery of a command) reports that nothing changed, or the pull request that is
  already open. \<open>ready\<close> are the states in which the provider can work.
\<close>

locale idempotent_provider =
  fixes P :: "'s Provider"
    and ready :: "'s \<Rightarrow> bool"
  assumes commit_again: "ready s \<Longrightarrow> CommitFiles P t fs msg s = (Inr (sha, changed), s') \<Longrightarrow>
          fst (CommitFiles P t fs msg' s') = Inr (sha, False)"
    and delete_again: "ready s \<Longrightarrow> DeleteFiles P t ps msg s = (Inr (sha, changed), s') \<Longrightarrow>
          fst (DeleteFiles P t ps msg' s') = Inr (sha, False)"
    and openpr_again: "ready s \<Longrightarrow> OpenPR P t fs b ti bo s = (Inr url, s') \<Longrightarrow>
          fst (OpenPR P t fs b ti' bo' s') = Inr url"

text \<open>A provider on which, when it is ready, every operation succeeds and leaves it ready.\<close>

locale git_provider = idempotent_provider +
  assumes commit_ready: "ready s \<Longrightarrow> \<exists>sha changed s'. CommitFiles P t fs msg s = (Inr (sha, changed), s') \<and> ready s'"
    and delete_ready: "ready s \<Longrightarrow> \<exists>sha changed s'. DeleteFiles P t ps msg s = (Inr (sha, changed), s') \<and> ready s'"
    and openpr_ready: "ready s \<Longrightarrow> \<exists>url s'. OpenPR P t fs b ti bo s = (Inr url, s') \<and> ready s'"

section \<open>The in-memory provider keeps the contract\<close>

lemma ensurePresent_simps [simp]:
  "mp_Commits (ensurePresent m) = mp_Commits m" "mp_PRs (ensurePresent m) = mp_PRs m"
  "mp_Deletes (ensurePresent m) = mp_Deletes m" "mp_Err (ensurePresent m) = mp_Err m"
  "is_present (ensurePresent m) k = is_present m k"
  by (simp_all add: ensurePresent_def is_present_def split: option.splits)

lemma set_present_simps [simp]:
  "mp_Commits (set_present k b m) = mp_Commits m" "mp_PRs (set_present k b m) = mp_PRs m"
  "mp_Deletes (set_present k b m) = mp_Deletes m" "mp_Err (set_present k b m) = mp_Err m"
  by (simp_all add: set_present_def)

lemma fold_set_present_simps [simp]:
  "mp_Commits (fold (\<lambda>f. set_present (k f) b) fs m) = mp_Commits m"
  "mp_PRs (fold (\<lambda>f. set_present (k f) b) fs m) = mp_PRs m"
  "mp_Err (fold (\<lambda>f. set_present (k f) b) fs m) = mp_Err m"
  by (induction fs arbitrary: m) simp_all

lemma is_present_set_False: "is_present (set_present k False m) j = (j \<noteq> k \<and> is_present m j)"
  by (simp add: is_present_def set_present_def split: option.splits)

lemma delete_present_Err [simp]: "mp_Err (fst (delete_present t ps m c)) = mp_Err m"
  by (induction ps arbitrary: m c) simp_all

lemma delete_present_absent:
  "\<not> is_present m k \<Longrightarrow> \<not> is_present (fst (delete_present t ps m c)) k"
  by (induction ps arbitrary: m c) (simp_all add: is_present_set_False)

lemma delete_present_all:
  "p \<in> set ps \<Longrightarrow> \<not> is_present (fst (delete_present t ps m c)) (FullPath t p)"
  by (induction ps arbitrary: m c) (auto simp: is_present_set_False delete_present_absent)

lemma delete_present_none:
  "\<forall>p \<in> set ps. \<not> is_present m (FullPath t p) \<Longrightarrow> delete_present t ps m c = (m, c)"
  by (induction ps) simp_all

lemma mem_delete_again:
  assumes "mem_DeleteFiles H t ps msg s = (Inr (sha, changed), s')"
  shows "fst (mem_DeleteFiles H t ps msg' s') = Inr (sha, False)"
proof -
  let ?d = "delete_present t ps (ensurePresent s) False"
  from assms have ok: "mp_Err s = None"
    and sha: "sha = hashFiles H [\<lparr>f_Path = ''delete:'' @ Join ps '','', f_Content = []\<rparr>]"
    and s': "\<exists>ds. s' = (fst ?d)\<lparr>mp_Deletes := ds\<rparr>"
    by (auto simp: mem_DeleteFiles_def Let_def split: option.splits prod.splits)
  from s' have "\<forall>p \<in> set ps. \<not> is_present s' (FullPath t p)"
    using delete_present_all [of _ ps t] by (auto simp: is_present_def)
  then have "delete_present t ps (ensurePresent s') False = (ensurePresent s', False)"
    by (simp add: delete_present_none)
  moreover from ok s' have "mp_Err s' = None" by auto
  ultimately show ?thesis by (simp add: mem_DeleteFiles_def Let_def sha)
qed

lemma mem_commit_again:
  assumes "mem_CommitFiles H t fs msg s = (Inr (sha, changed), s')"
  shows "fst (mem_CommitFiles H t fs msg' s') = Inr (sha, False)"
proof -
  from assms have "mp_Err s' = None" "sha = hashFiles H fs"
    "\<exists>cs r. mp_Commits s' = cs @ [r] \<and> cr_Target r = t \<and> cr_SHA r = hashFiles H fs"
    by (auto simp: mem_CommitFiles_def Let_def split: option.splits)
  then show ?thesis by (auto simp: mem_CommitFiles_def Let_def)
qed

lemma find_append_None: "find Q xs = None \<Longrightarrow> find Q (xs @ ys) = find Q ys"
  by (induction xs) (simp_all split: if_splits)

lemma mem_openpr_again:
  assumes "mem_OpenPR t fs b ti bo s = (Inr url, s')"
  shows "fst (mem_OpenPR t fs' b ti' bo' s') = Inr url"
  using assms
  by (auto simp: mem_OpenPR_def Let_def find_append_None split: option.splits)

interpretation mem: git_provider "mem_provider H" "\<lambda>m. mp_Err m = None" for H
proof (unfold_locales, goal_cases)
  case (1 s t fs msg sha changed s' msg')
  then show ?case by (simp add: mem_provider_def mem_commit_again)
next
  case (2 s t ps msg sha changed s' msg')
  then show ?case by (simp add: mem_provider_def mem_delete_again)
next
  case (3 s t fs b ti bo url s' ti' bo')
  then show ?case by (simp add: mem_provider_def mem_openpr_again)
next
  case (4 s t fs msg)
  then show ?case by (simp add: mem_provider_def mem_CommitFiles_def Let_def)
next
  case (5 s t ps msg)
  obtain m1 c where d: "delete_present t ps (ensurePresent s) False = (m1, c)" by fastforce
  then have "mp_Err m1 = mp_Err s" using delete_present_Err [of t ps "ensurePresent s" False] by simp
  with 5 d show ?case by (simp add: mem_provider_def mem_DeleteFiles_def Let_def)
next
  case (6 s t fs b ti bo)
  then show ?case by (auto simp: mem_provider_def mem_OpenPR_def Let_def split: option.splits)
qed

end
