(* ===== verification/Agent_Proto.thy ===== *)
theory Agent_Proto
  imports Git_Provider Complex_Main "HOL-Library.Finite_Map"
begin

text \<open>
  The data of the agent contract (\<open>inari.agent.v1\<close>) that the agent reads and writes, with the
  fields its code uses, and the decoded documents (\<open>map[string]interface{}\<close>) it handles.

  The generated contract code and protobuf are not part of the repository. What the agent
  calls of them is the record \<open>Codec\<close>, a parameter of every definition that decodes an event:
  the event-type tables and one \<open>UnmarshalTo\<close> per message type. The accessors of Kubernetes'
  \<open>unstructured\<close> package are the parameter record \<open>Accessors\<close>, the dynamic client is the record
  \<open>Dyn\<close>. \<open>ref_accessors\<close> is an instance of the accessors the witnesses evaluate.
\<close>

section \<open>Documents\<close>

text \<open>
  A decoded JSON or YAML value. \<open>UNum\<close> is a \<open>float64\<close> (every finite one is a rational number),
  \<open>UInt\<close> an \<open>int64\<close>; a \<open>map[string]interface{}\<close> is a partial function on strings.
\<close>

datatype uval =
    UNull
  | UBool bool
  | UNum rat
  | UInt int
  | UStr string
  | UList "uval list"
  | UMap "string \<Rightarrow> uval option"

type_synonym obj = "string \<Rightarrow> uval option"

text \<open>
  Resource coordinates of the Kubernetes API. The group of a core resource is empty.
\<close>

record GVR =
  g_Group :: string
  g_Version :: string
  g_Resource :: string

record GVK =
  k_Group :: string
  k_Version :: string
  k_Kind :: string

text \<open>
  The accessors of \<open>k8s.io/apimachinery\<close>'s \<open>unstructured\<close> package. The nested ones return the
  value and the found flag (every caller drops the third result, the error).
\<close>

record Accessors =
  NestedString :: "obj \<Rightarrow> string list \<Rightarrow> string \<times> bool"
  NestedBool :: "obj \<Rightarrow> string list \<Rightarrow> bool \<times> bool"
  NestedSlice :: "obj \<Rightarrow> string list \<Rightarrow> uval list \<times> bool"
  NestedMap :: "obj \<Rightarrow> string list \<Rightarrow> obj \<times> bool"
  NestedStringSlice :: "obj \<Rightarrow> string list \<Rightarrow> string list \<times> bool"
  SetNestedMap :: "obj \<Rightarrow> obj \<Rightarrow> string list \<Rightarrow> obj res"
  GetName :: "obj \<Rightarrow> string"
  GetNamespace :: "obj \<Rightarrow> string"
  GetKind :: "obj \<Rightarrow> string"
  GetUID :: "obj \<Rightarrow> string"
  GetLabels :: "obj \<Rightarrow> string \<Rightarrow> string option"
  GetAnnotations :: "obj \<Rightarrow> string \<Rightarrow> string option"
  GroupVersionKind :: "obj \<Rightarrow> GVK"
  SetName :: "string \<Rightarrow> obj \<Rightarrow> obj"
  SetNamespace :: "string \<Rightarrow> obj \<Rightarrow> obj"
  SetLabels :: "(string \<Rightarrow> string option) \<Rightarrow> obj \<Rightarrow> obj"
  SetAnnotations :: "(string \<Rightarrow> string option) \<Rightarrow> obj \<Rightarrow> obj"
  SetAPIVersion :: "string \<Rightarrow> obj \<Rightarrow> obj"
  SetKind :: "string \<Rightarrow> obj \<Rightarrow> obj"

text \<open>A lookup in a Go \<open>map[string]string\<close>: the empty string when the key is absent.\<close>

definition mget :: "(string \<Rightarrow> string option) \<Rightarrow> string \<Rightarrow> string" where
  "mget m k = (case m k of None \<Rightarrow> [] | Some v \<Rightarrow> v)"

text \<open>
  What the agent relies on: the accessors read the documented place of the document, a
  setter is read back by its getter and leaves the other fields alone.
\<close>

definition accessor_laws :: "Accessors \<Rightarrow> bool" where
  "accessor_laws A \<longleftrightarrow>
     (\<forall>ob m. ob ''metadata'' = Some (UMap m) \<longrightarrow>
        GetName A ob = (case m ''name'' of Some (UStr s) \<Rightarrow> s | _ \<Rightarrow> []) \<and>
        GetNamespace A ob = (case m ''namespace'' of Some (UStr s) \<Rightarrow> s | _ \<Rightarrow> []) \<and>
        (\<forall>l k s. m ''labels'' = Some (UMap l) \<longrightarrow> l k = Some (UStr s) \<longrightarrow>
            (\<forall>k' v. l k' = Some v \<longrightarrow> (\<exists>s'. v = UStr s')) \<longrightarrow> GetLabels A ob k = Some s)) \<and>
     (\<forall>ob. GetKind A ob = (case ob ''kind'' of Some (UStr s) \<Rightarrow> s | _ \<Rightarrow> [])) \<and>
     (\<forall>ob m. ob ''spec'' = Some (UMap m) \<longrightarrow> NestedMap A ob [''spec''] = (m, True)) \<and>
     (\<forall>ob m. SetNestedMap A ob m [''spec''] = Inr (ob(''spec'' \<mapsto> UMap m))) \<and>
     (\<forall>n ob. GetName A (SetName A n ob) = n \<and> GetNamespace A (SetName A n ob) = GetNamespace A ob
             \<and> GetLabels A (SetName A n ob) = GetLabels A ob) \<and>
     (\<forall>n ob. GetNamespace A (SetNamespace A n ob) = n \<and> GetName A (SetNamespace A n ob) = GetName A ob
             \<and> GetLabels A (SetNamespace A n ob) = GetLabels A ob) \<and>
     (\<forall>l ob. GetLabels A (SetLabels A l ob) = l \<and> GetName A (SetLabels A l ob) = GetName A ob
             \<and> GetNamespace A (SetLabels A l ob) = GetNamespace A ob) \<and>
     (\<forall>ob n l. NestedMap A (SetName A n ob) [''spec''] = NestedMap A ob [''spec''] \<and>
               NestedMap A (SetNamespace A n ob) [''spec''] = NestedMap A ob [''spec''] \<and>
               NestedMap A (SetLabels A l ob) [''spec''] = NestedMap A ob [''spec'']) \<and>
     (\<forall>ob v. GetName A (ob(''spec'' \<mapsto> v)) = GetName A ob \<and> GetLabels A (ob(''spec'' \<mapsto> v)) = GetLabels A ob)"

section \<open>Cluster access\<close>

text \<open>
  The dynamic client's calls the agent makes, on a world \<open>'w\<close>: resource, namespace, then the
  name or the object. \<open>dyn_Patch\<close> is a forced server-side apply of the encoded object.
\<close>

record 'w Dyn =
  dyn_Get :: "GVR \<Rightarrow> string \<Rightarrow> string \<Rightarrow> 'w \<Rightarrow> obj res \<times> 'w"
  dyn_Create :: "GVR \<Rightarrow> string \<Rightarrow> obj \<Rightarrow> 'w \<Rightarrow> go_err option \<times> 'w"
  dyn_Update :: "GVR \<Rightarrow> string \<Rightarrow> obj \<Rightarrow> 'w \<Rightarrow> go_err option \<times> 'w"
  dyn_Patch :: "GVR \<Rightarrow> string \<Rightarrow> string \<Rightarrow> string \<Rightarrow> 'w \<Rightarrow> go_err option \<times> 'w"

text \<open>
  What the agent relies on of the API server: \<open>cur w\<close> holds the committed objects, a read returns
  one under its name and commits nothing, a write that succeeds commits an object with the
  name, labels and spec of its argument (and whatever else the server fills in), a call that
  fails commits nothing.
\<close>

definition dyn_laws :: "Accessors \<Rightarrow> 'w Dyn \<Rightarrow> ('w \<Rightarrow> GVR \<times> string \<times> string \<Rightarrow> obj option) \<Rightarrow> bool" where
  "dyn_laws A D cur \<longleftrightarrow>
     (\<forall>r ns n w ob w'. dyn_Get D r ns n w = (Inr ob, w') \<longrightarrow>
        cur w (r, ns, n) = Some ob \<and> GetName A ob = n \<and> cur w' = cur w) \<and>
     (\<forall>r ns n w e w'. dyn_Get D r ns n w = (Inl e, w') \<longrightarrow>
        cur w' = cur w \<and> (IsNotFound e \<longrightarrow> cur w (r, ns, n) = None)) \<and>
     (\<forall>r ns ob w w'. dyn_Create D r ns ob w = (None, w') \<longrightarrow>
        (\<exists>st. cur w' = (cur w)((r, ns, GetName A ob) \<mapsto> st) \<and> GetLabels A st = GetLabels A ob
              \<and> NestedMap A st [''spec''] = NestedMap A ob [''spec''])) \<and>
     (\<forall>r ns ob w e w'. dyn_Create D r ns ob w = (Some e, w') \<longrightarrow> cur w' = cur w) \<and>
     (\<forall>r ns ob w w'. dyn_Update D r ns ob w = (None, w') \<longrightarrow>
        (\<exists>st. cur w' = (cur w)((r, ns, GetName A ob) \<mapsto> st) \<and> GetLabels A st = GetLabels A ob
              \<and> NestedMap A st [''spec''] = NestedMap A ob [''spec''])) \<and>
     (\<forall>r ns ob w e w'. dyn_Update D r ns ob w = (Some e, w') \<longrightarrow> cur w' = cur w)"

section \<open>Enumerations\<close>

text \<open>\<open>EVENT_TYPE_UNSPECIFIED\<close> stands for every value the agent's code does not name.\<close>

datatype EventType =
    EVENT_TYPE_UNSPECIFIED
  | EVENT_TYPE_APPLY_BUNDLE
  | EVENT_TYPE_REGISTER_ARGOCD_APP
  | EVENT_TYPE_INVOKE_ACTION
  | EVENT_TYPE_RENDER_RGD_INSTANCE
  | EVENT_TYPE_SECRET_STORE_APPLY
  | EVENT_TYPE_SECRET_STORE_DELETE
  | EVENT_TYPE_GITOPS_CONFIG_UPDATE
  | EVENT_TYPE_RESYNC_REQUEST
  | EVENT_TYPE_PING
  | EVENT_TYPE_PONG
  | EVENT_TYPE_COMMAND_ACK
  | EVENT_TYPE_COMMAND_NACK
  | EVENT_TYPE_CAPABILITY_UPDATE
  | EVENT_TYPE_STATUS_UPDATE

datatype CommandResult =
    COMMAND_RESULT_UNSPECIFIED
  | COMMAND_RESULT_ACCEPTED
  | COMMAND_RESULT_APPLIED
  | COMMAND_RESULT_FAILED

datatype CommitPolicy =
    COMMIT_POLICY_UNSPECIFIED
  | COMMIT_POLICY_PULL_REQUEST
  | COMMIT_POLICY_OTHER

section \<open>Messages\<close>

record CommandAck =
  ca_CommandId :: string
  ca_Result :: CommandResult
  ca_Message :: message

record 'p Event =
  ev_EventId :: string
  ev_ResourceId :: string
  ev_Type :: string
  ev_Payload :: "'p option"

datatype BundleSourceOneof = OciRef string | GitUrl string

record ApplyBundle =
  ab_CommandId :: string
  ab_Target :: "Target option"
  ab_Source :: "BundleSourceOneof option"
  ab_Checksum :: string
  ab_Policy :: CommitPolicy

record ArgoSource =
  as_RepoUrl :: string
  as_TargetRevision :: string
  as_Chart :: string
  as_Path :: string

record SyncPolicy =
  sp_Automated :: bool
  sp_Prune :: bool
  sp_SelfHeal :: bool

record RegisterArgoCDApp =
  ra_CommandId :: string
  ra_Name :: string
  ra_Project :: string
  ra_Source :: "ArgoSource option"
  ra_DestinationServer :: string
  ra_DestinationNamespace :: string
  ra_SyncPolicy :: "SyncPolicy option"

record ResourceRef =
  rr_Kind :: string
  rr_Name :: string
  rr_Namespace :: string
  rr_Uid :: string

text \<open>The timeout is a duration in nanoseconds; \<open>None\<close> is an unset message field.\<close>

record InvokeAction =
  ia_CommandId :: string
  ia_Action :: string
  ia_Resource :: "ResourceRef option"
  ia_Timeout :: "int option"
  ia_UserCredentialRef :: string
  ia_Parameters :: "obj option"

record RenderRgdInstance =
  rg_CommandId :: string
  rg_Target :: "Target option"
  rg_Parameters :: "obj option"
  rg_RgdRef :: string
  rg_InstanceName :: string
  rg_TargetNamespace :: string
  rg_Policy :: CommitPolicy

record SecretKeyRef =
  sk_Name :: string
  sk_Namespace :: string

datatype SecretStoreOneof =
    AwsSm string "SecretKeyRef option"
  | Vault string string "SecretKeyRef option"
  | GcpSm string "SecretKeyRef option"
  | AzureKv string string "SecretKeyRef option"

record SecretStoreApply =
  sa_CommandId :: string
  sa_Name :: string
  sa_Scope :: string
  sa_Provider :: "SecretStoreOneof option"
  sa_Target :: "Target option"
  sa_Policy :: CommitPolicy

record SecretStoreDelete =
  sd_CommandId :: string
  sd_Name :: string
  sd_Target :: "Target option"
  sd_Policy :: CommitPolicy

record GitopsConfigUpdate =
  gc_CommandId :: string
  gc_BaselineRepo :: string

text \<open>A value of a \<open>structpb.Struct\<close>, as \<open>GetStringValue\<close> tells them apart.\<close>

datatype pb_value = PbString string | PbOther

fun GetStringValue :: "pb_value option \<Rightarrow> string" where
  "GetStringValue (Some (PbString s)) = s"
| "GetStringValue _ = []"

section \<open>Decoding\<close>

record 'p Codec =
  EventTypeFromString :: "string \<Rightarrow> EventType"
  EventTypeString :: "EventType \<Rightarrow> string"
  dec_ApplyBundle :: "'p \<Rightarrow> ApplyBundle res"
  dec_RegisterArgoCDApp :: "'p \<Rightarrow> RegisterArgoCDApp res"
  dec_InvokeAction :: "'p \<Rightarrow> InvokeAction res"
  dec_RenderRgdInstance :: "'p \<Rightarrow> RenderRgdInstance res"
  dec_SecretStoreApply :: "'p \<Rightarrow> SecretStoreApply res"
  dec_SecretStoreDelete :: "'p \<Rightarrow> SecretStoreDelete res"
  dec_GitopsConfigUpdate :: "'p \<Rightarrow> GitopsConfigUpdate res"
  is_Struct :: "'p \<Rightarrow> bool"
  dec_Struct :: "'p \<Rightarrow> (string \<Rightarrow> pb_value option) res"

section \<open>Accessors to evaluate on\<close>

text \<open>The documented behaviour on documents whose labels are strings.\<close>

fun nested :: "obj \<Rightarrow> string list \<Rightarrow> uval option" where
  "nested ob [] = Some (UMap ob)"
| "nested ob [k] = ob k"
| "nested ob (k # ks) = (case ob k of Some (UMap m) \<Rightarrow> nested m ks | _ \<Rightarrow> None)"

definition str_of :: "uval option \<Rightarrow> string" where
  "str_of v = (case v of Some (UStr s) \<Rightarrow> s | _ \<Rightarrow> [])"

definition str_map :: "uval option \<Rightarrow> string \<Rightarrow> string option" where
  "str_map v k = (case v of Some (UMap m) \<Rightarrow> (case m k of Some (UStr s) \<Rightarrow> Some s | _ \<Rightarrow> None) | _ \<Rightarrow> None)"

definition set_metadata :: "string \<Rightarrow> uval \<Rightarrow> obj \<Rightarrow> obj" where
  "set_metadata k v ob =
     ob(''metadata'' \<mapsto> UMap ((case ob ''metadata'' of Some (UMap m) \<Rightarrow> m | _ \<Rightarrow> Map.empty)(k \<mapsto> v)))"

definition ref_accessors :: Accessors where
  "ref_accessors =
     \<lparr>NestedString = (\<lambda>ob p. case nested ob p of Some (UStr s) \<Rightarrow> (s, True) | _ \<Rightarrow> ([], False)),
      NestedBool = (\<lambda>ob p. case nested ob p of Some (UBool b) \<Rightarrow> (b, True) | _ \<Rightarrow> (False, False)),
      NestedSlice = (\<lambda>ob p. case nested ob p of Some (UList xs) \<Rightarrow> (xs, True) | _ \<Rightarrow> ([], False)),
      NestedMap = (\<lambda>ob p. case nested ob p of Some (UMap m) \<Rightarrow> (m, True) | _ \<Rightarrow> (Map.empty, False)),
      NestedStringSlice = (\<lambda>ob p. case nested ob p of
          Some (UList xs) \<Rightarrow>
            if list_all (\<lambda>x. case x of UStr s \<Rightarrow> True | _ \<Rightarrow> False) xs
            then (map (\<lambda>x. case x of UStr s \<Rightarrow> s | _ \<Rightarrow> []) xs, True) else ([], False)
        | _ \<Rightarrow> ([], False)),
      SetNestedMap = (\<lambda>ob m p. if p = [''spec''] then Inr (ob(''spec'' \<mapsto> UMap m)) else Inl (ExtError ''path'')),
      GetName = (\<lambda>ob. str_of (nested ob [''metadata'', ''name''])),
      GetNamespace = (\<lambda>ob. str_of (nested ob [''metadata'', ''namespace''])),
      GetKind = (\<lambda>ob. str_of (ob ''kind'')),
      GetUID = (\<lambda>ob. str_of (nested ob [''metadata'', ''uid''])),
      GetLabels = (\<lambda>ob. str_map (nested ob [''metadata'', ''labels''])),
      GetAnnotations = (\<lambda>ob. str_map (nested ob [''metadata'', ''annotations''])),
      GroupVersionKind = (\<lambda>ob. case Cut (str_of (ob ''apiVersion'')) (CHR ''/'') of
          (a, b, True) \<Rightarrow> \<lparr>k_Group = a, k_Version = b, k_Kind = str_of (ob ''kind'')\<rparr>
        | (a, b, False) \<Rightarrow> \<lparr>k_Group = [], k_Version = a, k_Kind = str_of (ob ''kind'')\<rparr>),
      SetName = (\<lambda>n. set_metadata ''name'' (UStr n)),
      SetNamespace = (\<lambda>n. set_metadata ''namespace'' (UStr n)),
      SetLabels = (\<lambda>l. set_metadata ''labels'' (UMap (\<lambda>k. map_option UStr (l k)))),
      SetAnnotations = (\<lambda>l. set_metadata ''annotations'' (UMap (\<lambda>k. map_option UStr (l k)))),
      SetAPIVersion = (\<lambda>v ob. ob(''apiVersion'' \<mapsto> UStr v)),
      SetKind = (\<lambda>k ob. ob(''kind'' \<mapsto> UStr k))\<rparr>"

lemma ref_accessors_laws: "accessor_laws ref_accessors"
  unfolding accessor_laws_def ref_accessors_def
  by (auto simp: str_of_def str_map_def set_metadata_def fun_eq_iff split: option.splits uval.splits)

text \<open>A server that keeps the objects it is given, under resource, namespace and name.\<close>

type_synonym dyn_server = "GVR \<times> string \<times> string \<Rightarrow> obj option"

definition mem_dyn :: "dyn_server Dyn" where
  "mem_dyn =
     \<lparr>dyn_Get = (\<lambda>r ns n w. case w (r, ns, n) of
          Some ob \<Rightarrow> if GetName ref_accessors ob = n then (Inr ob, w) else (Inl (ExtError ''corrupt''), w)
        | None \<Rightarrow> (Inl (ApiError NotFound n), w)),
      dyn_Create = (\<lambda>r ns ob w. case w (r, ns, GetName ref_accessors ob) of
          None \<Rightarrow> (None, w((r, ns, GetName ref_accessors ob) \<mapsto> ob))
        | Some _ \<Rightarrow> (Some (ApiError AlreadyExists (GetName ref_accessors ob)), w)),
      dyn_Update = (\<lambda>r ns ob w. case w (r, ns, GetName ref_accessors ob) of
          None \<Rightarrow> (Some (ApiError NotFound (GetName ref_accessors ob)), w)
        | Some _ \<Rightarrow> (None, w((r, ns, GetName ref_accessors ob) \<mapsto> ob))),
      dyn_Patch = (\<lambda>r ns n data w. (Some (ApiError NotFound n), w))\<rparr>"

lemma mem_dyn_laws: "dyn_laws ref_accessors mem_dyn (\<lambda>w. w)"
  unfolding dyn_laws_def mem_dyn_def by (auto split: option.splits if_splits)

end
