(* ===== verification/Dispatcher.thy ===== *)
theory Dispatcher
  imports Agent_Proto
begin

text \<open>
  The command dispatcher of \<open>internal/command\<close> (\<open>dispatcher.go\<close>, \<open>bridge.go\<close>, \<open>errors.go\<close>,
  \<open>handler.go\<close>): it finds the command id of an event, answers a known command with its
  recorded acknowledgement, refuses new commands while the stream is down, runs the handler
  of the command's kind and records the result, in memory and in the journal.

  A handler is a function of the event and of the world \<open>'w\<close> its dependencies act on. The
  agent calls the dispatcher from one goroutine, so a run is a sequence of operations
  (\<open>disp_step\<close>). The locale \<open>durable_journal\<close> is the contract of the \<open>Journal\<close> interface.
\<close>

section \<open>Data\<close>

type_synonym ('p, 'w) KindHandler =
  "'p Event \<Rightarrow> 'w \<Rightarrow> (CommandResult \<times> message \<times> go_err option) \<times> 'w"

record 'w Journal =
  j_Load :: "'w \<Rightarrow> (string \<Rightarrow> CommandAck option) res \<times> 'w"
  j_Record :: "CommandAck \<Rightarrow> 'w \<Rightarrow> go_err option \<times> 'w"

record ('p, 'w) Dispatcher =
  d_seen :: "string \<Rightarrow> CommandAck option"
  d_handlers :: "EventType \<Rightarrow> ('p, 'w) KindHandler option"
  d_bridgeHandlers :: "string \<Rightarrow> ('p, 'w) KindHandler option"
  d_journal :: "'w Journal option"
  d_handled :: "64 word"
  d_connected :: bool

section \<open>Operations\<close>

definition NewDispatcher :: "('p, 'w) Dispatcher" where
  "NewDispatcher =
     \<lparr>d_seen = Map.empty, d_handlers = Map.empty, d_bridgeHandlers = Map.empty,
      d_journal = None, d_handled = 0, d_connected = True\<rparr>"

definition Register ::
  "EventType \<Rightarrow> ('p, 'w) KindHandler \<Rightarrow> ('p, 'w) Dispatcher \<Rightarrow> ('p, 'w) Dispatcher" where
  "Register t h d = d\<lparr>d_handlers := (d_handlers d)(t \<mapsto> h)\<rparr>"

definition RegisterBridge ::
  "string \<Rightarrow> ('p, 'w) KindHandler \<Rightarrow> ('p, 'w) Dispatcher \<Rightarrow> ('p, 'w) Dispatcher" where
  "RegisterBridge t h d = d\<lparr>d_bridgeHandlers := (d_bridgeHandlers d)(t \<mapsto> h)\<rparr>"

definition SetConnected :: "bool \<Rightarrow> ('p, 'w) Dispatcher \<Rightarrow> ('p, 'w) Dispatcher" where
  "SetConnected v d = d\<lparr>d_connected := v\<rparr>"

definition HandledCount :: "('p, 'w) Dispatcher \<Rightarrow> 64 word" where
  "HandledCount d = d_handled d"

text \<open>The loop over the loaded acks: an id the dispatcher has seen keeps its own ack.\<close>

definition AttachJournal ::
  "'w Journal \<Rightarrow> ('p, 'w) Dispatcher \<Rightarrow> 'w \<Rightarrow> go_err option \<times> ('p, 'w) Dispatcher \<times> 'w" where
  "AttachJournal j d w =
     (case j_Load j w of
        (Inl err, w') \<Rightarrow> (Some (Wrapf ''command: load journal: %w'' [] err), d, w')
      | (Inr loaded, w') \<Rightarrow>
          (None, d\<lparr>d_seen := (\<lambda>i. case d_seen d i of None \<Rightarrow> loaded i | Some ack \<Rightarrow> Some ack),
                   d_journal := Some j\<rparr>, w'))"

definition requireID :: "string \<Rightarrow> string res" where
  "requireID cid = (if cid = [] then Inl (Errorf ''command: missing command_id'' []) else Inr cid)"

definition RegisterArgoCDAppSetEventType :: string where
  "RegisterArgoCDAppSetEventType = ''EVENT_TYPE_REGISTER_ARGOCD_APPSET''"

definition RegisterArgoCDAppManifestEventType :: string where
  "RegisterArgoCDAppManifestEventType = ''EVENT_TYPE_REGISTER_ARGOCD_APP_MANIFEST''"

definition IsBridgeCommandType :: "string \<Rightarrow> bool" where
  "IsBridgeCommandType typeStr \<longleftrightarrow>
     typeStr = RegisterArgoCDAppSetEventType \<or> typeStr = RegisterArgoCDAppManifestEventType"

definition bridgeCommandID :: "'p Codec \<Rightarrow> string \<Rightarrow> 'p \<Rightarrow> string res" where
  "bridgeCommandID cd ty p =
     (if \<not> is_Struct cd p then Inl (Errorf ''command: unknown event type %q'' [AStr ty])
      else case dec_Struct cd p of
        Inl err \<Rightarrow> Inl (Wrapf ''command: decode bridge payload: %w'' [] err)
      | Inr doc \<Rightarrow> requireID (GetStringValue (doc ''commandId'')))"

text \<open>The shared bridge payload: command id, name, namespace and manifest.\<close>

definition DecodeBridgeManifest ::
  "'p Codec \<Rightarrow> 'p option \<Rightarrow> (string \<times> string \<times> string \<times> string) res" where
  "DecodeBridgeManifest cd payload =
     (case payload of
        None \<Rightarrow> Inl (Errorf ''command: bridge payload is not a struct'' [])
      | Some p \<Rightarrow>
          if \<not> is_Struct cd p then Inl (Errorf ''command: bridge payload is not a struct'' [])
          else case dec_Struct cd p of
            Inl err \<Rightarrow> Inl (Wrapf ''command: decode bridge payload: %w'' [] err)
          | Inr f \<Rightarrow>
              let commandID = GetStringValue (f ''commandId''); name = GetStringValue (f ''name'');
                  namespace = GetStringValue (f ''namespace''); manifest = GetStringValue (f ''manifest'')
              in if commandID = [] then Inl (Errorf ''command: bridge payload missing commandId'' [])
                 else if name = [] then Inl (Errorf ''command: bridge payload missing name'' [])
                 else if manifest = [] then Inl (Errorf ''command: bridge payload missing manifest'' [])
                 else Inr (commandID, name, namespace, manifest))"

text \<open>One arm of \<open>commandIDOf\<close>: decode the payload, then require its id.\<close>

definition decoded_id :: "string \<Rightarrow> ('m \<Rightarrow> string) \<Rightarrow> 'm res \<Rightarrow> string res" where
  "decoded_id fmt commandId r =
     (case r of Inl err \<Rightarrow> Inl (Wrapf fmt [] err) | Inr m \<Rightarrow> requireID (commandId m))"

definition commandIDOf :: "'p Codec \<Rightarrow> string \<Rightarrow> 'p \<Rightarrow> string res" where
  "commandIDOf cd ty p =
     (case EventTypeFromString cd ty of
        EVENT_TYPE_APPLY_BUNDLE \<Rightarrow>
          decoded_id ''command: decode apply-bundle: %w'' ab_CommandId (dec_ApplyBundle cd p)
      | EVENT_TYPE_REGISTER_ARGOCD_APP \<Rightarrow>
          decoded_id ''command: decode register-argocd-app: %w'' ra_CommandId (dec_RegisterArgoCDApp cd p)
      | EVENT_TYPE_INVOKE_ACTION \<Rightarrow>
          decoded_id ''command: decode invoke-action: %w'' ia_CommandId (dec_InvokeAction cd p)
      | EVENT_TYPE_RENDER_RGD_INSTANCE \<Rightarrow>
          decoded_id ''command: decode render-rgd-instance: %w'' rg_CommandId (dec_RenderRgdInstance cd p)
      | EVENT_TYPE_SECRET_STORE_APPLY \<Rightarrow>
          decoded_id ''command: decode secret-store-apply: %w'' sa_CommandId (dec_SecretStoreApply cd p)
      | EVENT_TYPE_SECRET_STORE_DELETE \<Rightarrow>
          decoded_id ''command: decode secret-store-delete: %w'' sd_CommandId (dec_SecretStoreDelete cd p)
      | EVENT_TYPE_GITOPS_CONFIG_UPDATE \<Rightarrow>
          decoded_id ''command: decode gitops-config-update: %w'' gc_CommandId (dec_GitopsConfigUpdate cd p)
      | _ \<Rightarrow> bridgeCommandID cd ty p)"

text \<open>The handler an event's type selects: the typed table first, then the bridge table.\<close>

definition find_handler :: "'p Codec \<Rightarrow> ('p, 'w) Dispatcher \<Rightarrow> string \<Rightarrow> ('p, 'w) KindHandler option" where
  "find_handler cd d ty =
     (case d_handlers d (EventTypeFromString cd ty) of
        Some h \<Rightarrow> Some h
      | None \<Rightarrow> d_bridgeHandlers d ty)"

text \<open>The end of \<open>HandleEvent\<close>: remember the ack, journal it, count the command.\<close>

definition record_ack ::
  "string \<Rightarrow> CommandAck \<Rightarrow> ('p, 'w) Dispatcher \<Rightarrow> 'w \<Rightarrow> CommandAck res \<times> ('p, 'w) Dispatcher \<times> 'w" where
  "record_ack commandID ack d w =
     (let d1 = d\<lparr>d_seen := (d_seen d)(commandID \<mapsto> ack)\<rparr>
      in case d_journal d1 of
           None \<Rightarrow> (Inr ack, d1\<lparr>d_handled := d_handled d1 + 1\<rparr>, w)
         | Some j \<Rightarrow>
             (case j_Record j ack w of
                (Some err, w') \<Rightarrow>
                  (Inl (CommandError commandID
                          (Wrapf ''command %s: journal record: %w'' [AStr commandID] err)), d1, w')
              | (None, w') \<Rightarrow> (Inr ack, d1\<lparr>d_handled := d_handled d1 + 1\<rparr>, w')))"

definition HandleEvent ::
  "'p Codec \<Rightarrow> 'p Event option \<Rightarrow> ('p, 'w) Dispatcher \<Rightarrow> 'w \<Rightarrow> CommandAck res \<times> ('p, 'w) Dispatcher \<times> 'w"
where
  "HandleEvent cd evo d w =
     (case evo of
        None \<Rightarrow> (Inl (Errorf ''command: empty event'' []), d, w)
      | Some ev \<Rightarrow>
          (case ev_Payload ev of
             None \<Rightarrow> (Inl (Errorf ''command: empty event'' []), d, w)
           | Some p \<Rightarrow>
               (case commandIDOf cd (ev_Type ev) p of
                  Inl err \<Rightarrow> (Inl err, d, w)
                | Inr commandID \<Rightarrow>
                    (case d_seen d commandID of
                       Some ack \<Rightarrow> (Inr ack, d, w)
                     | None \<Rightarrow>
                         if \<not> d_connected d then
                           (Inl (CommandError commandID
                                   (Errorf ''command %s: stream disconnected, failing closed'' [AStr commandID])), d, w)
                         else
                           (case find_handler cd d (ev_Type ev) of
                              None \<Rightarrow>
                                record_ack commandID
                                  \<lparr>ca_CommandId = commandID, ca_Result = COMMAND_RESULT_ACCEPTED,
                                   ca_Message = Text ''accepted (no handler registered)''\<rparr> d w
                            | Some handler \<Rightarrow>
                                (case handler ev w of
                                   ((result, message, Some err), w1) \<Rightarrow>
                                     (Inl (CommandError commandID
                                             (Wrapf ''command %s: %w'' [AStr commandID] err)), d, w1)
                                 | ((result, message, None), w1) \<Rightarrow>
                                     record_ack commandID
                                       \<lparr>ca_CommandId = commandID, ca_Result = result, ca_Message = message\<rparr>
                                       d w1))))))"

section \<open>Runs\<close>

text \<open>
  The operations other parts of the agent perform on the dispatcher, with \<open>Outside\<close> for
  whatever else changes the world between two of them.
\<close>

datatype ('p, 'w) disp_op =
    Handle "'p Event option"
  | Reg EventType "('p, 'w) KindHandler"
  | RegBridge string "('p, 'w) KindHandler"
  | Attach "'w Journal"
  | Connected bool
  | Outside "'w \<Rightarrow> 'w"

fun disp_step ::
  "'p Codec \<Rightarrow> ('p, 'w) disp_op \<Rightarrow> ('p, 'w) Dispatcher \<times> 'w \<Rightarrow> ('p, 'w) Dispatcher \<times> 'w" where
  "disp_step cd (Handle ev) (d, w) = snd (HandleEvent cd ev d w)"
| "disp_step cd (Reg t h) (d, w) = (Register t h d, w)"
| "disp_step cd (RegBridge t h) (d, w) = (RegisterBridge t h d, w)"
| "disp_step cd (Attach j) (d, w) = snd (AttachJournal j d w)"
| "disp_step cd (Connected v) (d, w) = (SetConnected v d, w)"
| "disp_step cd (Outside f) (d, w) = (d, f w)"

definition disp_run ::
  "'p Codec \<Rightarrow> ('p, 'w) disp_op list \<Rightarrow> ('p, 'w) Dispatcher \<times> 'w \<Rightarrow> ('p, 'w) Dispatcher \<times> 'w" where
  "disp_run cd ops s = fold (disp_step cd) ops s"

text \<open>The command id of an event, when it has one.\<close>

definition event_id :: "'p Codec \<Rightarrow> 'p Event option \<Rightarrow> string option" where
  "event_id cd evo =
     (case evo of None \<Rightarrow> None
      | Some ev \<Rightarrow>
          (case ev_Payload ev of None \<Rightarrow> None
           | Some p \<Rightarrow> (case commandIDOf cd (ev_Type ev) p of Inl _ \<Rightarrow> None | Inr i \<Rightarrow> Some i)))"

section \<open>One event\<close>

lemma HandleEvent_no_id:
  "event_id cd ev = None \<Longrightarrow>
     \<exists>e. HandleEvent cd ev d w = (Inl e, d, w) \<and> (\<forall>c e'. e \<noteq> CommandError c e')"
  by (auto simp: event_id_def HandleEvent_def commandIDOf_def decoded_id_def bridgeCommandID_def
      requireID_def split: option.splits sum.splits EventType.splits if_splits)

lemma HandleEvent_seen:
  "event_id cd ev = Some c \<Longrightarrow> d_seen d c = Some ack \<Longrightarrow> HandleEvent cd ev d w = (Inr ack, d, w)"
  by (auto simp: event_id_def HandleEvent_def split: option.splits sum.splits)

lemma HandleEvent_disconnected:
  "event_id cd ev = Some c \<Longrightarrow> d_seen d c = None \<Longrightarrow> \<not> d_connected d \<Longrightarrow>
     HandleEvent cd ev d w =
       (Inl (CommandError c (Errorf ''command %s: stream disconnected, failing closed'' [AStr c])), d, w)"
  by (auto simp: event_id_def HandleEvent_def split: option.splits sum.splits)

text \<open>A new command on a connected stream: no handler, a handler that fails, one that answers.\<close>

lemma HandleEvent_no_handler:
  assumes "event_id cd (Some ev) = Some c" and "d_seen d c = None" and "d_connected d"
    and "find_handler cd d (ev_Type ev) = None"
  shows "HandleEvent cd (Some ev) d w =
           record_ack c \<lparr>ca_CommandId = c, ca_Result = COMMAND_RESULT_ACCEPTED,
                         ca_Message = Text ''accepted (no handler registered)''\<rparr> d w"
  using assms by (auto simp: event_id_def HandleEvent_def split: option.splits sum.splits)

lemma HandleEvent_handler_error:
  assumes "event_id cd (Some ev) = Some c" and "d_seen d c = None" and "d_connected d"
    and "find_handler cd d (ev_Type ev) = Some h" and "h ev w = ((r, m, Some err), w1)"
  shows "HandleEvent cd (Some ev) d w =
           (Inl (CommandError c (Wrapf ''command %s: %w'' [AStr c] err)), d, w1)"
  using assms by (auto simp: event_id_def HandleEvent_def split: option.splits sum.splits)

lemma HandleEvent_handler_result:
  assumes "event_id cd (Some ev) = Some c" and "d_seen d c = None" and "d_connected d"
    and "find_handler cd d (ev_Type ev) = Some h" and "h ev w = ((r, m, None), w1)"
  shows "HandleEvent cd (Some ev) d w =
           record_ack c \<lparr>ca_CommandId = c, ca_Result = r, ca_Message = m\<rparr> d w1"
  using assms by (auto simp: event_id_def HandleEvent_def split: option.splits sum.splits)

lemma record_ack_seen:
  "record_ack c ack d w = (r, d', w') \<Longrightarrow> d_seen d' = (d_seen d)(c \<mapsto> ack)"
  by (auto simp: record_ack_def Let_def split: option.splits prod.splits)

lemma record_ack_error:
  "record_ack c ack d w = (Inl err, d', w') \<Longrightarrow>
     (\<exists>e. err = CommandError c e) \<and> d' = d\<lparr>d_seen := (d_seen d)(c \<mapsto> ack)\<rparr> \<and> d_journal d \<noteq> None"
  by (auto simp: record_ack_def Let_def split: option.splits prod.splits)

lemma record_ack_ok:
  "record_ack c ack d w = (Inr a, d', w') \<Longrightarrow>
     a = ack \<and> d' = d\<lparr>d_seen := (d_seen d)(c \<mapsto> ack), d_handled := d_handled d + 1\<rparr>"
  by (auto simp: record_ack_def Let_def split: option.splits prod.splits)

text \<open>The whole of \<open>HandleEvent\<close> on a command it has not seen, in terms of \<open>record_ack\<close>.\<close>

lemma HandleEvent_cases:
  assumes "event_id cd evo = Some c"
  obtains (seen) ack where "d_seen d c = Some ack" "HandleEvent cd evo d w = (Inr ack, d, w)"
  | (closed) e where "d_seen d c = None" "\<not> d_connected d"
      "HandleEvent cd evo d w = (Inl (CommandError c e), d, w)"
  | (failed) e w1 where "d_seen d c = None" "d_connected d"
      "HandleEvent cd evo d w = (Inl (CommandError c e), d, w1)"
  | (executed) ack w1 where "d_seen d c = None" "d_connected d" "ca_CommandId ack = c"
      "HandleEvent cd evo d w = record_ack c ack d w1"
proof -
  from assms obtain ev where ev: "evo = Some ev" by (cases evo) (auto simp: event_id_def)
  show thesis
  proof (cases "d_seen d c")
    case (Some ack)
    with assms show thesis by (intro seen HandleEvent_seen)
  next
    case None
    show thesis
    proof (cases "d_connected d")
      case False
      from closed [OF None this HandleEvent_disconnected [OF assms None this]] show thesis .
    next
      case True
      show thesis
      proof (cases "find_handler cd d (ev_Type ev)")
        case no: None
        have "HandleEvent cd evo d w =
           record_ack c \<lparr>ca_CommandId = c, ca_Result = COMMAND_RESULT_ACCEPTED,
                         ca_Message = Text ''accepted (no handler registered)''\<rparr> d w"
          using HandleEvent_no_handler assms None True no by (simp add: ev)
        with None True show thesis by (intro executed) auto
      next
        case h: (Some h)
        obtain r m eo w1 where run: "h ev w = ((r, m, eo), w1)" by (metis prod.exhaust)
        show thesis
        proof (cases eo)
          case (Some e)
          with assms None True h run show thesis
            using failed HandleEvent_handler_error [of cd ev c d h w r m e w1] by (auto simp: ev)
        next
          case eo: None
          have "HandleEvent cd evo d w = record_ack c \<lparr>ca_CommandId = c, ca_Result = r, ca_Message = m\<rparr> d w1"
            using HandleEvent_handler_result assms None True h run eo by (simp add: ev)
          with None True show thesis by (intro executed) auto
        qed
      qed
    qed
  qed
qed

lemma HandleEvent_Inr_seen:
  assumes "HandleEvent cd ev d w = (Inr ack, d', w')"
  obtains c where "event_id cd ev = Some c" and "d_seen d' c = Some ack"
proof (cases "event_id cd ev")
  case None
  with assms show thesis using HandleEvent_no_id [of cd ev d w] by auto
next
  case (Some c)
  then have "d_seen d' c = Some ack"
    using assms by (cases rule: HandleEvent_cases [of cd ev c d w]) (auto dest: record_ack_ok)
  with Some show thesis by (rule that)
qed

section \<open>Runs of operations\<close>

lemma HandleEvent_seen_mono: "d_seen d \<subseteq>\<^sub>m d_seen (fst (snd (HandleEvent cd ev d w)))"
proof (cases "event_id cd ev")
  case None
  then show ?thesis using HandleEvent_no_id [of cd ev d w] by auto
next
  case (Some c)
  then show ?thesis
  proof (cases rule: HandleEvent_cases [of cd ev c d w])
    case (executed ack w1)
    obtain r d' w' where rec: "record_ack c ack d w1 = (r, d', w')" by (metis prod.exhaust)
    then have "d_seen d' = (d_seen d)(c \<mapsto> ack)" by (rule record_ack_seen)
    with executed rec show ?thesis by (simp add: map_le_upd_fresh)
  qed simp_all
qed

lemma AttachJournal_seen_mono: "d_seen d \<subseteq>\<^sub>m d_seen (fst (snd (AttachJournal j d w)))"
  by (auto simp: AttachJournal_def map_le_def split: prod.splits sum.splits option.splits)

lemma disp_step_seen_mono: "d_seen (fst s) \<subseteq>\<^sub>m d_seen (fst (disp_step cd oper s))"
  by (cases s; cases oper)
    (simp_all add: Register_def RegisterBridge_def SetConnected_def HandleEvent_seen_mono AttachJournal_seen_mono)

lemma disp_run_seen_mono: "d_seen (fst s) \<subseteq>\<^sub>m d_seen (fst (disp_run cd ops s))"
proof (induction ops arbitrary: s)
  case Nil
  then show ?case by (simp add: disp_run_def)
next
  case (Cons oper ops)
  have "d_seen (fst s) \<subseteq>\<^sub>m d_seen (fst (disp_step cd oper s))" by (rule disp_step_seen_mono)
  also have "\<dots> \<subseteq>\<^sub>m d_seen (fst (disp_run cd ops (disp_step cd oper s)))" by (rule Cons.IH)
  finally show ?case by (simp add: disp_run_def)
qed

section \<open>The contract of a journal\<close>

text \<open>
  What the dispatcher relies on: an ack that was recorded without an error is the stored one
  for its id, and a load that succeeds returns what is stored and changes nothing.
\<close>

locale durable_journal =
  fixes J :: "'w Journal"
    and stored :: "'w \<Rightarrow> string \<Rightarrow> CommandAck option"
  assumes record_stored: "j_Record J ack w = (None, w') \<Longrightarrow> stored w' (ca_CommandId ack) = Some ack"
    and load_stored: "j_Load J w = (Inr m, w') \<Longrightarrow> m = stored w \<and> stored w' = stored w"
begin

lemma executed_stored:
  assumes "d_journal d = Some J" and "event_id cd ev = Some c" and "d_seen d c = None"
    and "HandleEvent cd ev d w = (Inr ack, d', w')"
  shows "stored w' c = Some ack"
  using assms(2-4)
proof (cases rule: HandleEvent_cases [of cd ev c d w])
  case (executed a w1)
  with assms obtain "ca_CommandId ack = c" and "j_Record J ack w1 = (None, w')"
    by (auto simp: record_ack_def Let_def split: prod.splits option.splits)
  then show ?thesis using record_stored by auto
qed simp_all

lemma attached_seen:
  assumes "AttachJournal J NewDispatcher w = (None, d', w')" and "stored w c = Some ack"
  shows "d_seen d' c = Some ack"
  using assms load_stored
  by (auto simp: AttachJournal_def NewDispatcher_def split: prod.splits sum.splits)

lemma restart_replays:
  assumes "d_journal d = Some J" and "event_id cd ev = Some c" and "d_seen d c = None"
    and "HandleEvent cd ev d w = (Inr ack, d1, w1)"
    and "stored w2 c = stored w1 c"
    and "AttachJournal J NewDispatcher w2 = (None, d3, w3)"
    and "event_id cd ev' = Some c"
  shows "HandleEvent cd ev' d3 w3 = (Inr ack, d3, w3)"
proof -
  from assms(1-5) have "stored w2 c = Some ack" using executed_stored by simp
  with assms(6) have "d_seen d3 c = Some ack" by (rule attached_seen)
  with assms(7) show ?thesis by (rule HandleEvent_seen)
qed

end

section \<open>A codec to evaluate on\<close>

text \<open>
  A payload that is just a command id: \<open>apply\<close> events decode as bundles, every other payload is
  a document with that command id. The witnesses evaluate the dispatcher on it.
\<close>

definition sample_codec :: "string Codec" where
  "sample_codec =
     \<lparr>EventTypeFromString = (\<lambda>t. if t = ''apply'' then EVENT_TYPE_APPLY_BUNDLE else EVENT_TYPE_UNSPECIFIED),
      EventTypeString = (\<lambda>t. if t = EVENT_TYPE_APPLY_BUNDLE then ''apply'' else ''other''),
      dec_ApplyBundle = (\<lambda>p. Inr \<lparr>ab_CommandId = p, ab_Target = None, ab_Source = None,
                                  ab_Checksum = [], ab_Policy = COMMIT_POLICY_UNSPECIFIED\<rparr>),
      dec_RegisterArgoCDApp = (\<lambda>p. Inl (ExtError ''type'')),
      dec_InvokeAction = (\<lambda>p. Inl (ExtError ''type'')),
      dec_RenderRgdInstance = (\<lambda>p. Inl (ExtError ''type'')),
      dec_SecretStoreApply = (\<lambda>p. Inl (ExtError ''type'')),
      dec_SecretStoreDelete = (\<lambda>p. Inl (ExtError ''type'')),
      dec_GitopsConfigUpdate = (\<lambda>p. Inl (ExtError ''type'')),
      is_Struct = (\<lambda>p. True),
      dec_Struct = (\<lambda>p. Inr [''commandId'' \<mapsto> PbString p])\<rparr>"

definition sample_event :: "string \<Rightarrow> string Event" where
  "sample_event cid = \<lparr>ev_EventId = ''e1'', ev_ResourceId = [], ev_Type = ''apply'', ev_Payload = Some cid\<rparr>"

text \<open>A handler that counts its executions in the world, and one that is unavailable.\<close>

definition counting_handler :: "(string, nat) KindHandler" where
  "counting_handler ev w = ((COMMAND_RESULT_APPLIED, Text ''done'', None), w + 1)"

definition failing_handler :: "(string, nat) KindHandler" where
  "failing_handler ev w = ((COMMAND_RESULT_UNSPECIFIED, Text [], Some (ExtError ''unavailable'')), w)"

text \<open>A journal whose store is full: loading finds nothing, recording fails.\<close>

definition broken_journal :: "nat Journal" where
  "broken_journal = \<lparr>j_Load = (\<lambda>w. (Inr Map.empty, w)), j_Record = (\<lambda>ack w. (Some (ExtError ''full''), w))\<rparr>"

lemma sample_event_id [simp]: "c \<noteq> [] \<Longrightarrow> event_id sample_codec (Some (sample_event c)) = Some c"
  by (simp add: event_id_def sample_event_def commandIDOf_def sample_codec_def decoded_id_def requireID_def)

lemma sample_find_handler [simp]:
  "find_handler sample_codec d (ev_Type (sample_event c)) =
     (case d_handlers d EVENT_TYPE_APPLY_BUNDLE of Some h \<Rightarrow> Some h | None \<Rightarrow> d_bridgeHandlers d ''apply'')"
  by (simp add: find_handler_def sample_codec_def sample_event_def)

section \<open>Properties\<close>

text \<open>
  C1. A command is answered once: after \<open>HandleEvent\<close> has returned an acknowledgement for a
  command id, and after any further operations on the dispatcher (other events, a lost
  connection, a journal attached, handlers replaced, the world changed from outside), every
  event with the same command id gets that acknowledgement, and neither the dispatcher nor
  the world changes: no handler runs again.
\<close>

theorem answered_command_replays:
  assumes "HandleEvent cd ev d w = (Inr ack, d1, w1)"
    and "disp_run cd ops (d1, w1) = (d2, w2)"
    and "event_id cd ev' = event_id cd ev"
  shows "HandleEvent cd ev' d2 w2 = (Inr ack, d2, w2)"
proof -
  from assms(1) obtain c where c: "event_id cd ev = Some c" and "d_seen d1 c = Some ack"
    by (rule HandleEvent_Inr_seen)
  moreover have "d_seen d1 \<subseteq>\<^sub>m d_seen d2"
    using disp_run_seen_mono [of "(d1, w1)" cd ops] assms(2) by simp
  ultimately have "d_seen d2 c = Some ack" by (blast intro: map_le_domD)
  with assms(3) c show ?thesis by (simp add: HandleEvent_seen)
qed

text \<open>Handled once (the world counts one execution), the stream lost, delivered again.\<close>

theorem answered_command_replays_witness:
  "\<exists>ack d1 d2. HandleEvent sample_codec (Some (sample_event ''c1''))
       (Register EVENT_TYPE_APPLY_BUNDLE counting_handler NewDispatcher) 0 = (Inr ack, d1, 1)
     \<and> disp_run sample_codec [Connected False, Outside (\<lambda>w. w + 5)] (d1, 1) = (d2, 6)
     \<and> HandleEvent sample_codec (Some (sample_event ''c1'')) d2 6 = (Inr ack, d2, 6)"
proof -
  let ?d = "Register EVENT_TYPE_APPLY_BUNDLE counting_handler NewDispatcher"
  let ?ack = "\<lparr>ca_CommandId = ''c1'', ca_Result = COMMAND_RESULT_APPLIED, ca_Message = Text ''done''\<rparr>"
  let ?d1 = "?d\<lparr>d_seen := [''c1'' \<mapsto> ?ack], d_handled := 1\<rparr>"
  have "HandleEvent sample_codec (Some (sample_event ''c1'')) ?d 0 = record_ack ''c1'' ?ack ?d 1"
    by (rule HandleEvent_handler_result [where h = counting_handler])
      (simp_all add: Register_def NewDispatcher_def counting_handler_def)
  then have 1: "HandleEvent sample_codec (Some (sample_event ''c1'')) ?d 0 = (Inr ?ack, ?d1, 1)"
    by (simp add: record_ack_def Register_def NewDispatcher_def)
  have 2: "disp_run sample_codec [Connected False, Outside (\<lambda>w. w + 5)] (?d1, 1) = (SetConnected False ?d1, 6)"
    by (simp add: disp_run_def)
  show ?thesis using 1 2 answered_command_replays [OF 1 2 refl] by blast
qed

text \<open>
  C2. Commands fail closed: while the stream is down, a command that was not answered before is
  refused with an error that carries its command id, no handler runs, and nothing is recorded.
\<close>

theorem disconnected_fails_closed:
  assumes "event_id cd ev = Some c" and "d_seen d c = None" and "\<not> d_connected d"
  shows "\<exists>e. HandleEvent cd ev d w = (Inl (CommandError c e), d, w)"
  using HandleEvent_disconnected [OF assms] by blast

theorem disconnected_fails_closed_witness:
  "\<exists>e. HandleEvent sample_codec (Some (sample_event ''c1''))
        (SetConnected False (Register EVENT_TYPE_APPLY_BUNDLE counting_handler NewDispatcher)) 0 =
      (Inl (CommandError ''c1'' e),
       SetConnected False (Register EVENT_TYPE_APPLY_BUNDLE counting_handler NewDispatcher), 0)"
  by (rule disconnected_fails_closed) (simp_all add: SetConnected_def Register_def NewDispatcher_def)

text \<open>
  Errors are correlated and a failed execution is not recorded: an error for an event whose
  command id is known is a command error with that id; without a journal the dispatcher is
  then unchanged, so a redelivery executes the command again. An event without a command id
  gets an uncorrelated error and changes neither the dispatcher nor the world.
\<close>

theorem command_errors_correlated:
  assumes "HandleEvent cd ev d w = (Inl err, d', w')"
  shows "case event_id cd ev of
           Some c \<Rightarrow> (\<exists>e. err = CommandError c e) \<and> d_seen d c = None \<and> (d_journal d = None \<longrightarrow> d' = d)
         | None \<Rightarrow> (\<forall>c e. err \<noteq> CommandError c e) \<and> d' = d \<and> w' = w"
proof (cases "event_id cd ev")
  case None
  with assms HandleEvent_no_id [of cd ev d w] show ?thesis by auto
next
  case (Some c)
  then have "(\<exists>e. err = CommandError c e) \<and> d_seen d c = None \<and> (d_journal d = None \<longrightarrow> d' = d)"
    using assms by (cases rule: HandleEvent_cases [of cd ev c d w]) (auto dest: record_ack_error)
  with Some show ?thesis by simp
qed

theorem command_errors_correlated_witness:
  "let d = Register EVENT_TYPE_APPLY_BUNDLE failing_handler NewDispatcher;
       r = HandleEvent sample_codec (Some (sample_event ''c1'')) d 0
   in \<exists>err. fst r = Inl err \<and> (\<exists>e. err = CommandError ''c1'' e) \<and> fst (snd r) = d"
proof -
  let ?d = "Register EVENT_TYPE_APPLY_BUNDLE failing_handler NewDispatcher :: (string, nat) Dispatcher"
  have "HandleEvent sample_codec (Some (sample_event ''c1'')) ?d 0 =
      (Inl (CommandError ''c1'' (Wrapf ''command %s: %w'' [AStr ''c1''] (ExtError ''unavailable''))), ?d, 0)"
    by (rule HandleEvent_handler_error [where h = failing_handler])
      (simp_all add: Register_def NewDispatcher_def failing_handler_def)
  from this command_errors_correlated [OF this] show ?thesis by simp
qed

text \<open>
  An acknowledgement whose journal write failed is still remembered in memory: the delivery
  that could not be journalled is answered with an error, and every redelivery to the same
  process is then answered with success, without another attempt to write the journal.
\<close>

theorem journal_failure_hidden_by_replay:
  assumes "event_id cd (Some ev) = Some c" and "d_seen d c = None" and "d_connected d"
    and "find_handler cd d (ev_Type ev) = Some h" and "h ev w = ((r, m, None), w1)"
    and "d_journal d = Some j"
    and "j_Record j \<lparr>ca_CommandId = c, ca_Result = r, ca_Message = m\<rparr> w1 = (Some err, w2)"
    and "event_id cd ev' = Some c"
  shows "\<exists>d'. HandleEvent cd (Some ev) d w =
             (Inl (CommandError c (Wrapf ''command %s: journal record: %w'' [AStr c] err)), d', w2)
         \<and> (\<forall>w3. HandleEvent cd ev' d' w3 =
               (Inr \<lparr>ca_CommandId = c, ca_Result = r, ca_Message = m\<rparr>, d', w3))"
proof -
  let ?ack = "\<lparr>ca_CommandId = c, ca_Result = r, ca_Message = m\<rparr>"
  let ?d = "d\<lparr>d_seen := (d_seen d)(c \<mapsto> ?ack)\<rparr>"
  have "HandleEvent cd (Some ev) d w = record_ack c ?ack d w1"
    using assms(1-5) by (rule HandleEvent_handler_result)
  with assms(6,7) have "HandleEvent cd (Some ev) d w =
      (Inl (CommandError c (Wrapf ''command %s: journal record: %w'' [AStr c] err)), ?d, w2)"
    by (simp add: record_ack_def)
  moreover have "HandleEvent cd ev' ?d w3 = (Inr ?ack, ?d, w3)" for w3
    using assms(8) by (simp add: HandleEvent_seen)
  ultimately show ?thesis by blast
qed

theorem journal_failure_hidden_by_replay_witness:
  "\<exists>d'. HandleEvent sample_codec (Some (sample_event ''c1''))
      ((Register EVENT_TYPE_APPLY_BUNDLE counting_handler NewDispatcher)\<lparr>d_journal := Some broken_journal\<rparr>) 0 =
      (Inl (CommandError ''c1'' (Wrapf ''command %s: journal record: %w'' [AStr ''c1''] (ExtError ''full''))), d', 1)
    \<and> (\<forall>w3. HandleEvent sample_codec (Some (sample_event ''c1'')) d' w3 =
         (Inr \<lparr>ca_CommandId = ''c1'', ca_Result = COMMAND_RESULT_APPLIED, ca_Message = Text ''done''\<rparr>, d', w3))"
  by (rule journal_failure_hidden_by_replay [where h = counting_handler and ?w1.0 = 1 and j = broken_journal])
    (simp_all add: Register_def NewDispatcher_def counting_handler_def broken_journal_def)

end
