(* ===== verification/Command_Journal.thy ===== *)
theory Command_Journal
  imports Dispatcher
begin

text \<open>
  The ConfigMap-backed journal of \<open>internal/command/journal.go\<close>. The Kubernetes API server is a
  parameter: \<open>ConfigMaps\<close> holds the three calls the journal makes, \<open>configmap_laws\<close> what the
  API documents about them (a read returns the committed object, a write that succeeds
  commits its argument, a call that fails commits nothing). The JSON coding of an ack is the
  parameter pair \<open>enc\<close>, \<open>dec\<close>. Go's unspecified map iteration order is the parameter \<open>order\<close>.
\<close>

section \<open>The ConfigMap API\<close>

text \<open>\<open>cm_Data\<close> is \<open>None\<close> for a nil map; \<open>cm_Version\<close> is the resource version of the object read.\<close>

record ConfigMap =
  cm_Name :: string
  cm_Data :: "(string, string) fmap option"
  cm_Version :: nat

record 'w ConfigMaps =
  cm_Get :: "string \<Rightarrow> 'w \<Rightarrow> ConfigMap res \<times> 'w"
  cm_Create :: "ConfigMap \<Rightarrow> 'w \<Rightarrow> go_err option \<times> 'w"
  cm_Update :: "ConfigMap \<Rightarrow> 'w \<Rightarrow> go_err option \<times> 'w"

definition data_of :: "ConfigMap \<Rightarrow> (string, string) fmap" where
  "data_of cm = (case cm_Data cm of None \<Rightarrow> fmempty | Some m \<Rightarrow> m)"

text \<open>
  \<open>cur w n\<close> is the committed data of the ConfigMap named \<open>n\<close>, \<open>None\<close> when there is none.
\<close>

definition configmap_laws ::
  "'w ConfigMaps \<Rightarrow> ('w \<Rightarrow> string \<Rightarrow> (string, string) fmap option) \<Rightarrow> bool" where
  "configmap_laws K cur \<longleftrightarrow>
     (\<forall>n w cm w'. cm_Get K n w = (Inr cm, w') \<longrightarrow>
        cur w n = Some (data_of cm) \<and> cm_Name cm = n \<and> cur w' = cur w) \<and>
     (\<forall>n w e w'. cm_Get K n w = (Inl e, w') \<longrightarrow> cur w' = cur w \<and> (IsNotFound e \<longrightarrow> cur w n = None)) \<and>
     (\<forall>cm w w'. cm_Create K cm w = (None, w') \<longrightarrow> cur w' = (cur w)(cm_Name cm \<mapsto> data_of cm)) \<and>
     (\<forall>cm w e w'. cm_Create K cm w = (Some e, w') \<longrightarrow> cur w' = cur w) \<and>
     (\<forall>cm w w'. cm_Update K cm w = (None, w') \<longrightarrow> cur w' = (cur w)(cm_Name cm \<mapsto> data_of cm)) \<and>
     (\<forall>cm w e w'. cm_Update K cm w = (Some e, w') \<longrightarrow> cur w' = cur w)"

section \<open>The journal (journal.go)\<close>

definition maxJournalEntries :: nat where
  "maxJournalEntries = 1000"

text \<open>The eviction loop over the keys of the data, stopped as soon as the size is in bounds.\<close>

fun evict :: "string \<Rightarrow> string list \<Rightarrow> (string, string) fmap \<Rightarrow> (string, string) fmap" where
  "evict own [] m = m"
| "evict own (i # ids) m =
     (if fcard (fmdom m) \<le> maxJournalEntries then m
      else if i \<noteq> own then evict own ids (fmdrop i m) else evict own ids m)"

text \<open>The loop of \<open>Record\<close>: at most three attempts.\<close>

fun record_attempts ::
  "'w ConfigMaps \<Rightarrow> ((string, string) fmap \<Rightarrow> string list) \<Rightarrow> string \<Rightarrow> string \<Rightarrow> string \<Rightarrow> nat \<Rightarrow>
   'w \<Rightarrow> go_err option \<times> 'w"
where
  "record_attempts K order name cid raw 0 w =
     (Some (Errorf ''journal: record %s: too many conflicts'' [AStr cid]), w)"
| "record_attempts K order name cid raw (Suc n) w =
     (case cm_Get K name w of
        (Inl err, w1) \<Rightarrow>
          if IsNotFound err then
            (case cm_Create K \<lparr>cm_Name = name, cm_Data = Some (fmupd cid raw fmempty), cm_Version = 0\<rparr> w1 of
               (None, w2) \<Rightarrow> record_attempts K order name cid raw n w2
             | (Some cerr, w2) \<Rightarrow>
                 if IsAlreadyExists cerr then record_attempts K order name cid raw n w2
                 else (Some (Wrapf ''journal: create: %w'' [] cerr), w2))
          else (Some (Wrapf ''journal: get: %w'' [] err), w1)
      | (Inr cm, w1) \<Rightarrow>
          let data = fmupd cid raw (data_of cm);
              kept = evict cid (order data) data
          in (case cm_Update K (cm\<lparr>cm_Data := Some kept\<rparr>) w1 of
                (None, w2) \<Rightarrow> (None, w2)
              | (Some uerr, w2) \<Rightarrow>
                  if IsConflict uerr then record_attempts K order name cid raw n w2
                  else (Some (Wrapf ''journal: update: %w'' [] uerr), w2)))"

definition Record ::
  "'w ConfigMaps \<Rightarrow> ((string, string) fmap \<Rightarrow> string list) \<Rightarrow> (CommandAck \<Rightarrow> string res) \<Rightarrow> string \<Rightarrow>
   CommandAck \<Rightarrow> 'w \<Rightarrow> go_err option \<times> 'w"
where
  "Record K order enc name ack w =
     (case enc ack of
        Inl err \<Rightarrow> (Some err, w)
      | Inr raw \<Rightarrow> record_attempts K order name (ca_CommandId ack) raw 3 w)"

text \<open>The loop of \<open>Load\<close>: decode every entry, fail at the first that does not decode.\<close>

fun decode_all ::
  "(string \<Rightarrow> CommandAck res) \<Rightarrow> (string, string) fmap \<Rightarrow> string list \<Rightarrow>
   (string \<Rightarrow> CommandAck option) \<Rightarrow> (string \<Rightarrow> CommandAck option) res"
where
  "decode_all dec m [] out = Inr out"
| "decode_all dec m (i # ids) out =
     (case fmlookup m i of
        None \<Rightarrow> decode_all dec m ids out
      | Some raw \<Rightarrow>
          (case dec raw of
             Inl err \<Rightarrow> Inl (Wrapf ''journal: decode ack %s: %w'' [AStr i] err)
           | Inr ack \<Rightarrow> decode_all dec m ids (out(i \<mapsto> ack))))"

definition Load ::
  "'w ConfigMaps \<Rightarrow> ((string, string) fmap \<Rightarrow> string list) \<Rightarrow> (string \<Rightarrow> CommandAck res) \<Rightarrow> string \<Rightarrow>
   'w \<Rightarrow> (string \<Rightarrow> CommandAck option) res \<times> 'w"
where
  "Load K order dec name w =
     (case cm_Get K name w of
        (Inl err, w1) \<Rightarrow> if IsNotFound err then (Inr Map.empty, w1) else (Inl err, w1)
      | (Inr cm, w1) \<Rightarrow> (decode_all dec (data_of cm) (order (data_of cm)) Map.empty, w1))"

definition ConfigMapJournal ::
  "'w ConfigMaps \<Rightarrow> ((string, string) fmap \<Rightarrow> string list) \<Rightarrow> (CommandAck \<Rightarrow> string res) \<Rightarrow>
   (string \<Rightarrow> CommandAck res) \<Rightarrow> string \<Rightarrow> 'w Journal"
where
  "ConfigMapJournal K order enc dec name =
     \<lparr>j_Load = Load K order dec name, j_Record = Record K order enc name\<rparr>"

text \<open>Every key of the data is visited, in some order.\<close>

definition enumerates :: "((string, string) fmap \<Rightarrow> string list) \<Rightarrow> bool" where
  "enumerates order \<longleftrightarrow> (\<forall>m. set (order m) = fset (fmdom m) \<and> distinct (order m))"

text \<open>What \<open>Load\<close> returns for the committed data: the decoded entries.\<close>

definition stored_acks ::
  "(string \<Rightarrow> CommandAck res) \<Rightarrow> ('w \<Rightarrow> string \<Rightarrow> (string, string) fmap option) \<Rightarrow> string \<Rightarrow>
   'w \<Rightarrow> string \<Rightarrow> CommandAck option"
where
  "stored_acks dec cur name w c =
     (case cur w name of None \<Rightarrow> None
      | Some m \<Rightarrow> (case fmlookup m c of None \<Rightarrow> None
                   | Some raw \<Rightarrow> (case dec raw of Inl _ \<Rightarrow> None | Inr ack \<Rightarrow> Some ack)))"

text \<open>Decoding inverts encoding.\<close>

definition json_laws :: "(CommandAck \<Rightarrow> string res) \<Rightarrow> (string \<Rightarrow> CommandAck res) \<Rightarrow> bool" where
  "json_laws enc dec \<longleftrightarrow> (\<forall>ack raw. enc ack = Inr raw \<longrightarrow> dec raw = Inr ack)"

section \<open>Eviction\<close>

lemma evict_own: "fmlookup (evict own ids m) own = fmlookup m own"
  by (induction own ids m rule: evict.induct) simp_all

lemma evict_sub: "fmlookup (evict own ids m) k = Some v \<Longrightarrow> fmlookup m k = Some v"
  by (induction own ids m rule: evict.induct) (auto split: if_splits)

lemma evict_bound:
  assumes "fset (fmdom m) \<subseteq> insert own (set ids)"
  shows "fcard (fmdom (evict own ids m)) \<le> maxJournalEntries"
  using assms
proof (induction own ids m rule: evict.induct)
  case (1 own m)
  then have "fmdom m |\<subseteq>| {|own|}" by (simp add: less_eq_fset.rep_eq)
  then have "fcard (fmdom m) \<le> fcard {|own|}" by (rule fcard_mono)
  also have "fcard {|own|} = 1" by (simp add: fcard.rep_eq)
  finally show ?case by (simp add: maxJournalEntries_def)
next
  case (2 own i ids m)
  show ?case
  proof (cases "fcard (fmdom m) \<le> maxJournalEntries")
    case False
    show ?thesis
    proof (cases "i = own")
      case True
      with 2(3) have "fset (fmdom m) \<subseteq> insert own (set ids)" by auto
      with 2(2) False True show ?thesis by simp
    next
      case neq: False
      with 2(3) have "fset (fmdom (fmdrop i m)) \<subseteq> insert own (set ids)" by auto
      with 2(1) False neq show ?thesis by simp
    qed
  qed simp
qed

section \<open>Recording and loading\<close>

text \<open>The laws of the API, one call at a time.\<close>

lemma configmap_lawsD:
  assumes "configmap_laws K cur"
  shows "cm_Get K n w = (Inr cm, w') \<Longrightarrow> cur w n = Some (data_of cm) \<and> cm_Name cm = n \<and> cur w' = cur w"
    and "cm_Get K n w = (Inl e, w') \<Longrightarrow> cur w' = cur w \<and> (IsNotFound e \<longrightarrow> cur w n = None)"
    and "cm_Create K cm w = (None, w') \<Longrightarrow> cur w' = (cur w)(cm_Name cm \<mapsto> data_of cm)"
    and "cm_Create K cm w = (Some e, w') \<Longrightarrow> cur w' = cur w"
    and "cm_Update K cm w = (None, w') \<Longrightarrow> cur w' = (cur w)(cm_Name cm \<mapsto> data_of cm)"
    and "cm_Update K cm w = (Some e, w') \<Longrightarrow> cur w' = cur w"
  using assms by (simp_all add: configmap_laws_def)

lemma decode_all_Inr:
  assumes "decode_all dec m ids out = Inr r"
  shows "r i = (if i \<in> set ids then (case fmlookup m i of None \<Rightarrow> out i
           | Some raw \<Rightarrow> (case dec raw of Inl _ \<Rightarrow> None | Inr ack \<Rightarrow> Some ack)) else out i)"
  using assms
  by (induction dec m ids out rule: decode_all.induct) (auto split: option.splits sum.splits if_splits)

lemma decode_all_total:
  assumes "\<forall>i raw. fmlookup m i = Some raw \<longrightarrow> (\<exists>ack. dec raw = Inr ack)"
  shows "\<exists>r. decode_all dec m ids out = Inr r"
  using assms
proof (induction ids arbitrary: out)
  case (Cons i ids)
  then show ?case by (cases "fmlookup m i") force+
qed simp

lemma record_attempts_committed:
  assumes "configmap_laws K cur" and "enumerates order"
    and "record_attempts K order name cid raw n w = (None, w')"
  shows "\<exists>m. cur w' name = Some m \<and> fmlookup m cid = Some raw
             \<and> fcard (fmdom m) \<le> maxJournalEntries"
  using assms(3)
proof (induction n arbitrary: w)
  case 0
  then show ?case by simp
next
  case (Suc n)
  obtain g w1 where g: "cm_Get K name w = (g, w1)" by fastforce
  show ?case
  proof (cases g)
    case (Inl err)
    with Suc.prems g Suc.IH show ?thesis by (auto split: if_splits prod.splits option.splits)
  next
    case (Inr cm)
    let ?data = "fmupd cid raw (data_of cm)"
    let ?kept = "evict cid (order ?data) ?data"
    obtain u w2 where u: "cm_Update K (cm\<lparr>cm_Data := Some ?kept\<rparr>) w1 = (u, w2)" by fastforce
    show ?thesis
    proof (cases u)
      case None
      have "cm_Name cm = name" using assms(1) g Inr by (auto simp: configmap_laws_def)
      moreover have "cur w2 = (cur w1)(cm_Name cm \<mapsto> data_of (cm\<lparr>cm_Data := Some ?kept\<rparr>))"
        using assms(1) u None unfolding configmap_laws_def by (metis ConfigMap.select_convs(1) ConfigMap.surjective ConfigMap.update_convs(2))
      moreover have "w' = w2" using Suc.prems g Inr u None by (simp add: Let_def)
      ultimately have "cur w' name = Some ?kept" by (simp add: data_of_def)
      moreover have "fmlookup ?kept cid = Some raw" by (simp add: evict_own)
      moreover have "fcard (fmdom ?kept) \<le> maxJournalEntries"
        using assms(2) by (intro evict_bound) (auto simp: enumerates_def)
      ultimately show ?thesis by blast
    next
      case (Some e)
      with Suc.prems g Inr u Suc.IH show ?thesis by (auto simp: Let_def split: if_splits)
    qed
  qed
qed

lemma configmap_journal_durable:
  assumes "configmap_laws K cur" and "enumerates order" and "json_laws enc dec"
  shows "durable_journal (ConfigMapJournal K order enc dec name) (stored_acks dec cur name)"
proof
  fix ack w w'
  assume "j_Record (ConfigMapJournal K order enc dec name) ack w = (None, w')"
  then obtain raw where raw: "enc ack = Inr raw"
    and rec: "record_attempts K order name (ca_CommandId ack) raw 3 w = (None, w')"
    by (auto simp: ConfigMapJournal_def Record_def split: sum.splits)
  from record_attempts_committed [OF assms(1,2) rec] obtain m
    where "cur w' name = Some m" and "fmlookup m (ca_CommandId ack) = Some raw" by blast
  with raw assms(3) show "stored_acks dec cur name w' (ca_CommandId ack) = Some ack"
    by (simp add: stored_acks_def json_laws_def)
next
  fix w m w'
  assume load: "j_Load (ConfigMapJournal K order enc dec name) w = (Inr m, w')"
  obtain g w1 where g: "cm_Get K name w = (g, w1)" by fastforce
  show "m = stored_acks dec cur name w \<and> stored_acks dec cur name w' = stored_acks dec cur name w"
  proof (cases g)
    case (Inl err)
    with load g have "m = Map.empty" "w' = w1" "IsNotFound err"
      by (auto simp: ConfigMapJournal_def Load_def split: if_splits)
    with assms(1) g Inl show ?thesis
      by (auto simp: configmap_laws_def stored_acks_def fun_eq_iff)
  next
    case (Inr cm)
    let ?d = "data_of cm"
    from load g Inr have dec: "decode_all dec ?d (order ?d) Map.empty = Inr m" and "w' = w1"
      by (auto simp: ConfigMapJournal_def Load_def)
    have "cur w name = Some ?d" "cur w' = cur w"
      using assms(1) g Inr \<open>w' = w1\<close> by (auto simp: configmap_laws_def)
    moreover have "m i = stored_acks dec cur name w i" for i
      using decode_all_Inr [OF dec, of i] assms(2) \<open>cur w name = Some ?d\<close>
      by (auto simp: stored_acks_def enumerates_def fmlookup_dom_iff split: option.splits)
    ultimately show ?thesis by (auto simp: stored_acks_def fun_eq_iff)
  qed
qed

section \<open>Recording succeeds when nobody else writes\<close>

text \<open>
  A server that serves one client: reads succeed exactly on existing objects, creating a
  missing object and updating the object just read succeed.
\<close>

definition uncontended ::
  "'w ConfigMaps \<Rightarrow> ('w \<Rightarrow> string \<Rightarrow> (string, string) fmap option) \<Rightarrow> string \<Rightarrow> bool" where
  "uncontended K cur name \<longleftrightarrow>
     (\<forall>w. cur w name \<noteq> None \<longrightarrow> (\<exists>cm w'. cm_Get K name w = (Inr cm, w'))) \<and>
     (\<forall>w. cur w name = None \<longrightarrow> (\<exists>e w'. cm_Get K name w = (Inl e, w') \<and> IsNotFound e)) \<and>
     (\<forall>cm w. cm_Name cm = name \<longrightarrow> cur w name = None \<longrightarrow> (\<exists>w'. cm_Create K cm w = (None, w'))) \<and>
     (\<forall>cm w w'. cm_Get K name w = (Inr cm, w') \<longrightarrow>
        (\<forall>d. \<exists>w''. cm_Update K (cm\<lparr>cm_Data := d\<rparr>) w' = (None, w'')))"

lemma record_existing_succeeds:
  assumes "uncontended K cur name" and "cur w name \<noteq> None"
  shows "\<exists>w'. record_attempts K order name cid raw (Suc n) w = (None, w')"
proof -
  from assms obtain cm w1 where g: "cm_Get K name w = (Inr cm, w1)"
    unfolding uncontended_def by blast
  with assms(1) have "\<exists>w'. cm_Update K (cm\<lparr>cm_Data := d\<rparr>) w1 = (None, w')" for d
    unfolding uncontended_def by blast
  then obtain w2 where "cm_Update K (cm\<lparr>cm_Data := Some (evict cid (order (fmupd cid raw (data_of cm))) (fmupd cid raw (data_of cm)))\<rparr>) w1 = (None, w2)"
    by blast
  with g show ?thesis by (simp add: Let_def)
qed

lemma record_missing_succeeds:
  assumes "configmap_laws K cur" and "uncontended K cur name" and "cur w name = None"
  shows "\<exists>w'. record_attempts K order name cid raw (Suc (Suc n)) w = (None, w')"
proof -
  let ?cm = "\<lparr>cm_Name = name, cm_Data = Some (fmupd cid raw fmempty), cm_Version = 0\<rparr>"
  from assms(2,3) obtain e w1 where g: "cm_Get K name w = (Inl e, w1)" "IsNotFound e"
    unfolding uncontended_def by blast
  with assms(1,3) have "cur w1 name = None" unfolding configmap_laws_def by metis
  with assms(2) obtain w2 where c: "cm_Create K ?cm w1 = (None, w2)"
    unfolding uncontended_def by (metis ConfigMap.select_convs(1))
  with assms(1) have "cur w2 name \<noteq> None" unfolding configmap_laws_def
    by (metis ConfigMap.select_convs(1) fun_upd_same option.distinct(1))
  from record_existing_succeeds [OF assms(2) this, of order cid raw n] obtain w'
    where "record_attempts K order name cid raw (Suc n) w2 = (None, w')" by blast
  with g c show ?thesis by simp
qed

section \<open>A server to evaluate on\<close>

text \<open>
  The documented behaviour on one map of objects with resource versions: an update whose
  version is not the stored one is a conflict.
\<close>

type_synonym cm_server = "string \<Rightarrow> ((string, string) fmap \<times> nat) option"

definition mem_configmaps :: "cm_server ConfigMaps" where
  "mem_configmaps =
     \<lparr>cm_Get = (\<lambda>n w. case w n of
          None \<Rightarrow> (Inl (ApiError NotFound n), w)
        | Some (m, v) \<Rightarrow> (Inr \<lparr>cm_Name = n, cm_Data = (if m = fmempty then None else Some m), cm_Version = v\<rparr>, w)),
      cm_Create = (\<lambda>cm w. case w (cm_Name cm) of
          None \<Rightarrow> (None, w(cm_Name cm \<mapsto> (data_of cm, 1)))
        | Some _ \<Rightarrow> (Some (ApiError AlreadyExists (cm_Name cm)), w)),
      cm_Update = (\<lambda>cm w. case w (cm_Name cm) of
          None \<Rightarrow> (Some (ApiError NotFound (cm_Name cm)), w)
        | Some (m, v) \<Rightarrow>
            if v = cm_Version cm then (None, w(cm_Name cm \<mapsto> (data_of cm, v + 1)))
            else (Some (ApiError Conflict (cm_Name cm)), w))\<rparr>"

definition mem_data :: "cm_server \<Rightarrow> string \<Rightarrow> (string, string) fmap option" where
  "mem_data w n = map_option fst (w n)"

lemma mem_data_upd [simp]: "mem_data (w(n \<mapsto> x)) = (mem_data w)(n \<mapsto> fst x)"
  by (auto simp: mem_data_def)

lemma mem_configmaps_laws: "configmap_laws mem_configmaps mem_data"
  unfolding configmap_laws_def mem_configmaps_def
  by (auto simp: mem_data_def [of _ "_ :: string"] data_of_def split: option.splits prod.splits if_splits)

lemma mem_configmaps_uncontended: "uncontended mem_configmaps mem_data name"
  unfolding uncontended_def mem_configmaps_def
  by (auto simp: mem_data_def IsNotFound_def split: option.splits prod.splits)

text \<open>A coding of an ack whose result is \<open>APPLIED\<close> and whose message is a plain text.\<close>

definition sample_enc :: "CommandAck \<Rightarrow> string res" where
  "sample_enc ack = (case ca_Message ack of
     Text t \<Rightarrow> if ca_Result ack = COMMAND_RESULT_APPLIED then Inr (show_nat (length t) @ CHR '':'' # t @ ca_CommandId ack)
              else Inl (ExtError ''marshal'')
   | _ \<Rightarrow> Inl (ExtError ''marshal''))"

definition sample_dec :: "string \<Rightarrow> CommandAck res" where
  "sample_dec raw = (case Cut raw (CHR '':'') of (n, rest, found) \<Rightarrow>
     let k = parse_digits 0 n
     in Inr \<lparr>ca_CommandId = drop k rest, ca_Result = COMMAND_RESULT_APPLIED, ca_Message = Text (take k rest)\<rparr>)"

lemma sample_json_laws: "json_laws sample_enc sample_dec"
proof -
  have "CHR '':'' \<notin> set (show_nat n)" for n
    using show_nat_digits [of n] by (auto simp: is_digit_def list_all_iff less_eq_char_def)
  then show ?thesis
    by (auto simp: json_laws_def sample_enc_def sample_dec_def Let_def Cut_append parse_show_nat split: message.splits if_splits)
qed

text \<open>The journal of the witnesses: no entry is stored at the start, one handler that answers.\<close>

definition sample_order :: "(string, string) fmap \<Rightarrow> string list" where
  "sample_order m = sorted_list_of_fset (fmdom m)"

definition sample_journal :: "cm_server Journal" where
  "sample_journal = ConfigMapJournal mem_configmaps sample_order sample_enc sample_dec ''journal''"

definition journalled_dispatcher :: "(string, cm_server) Dispatcher" where
  "journalled_dispatcher =
     (Register EVENT_TYPE_APPLY_BUNDLE (\<lambda>ev w. ((COMMAND_RESULT_APPLIED, Text ''done'', None), w)) NewDispatcher)
       \<lparr>d_journal := Some sample_journal\<rparr>"

definition sample_ack :: CommandAck where
  "sample_ack = \<lparr>ca_CommandId = ''c1'', ca_Result = COMMAND_RESULT_APPLIED, ca_Message = Text ''done''\<rparr>"

lemma sample_order_enumerates: "enumerates sample_order"
  by (simp add: enumerates_def sample_order_def sorted_list_of_fset.rep_eq)

lemma sample_enc_ack: "\<exists>raw. sample_enc sample_ack = Inr raw"
  by (simp add: sample_enc_def sample_ack_def)

lemma sample_record: "\<exists>w'. Record mem_configmaps sample_order sample_enc ''journal'' sample_ack Map.empty = (None, w')"
proof -
  obtain raw where "sample_enc sample_ack = Inr raw" using sample_enc_ack by blast
  moreover have "mem_data Map.empty ''journal'' = None" by (simp add: mem_data_def)
  ultimately show ?thesis
    using record_missing_succeeds [OF mem_configmaps_laws mem_configmaps_uncontended, of Map.empty "''journal''" sample_order "''c1''" raw 1]
    by (simp add: Record_def numeral_3_eq_3 sample_ack_def)
qed

lemma sample_load: "\<exists>m. j_Load sample_journal w = (Inr m, w)"
proof -
  have "\<exists>r. decode_all sample_dec m ids Map.empty = Inr r" for m ids
    by (rule decode_all_total) (simp add: sample_dec_def Let_def split: prod.splits)
  then show ?thesis
    by (auto simp: sample_journal_def ConfigMapJournal_def Load_def mem_configmaps_def IsNotFound_def
        split: option.splits prod.splits)
qed

interpretation cmj: durable_journal
  "ConfigMapJournal mem_configmaps sample_order sample_enc sample_dec name"
  "stored_acks sample_dec mem_data name" for name
  by (rule configmap_journal_durable) (rule mem_configmaps_laws sample_order_enumerates sample_json_laws)+

section \<open>Properties\<close>



text \<open>
  C32. The journal object stays bounded: whenever \<open>Record\<close> succeeds, the committed ConfigMap
  holds the ack under its command id and at most 1000 entries in all.
\<close>

theorem journal_bounded:
  assumes "configmap_laws K cur" and "enumerates order"
    and "Record K order enc name ack w = (None, w')" and "enc ack = Inr raw"
  shows "\<exists>m. cur w' name = Some m \<and> fmlookup m (ca_CommandId ack) = Some raw
             \<and> fcard (fmdom m) \<le> maxJournalEntries"
  using record_attempts_committed [OF assms(1,2)] assms(3,4) by (simp add: Record_def)

theorem journal_bounded_witness:
  "\<exists>raw w' m. Record mem_configmaps sample_order sample_enc ''journal'' sample_ack Map.empty = (None, w')
    \<and> mem_data w' ''journal'' = Some m \<and> fmlookup m ''c1'' = Some raw \<and> fcard (fmdom m) \<le> 1000"
proof -
  obtain w' where 1: "Record mem_configmaps sample_order sample_enc ''journal'' sample_ack Map.empty = (None, w')"
    using sample_record by blast
  obtain raw where 2: "sample_enc sample_ack = Inr raw" using sample_enc_ack by blast
  from journal_bounded [OF mem_configmaps_laws sample_order_enumerates 1 2] 1 show ?thesis
    by (auto simp: sample_ack_def maxJournalEntries_def)
qed

text \<open>
  Recording terminates in success: when no other client writes the ConfigMap, \<open>Record\<close>
  returns no error, whether the ConfigMap exists (one attempt) or has to be created first
  (the attempt that creates it is followed by one that updates it).
\<close>

theorem record_succeeds:
  assumes "configmap_laws K cur" and "uncontended K cur name" and "enc ack = Inr raw"
  shows "\<exists>w'. Record K order enc name ack w = (None, w')"
proof (cases "cur w name")
  case None
  then show ?thesis
    using record_missing_succeeds [OF assms(1,2), of w order "ca_CommandId ack" raw 1] assms(3)
    by (simp add: Record_def numeral_3_eq_3)
next
  case (Some m)
  then show ?thesis
    using record_existing_succeeds [OF assms(2), of w order "ca_CommandId ack" raw 2] assms(3)
    by (simp add: Record_def numeral_3_eq_3)
qed

theorem record_succeeds_witness:
  "\<exists>w'. Record mem_configmaps sample_order sample_enc ''journal'' sample_ack Map.empty = (None, w')"
  using record_succeeds [OF mem_configmaps_laws mem_configmaps_uncontended] sample_enc_ack by blast

end
