(* ===== verification/Render.thy ===== *)
theory Render
  imports Agent_Proto
begin

text \<open>
  Rendering (\<open>internal/render\<close>): secret stores (\<open>secretstore.go\<close>), instances of resource graph
  definitions (\<open>renderer.go\<close>, \<open>getter.go\<close>) and bundles (\<open>bundle.go\<close>), each producing the files a
  handler commits to the state repository.

  Parameters: \<open>yaml\<close> is \<open>yaml.Marshal\<close>, \<open>H\<close> is SHA-256 with its hex encoding, \<open>A\<close> the accessors of
  a document, the record \<open>BundleClients\<close> the OCI registry client and the git clone, and the
  record \<open>Filesystem\<close> the cloned tree.
\<close>

section \<open>Secret stores (secretstore.go)\<close>

definition ManagedByLabel :: string where "ManagedByLabel = ''inari.dev/managed-by''"

definition ManagedByValue :: string where "ManagedByValue = ''inari-agent''"

definition InstanceLabel :: string where "InstanceLabel = ''inari.dev/instance''"

definition SystemNamespace :: string where "SystemNamespace = ''inari-system''"

definition SecretStoreScopePlatform :: string where "SecretStoreScopePlatform = ''platform''"

definition SecretStoreScopeCluster :: string where "SecretStoreScopeCluster = ''cluster''"

record SecretStoreProvider =
  ss_Kind :: string
  ss_Region :: string
  ss_Server :: string
  ss_Path :: string
  ss_ProjectID :: string
  ss_VaultURL :: string
  ss_TenantID :: string
  ss_AuthName :: string
  ss_AuthNamespace :: string

definition secretRef :: "bool \<Rightarrow> string \<Rightarrow> string \<Rightarrow> string \<Rightarrow> obj" where
  "secretRef includeNS name namespace key =
     (let ref = [''name'' \<mapsto> UStr name, ''key'' \<mapsto> UStr key]
      in if includeNS then ref(''namespace'' \<mapsto> UStr namespace) else ref)"

definition providerSpec :: "SecretStoreProvider \<Rightarrow> bool \<Rightarrow> obj res" where
  "providerSpec p clusterScoped =
     (let sref = (\<lambda>key. UMap (secretRef clusterScoped (ss_AuthName p) (ss_AuthNamespace p) key))
      in if ss_Kind p = ''awsSM'' then
           Inr [''aws'' \<mapsto> UMap
             [''service'' \<mapsto> UStr ''SecretsManager'',
              ''region'' \<mapsto> UStr (ss_Region p),
              ''auth'' \<mapsto> UMap [''secretRef'' \<mapsto> UMap
                [''accessKeyIdSecretRef'' \<mapsto> sref ''access-key-id'',
                 ''secretAccessKeySecretRef'' \<mapsto> sref ''secret-access-key'']]]]
         else if ss_Kind p = ''vault'' then
           let v = [''server'' \<mapsto> UStr (ss_Server p),
                    ''auth'' \<mapsto> UMap [''tokenSecretRef'' \<mapsto> sref ''token'']];
               v = (if ss_Path p \<noteq> [] then v(''path'' \<mapsto> UStr (ss_Path p)) else v)
           in Inr [''vault'' \<mapsto> UMap v]
         else if ss_Kind p = ''gcpsm'' then
           Inr [''gcpsm'' \<mapsto> UMap
             [''projectID'' \<mapsto> UStr (ss_ProjectID p),
              ''auth'' \<mapsto> UMap [''secretRef'' \<mapsto> UMap
                [''secretAccessTokenSecretRef'' \<mapsto> sref ''secret-access-token'']]]]
         else if ss_Kind p = ''azurekv'' then
           let az = [''vaultUrl'' \<mapsto> UStr (ss_VaultURL p),
                     ''authSecretRef'' \<mapsto> UMap
                       [''clientIdSecretRef'' \<mapsto> sref ''client-id'',
                        ''clientSecretSecretRef'' \<mapsto> sref ''client-secret'']];
               az = (if ss_TenantID p \<noteq> [] then az(''tenantId'' \<mapsto> UStr (ss_TenantID p)) else az)
           in Inr [''azurekv'' \<mapsto> UMap az]
         else Inl (Errorf ''render: unknown secret store provider kind %q'' [AStr (ss_Kind p)]))"

text \<open>The manifest \<open>RenderSecretStore\<close> assembles; a cluster store has no namespace.\<close>

definition secret_store_cr :: "string \<Rightarrow> bool \<Rightarrow> obj \<Rightarrow> obj" where
  "secret_store_cr name clusterScoped provider =
     (let metadata = [''name'' \<mapsto> UStr name,
                      ''namespace'' \<mapsto> UStr SystemNamespace,
                      ''labels'' \<mapsto> UMap [ManagedByLabel \<mapsto> UStr ManagedByValue]];
          kind = (if clusterScoped then ''ClusterSecretStore'' else ''SecretStore'');
          metadata = (if clusterScoped then metadata(''namespace'' := None) else metadata)
      in [''apiVersion'' \<mapsto> UStr ''external-secrets.io/v1beta1'',
          ''kind'' \<mapsto> UStr kind,
          ''metadata'' \<mapsto> UMap metadata,
          ''spec'' \<mapsto> UMap [''provider'' \<mapsto> UMap provider]])"

definition RenderSecretStore ::
  "(obj \<Rightarrow> string res) \<Rightarrow> string \<Rightarrow> string \<Rightarrow> SecretStoreProvider \<Rightarrow> File list res"
where
  "RenderSecretStore yaml name scope p =
     (if name = [] then Inl (Errorf ''render: missing secret store name'' [])
      else case ValidateFilePath (name @ ''.yaml'') of
        Some err \<Rightarrow> Inl (Wrapf ''render: invalid secret store name: %w'' [] err)
      | None \<Rightarrow>
          let clusterScoped = (scope = SecretStoreScopePlatform)
          in if scope \<noteq> SecretStoreScopePlatform \<and> scope \<noteq> SecretStoreScopeCluster then
               Inl (Errorf ''render: unknown secret store scope %q'' [AStr scope])
             else if ss_AuthName p = [] \<or> ss_AuthNamespace p = [] then
               Inl (Errorf ''render: provider %s auth secret name and namespace are required'' [AStr (ss_Kind p)])
             else if \<not> clusterScoped \<and> ss_AuthNamespace p \<noteq> SystemNamespace then
               Inl (Errorf ''render: namespaced (cluster-scope) SecretStore auth secret must live in namespace %q (namespaced secretRefs cannot cross namespaces), got %q''
                      [AStr SystemNamespace, AStr (ss_AuthNamespace p)])
             else case providerSpec p clusterScoped of
               Inl err \<Rightarrow> Inl err
             | Inr provider \<Rightarrow>
                 (case yaml (secret_store_cr name clusterScoped provider) of
                    Inl err \<Rightarrow> Inl (Wrapf ''render: marshal secret store: %w'' [] err)
                  | Inr out \<Rightarrow> Inr [\<lparr>f_Path = name @ ''.yaml'', f_Content = out\<rparr>]))"

section \<open>Instances (renderer.go)\<close>

definition rgdGVR :: GVR where
  "rgdGVR = \<lparr>g_Group = ''kro.run'', g_Version = ''v1alpha1'', g_Resource = ''resourcegraphdefinitions''\<rparr>"

text \<open>The dynamic client's \<open>Get\<close> without a namespace.\<close>

definition GetRGD :: "'w Dyn \<Rightarrow> string \<Rightarrow> 'w \<Rightarrow> obj res \<times> 'w" where
  "GetRGD dyn name w = dyn_Get dyn rgdGVR [] name w"

definition validateRequired :: "Accessors \<Rightarrow> obj \<Rightarrow> obj \<Rightarrow> go_err option" where
  "validateRequired A rgd parameters =
     (let required = fst (NestedStringSlice A rgd [''spec'', ''schema'', ''spec'', ''required'']);
          missing = [name \<leftarrow> required. parameters name = None]
      in if length missing > 0
         then Some (Errorf ''missing required parameters: %v'' [AList (sort missing)]) else None)"

definition instance_cr :: "string \<Rightarrow> string \<Rightarrow> string \<Rightarrow> string \<Rightarrow> obj \<Rightarrow> obj" where
  "instance_cr apiVersion kind instanceName namespace parameters =
     [''apiVersion'' \<mapsto> UStr apiVersion,
      ''kind'' \<mapsto> UStr kind,
      ''metadata'' \<mapsto> UMap
        [''name'' \<mapsto> UStr instanceName,
         ''namespace'' \<mapsto> UStr namespace,
         ''labels'' \<mapsto> UMap [ManagedByLabel \<mapsto> UStr ManagedByValue, InstanceLabel \<mapsto> UStr instanceName]],
      ''spec'' \<mapsto> UMap parameters]"

definition RenderRGDInstance ::
  "Accessors \<Rightarrow> (obj \<Rightarrow> string res) \<Rightarrow> (string \<Rightarrow> 'w \<Rightarrow> obj res \<times> 'w) \<Rightarrow> string \<Rightarrow> string \<Rightarrow> string \<Rightarrow>
   obj \<Rightarrow> 'w \<Rightarrow> File list res \<times> 'w"
where
  "RenderRGDInstance A yaml getter rgdRef instanceName namespace parameters w =
     (if rgdRef = [] then (Inl (Errorf ''render: missing rgd_ref'' []), w)
      else if instanceName = [] then (Inl (Errorf ''render: missing instance_name'' []), w)
      else case ValidateFilePath instanceName of
        Some err \<Rightarrow> (Inl (Wrapf ''render: invalid instance_name: %w'' [] err), w)
      | None \<Rightarrow>
          (case getter rgdRef w of
             (Inl err, w1) \<Rightarrow> (Inl (Wrapf ''render: resolve RGD %q: %w'' [AStr rgdRef] err), w1)
           | (Inr rgd, w1) \<Rightarrow>
               let apiVersion = fst (NestedString A rgd [''spec'', ''schema'', ''apiVersion'']);
                   kind = fst (NestedString A rgd [''spec'', ''schema'', ''kind''])
               in if apiVersion = [] \<or> kind = [] then
                    (Inl (Errorf ''render: RGD %q has no spec.schema apiVersion/kind'' [AStr rgdRef]), w1)
                  else case validateRequired A rgd parameters of
                    Some err \<Rightarrow> (Inl (Wrapf ''render: RGD %q: %w'' [AStr rgdRef] err), w1)
                  | None \<Rightarrow>
                      (case yaml (instance_cr apiVersion kind instanceName namespace parameters) of
                         Inl err \<Rightarrow> (Inl (Wrapf ''render: marshal instance: %w'' [] err), w1)
                       | Inr out \<Rightarrow> (Inr [\<lparr>f_Path = instanceName @ ''/instance.yaml'', f_Content = out\<rparr>], w1))))"

section \<open>Bundles (bundle.go)\<close>

record BundleRef =
  br_OCIRef :: string
  br_GitURL :: string
  br_Checksum :: string

definition bundle_Validate :: "BundleRef \<Rightarrow> go_err option" where
  "bundle_Validate r =
     (if (br_OCIRef r = []) = (br_GitURL r = [])
      then Some (Errorf ''render: bundle needs exactly one of oci_ref or git_url'' []) else None)"

text \<open>
  \<open>sort.Slice\<close> is not stable, so it agrees with \<open>sort_key\<close> on file sets whose paths are
  distinct.
\<close>

definition ChecksumFiles :: "(string \<Rightarrow> string) \<Rightarrow> File list \<Rightarrow> string" where
  "ChecksumFiles H files =
     ''sha256:'' @ H (concat (map (\<lambda>f. f_Path f @ [CHR 0x00] @ f_Content f @ [CHR 0x00]) (sort_key f_Path files)))"

text \<open>A layer of an OCI manifest: its title annotation (empty when absent) and its digest.\<close>

record Layer =
  l_Title :: string
  l_Digest :: string

text \<open>
  The registry client and the in-memory clone: the parsed reference, the resolved manifest
  descriptor, the bytes of a descriptor, the decoded manifest, the cloned file system.
\<close>

record FileInfo =
  fi_Name :: string
  fi_IsDir :: bool
  fi_Symlink :: bool

record 'r Filesystem =
  ReadDir :: "string \<Rightarrow> FileInfo list res"
  fs_Join :: "string \<Rightarrow> string \<Rightarrow> string"
  Open :: "string \<Rightarrow> 'r res"
  ReadAll :: "'r \<Rightarrow> string res"

record ('c, 'r) BundleClients =
  NewRepository :: "string \<Rightarrow> 'c res"
  Resolve :: "'c \<Rightarrow> string res"
  FetchAll :: "'c \<Rightarrow> string \<Rightarrow> string res"
  dec_Manifest :: "string \<Rightarrow> Layer list res"
  Clone :: "string \<Rightarrow> 'r Filesystem res"

text \<open>The loop over the layers, from layer number \<open>i\<close>.\<close>

fun fetch_layers :: "('c, 'r) BundleClients \<Rightarrow> 'c \<Rightarrow> string \<Rightarrow> nat \<Rightarrow> Layer list \<Rightarrow> File list res" where
  "fetch_layers bc repo ref i [] = Inr []"
| "fetch_layers bc repo ref i (layer # ls) =
     (let path = (if l_Title layer = [] then ''layer-'' @ show_nat i else l_Title layer)
      in case ValidateFilePath path of
           Some err \<Rightarrow> Inl (Wrapf ''render: OCI bundle %q layer %d: %w'' [AStr ref, AInt (int i)] err)
         | None \<Rightarrow>
             (case FetchAll bc repo (l_Digest layer) of
                Inl err \<Rightarrow> Inl (Wrapf ''render: fetch OCI layer %s: %w'' [AStr (l_Digest layer)] err)
              | Inr blob \<Rightarrow>
                  (case fetch_layers bc repo ref (Suc i) ls of
                     Inl err \<Rightarrow> Inl err
                   | Inr files \<Rightarrow> Inr (\<lparr>f_Path = path, f_Content = blob\<rparr> # files))))"

definition fetchOCI :: "('c, 'r) BundleClients \<Rightarrow> string \<Rightarrow> File list res" where
  "fetchOCI bc ref0 =
     (let ref = TrimPrefix ref0 ''oci://''
      in case NewRepository bc ref of
           Inl err \<Rightarrow> Inl (Wrapf ''render: parse OCI ref %q: %w'' [AStr ref] err)
         | Inr repo \<Rightarrow>
             (case Resolve bc repo of
                Inl err \<Rightarrow> Inl (Wrapf ''render: resolve OCI bundle %q: %w'' [AStr ref] err)
              | Inr desc \<Rightarrow>
                  (case FetchAll bc repo desc of
                     Inl err \<Rightarrow> Inl (Wrapf ''render: fetch OCI manifest %q: %w'' [AStr ref] err)
                   | Inr manifestBytes \<Rightarrow>
                       (case dec_Manifest bc manifestBytes of
                          Inl err \<Rightarrow> Inl (Wrapf ''render: decode OCI manifest %q: %w'' [AStr ref] err)
                        | Inr layers \<Rightarrow> fetch_layers bc repo ref 0 layers))))"

text \<open>
  The loop of \<open>walkBilly\<close> over a directory's entries, with the recursive call \<open>walk\<close> on a
  subdirectory; \<open>visit\<close> is the callback on the state \<open>'s\<close> it accumulates. \<open>None\<close> means that the
  fuel, the depth of the directory nesting, has run out.
\<close>

fun walk_infos ::
  "(string \<Rightarrow> 's \<Rightarrow> (go_err option \<times> 's) option) \<Rightarrow> 'r Filesystem \<Rightarrow>
   (string \<Rightarrow> 'r \<Rightarrow> 's \<Rightarrow> go_err option \<times> 's) \<Rightarrow> string \<Rightarrow> FileInfo list \<Rightarrow> 's \<Rightarrow> (go_err option \<times> 's) option"
where
  "walk_infos walk fsys visit dir [] s = Some (None, s)"
| "walk_infos walk fsys visit dir (info # infos) s =
     (let path = fs_Join fsys dir (fi_Name info)
      in if fi_IsDir info then
           if fi_Name info = ''.git'' then walk_infos walk fsys visit dir infos s
           else (case walk path s of
                   None \<Rightarrow> None
                 | Some (Some err, s1) \<Rightarrow> Some (Some err, s1)
                 | Some (None, s1) \<Rightarrow> walk_infos walk fsys visit dir infos s1)
         else if fi_Symlink info then walk_infos walk fsys visit dir infos s
         else (case Open fsys path of
                 Inl err \<Rightarrow> Some (Some err, s)
               | Inr f \<Rightarrow>
                   (case visit path f s of
                      (Some err, s1) \<Rightarrow> Some (Some err, s1)
                    | (None, s1) \<Rightarrow> walk_infos walk fsys visit dir infos s1)))"

fun walkBilly ::
  "nat \<Rightarrow> 'r Filesystem \<Rightarrow> (string \<Rightarrow> 'r \<Rightarrow> 's \<Rightarrow> go_err option \<times> 's) \<Rightarrow> string \<Rightarrow> 's \<Rightarrow> (go_err option \<times> 's) option"
where
  "walkBilly 0 fsys visit dir s = None"
| "walkBilly (Suc n) fsys visit dir s =
     (case ReadDir fsys dir of
        Inl err \<Rightarrow> Some (Some err, s)
      | Inr infos \<Rightarrow> walk_infos (walkBilly n fsys visit) fsys visit dir infos s)"

definition collect_file ::
  "'r Filesystem \<Rightarrow> string \<Rightarrow> 'r \<Rightarrow> File list \<Rightarrow> go_err option \<times> File list" where
  "collect_file fsys path r files =
     (case ReadAll fsys r of
        Inl err \<Rightarrow> (Some err, files)
      | Inr data \<Rightarrow> (None, files @ [\<lparr>f_Path = TrimPrefix path ''/'', f_Content = data\<rparr>]))"

definition fetchGit :: "nat \<Rightarrow> ('c, 'r) BundleClients \<Rightarrow> string \<Rightarrow> File list res option" where
  "fetchGit fuel bc url =
     (case Clone bc url of
        Inl err \<Rightarrow> Some (Inl (Wrapf ''render: clone bundle %q: %w'' [AStr url] err))
      | Inr fsys \<Rightarrow>
          (case walkBilly fuel fsys (collect_file fsys) ''/'' [] of
             None \<Rightarrow> None
           | Some (Some err, files) \<Rightarrow> Some (Inl (Wrapf ''render: read bundle %q: %w'' [AStr url] err))
           | Some (None, files) \<Rightarrow> Some (Inr files)))"

definition Fetch :: "nat \<Rightarrow> (string \<Rightarrow> string) \<Rightarrow> ('c, 'r) BundleClients \<Rightarrow> BundleRef \<Rightarrow> File list res option" where
  "Fetch fuel H bc ref =
     (case bundle_Validate ref of
        Some err \<Rightarrow> Some (Inl err)
      | None \<Rightarrow>
          (case (if br_OCIRef ref \<noteq> [] then Some (fetchOCI bc (br_OCIRef ref)) else fetchGit fuel bc (br_GitURL ref)) of
             None \<Rightarrow> None
           | Some (Inl err) \<Rightarrow> Some (Inl err)
           | Some (Inr files) \<Rightarrow>
               if br_Checksum ref \<noteq> [] \<and> ChecksumFiles H files \<noteq> br_Checksum ref then
                 Some (Inl (Errorf ''render: bundle checksum mismatch: got %s, want %s''
                              [AStr (ChecksumFiles H files), AStr (br_Checksum ref)]))
               else Some (Inr files)))"

section \<open>Objects inside a document\<close>

text \<open>\<open>occurs v ob\<close>: the object \<open>ob\<close> is the value \<open>v\<close> or nested somewhere in it.\<close>

inductive occurs :: "uval \<Rightarrow> obj \<Rightarrow> bool" where
  occurs_here: "occurs (UMap m) m"
| occurs_field: "m k = Some v \<Longrightarrow> occurs v ob \<Longrightarrow> occurs (UMap m) ob"
| occurs_elem: "v \<in> set vs \<Longrightarrow> occurs v ob \<Longrightarrow> occurs (UList vs) ob"

inductive_simps occurs_UStr [simp]: "occurs (UStr s) ob"
inductive_cases occurs_UMapE: "occurs (UMap m) ob"

definition every_object :: "(obj \<Rightarrow> bool) \<Rightarrow> uval \<Rightarrow> bool" where
  "every_object Q v \<longleftrightarrow> (\<forall>ob. occurs v ob \<longrightarrow> Q ob)"

lemma every_object_UStr [simp, intro!]: "every_object Q (UStr s)"
  by (simp add: every_object_def)

lemma every_object_UMap [intro!]:
  "Q m \<Longrightarrow> \<forall>v \<in> ran m. every_object Q v \<Longrightarrow> every_object Q (UMap m)"
  unfolding every_object_def by (auto elim!: occurs_UMapE intro: ranI)

lemma ball_ran_upd [intro!]: "P x \<Longrightarrow> \<forall>v \<in> ran m. P v \<Longrightarrow> \<forall>v \<in> ran (m(k \<mapsto> x)). P v"
  by (auto simp: ran_def split: if_splits)

lemma ball_ran_empty [intro!]: "\<forall>v \<in> ran Map.empty. P v"
  by simp

section \<open>Secret stores\<close>

text \<open>A \<open>namespace\<close> key of the provider block names the auth secret's namespace, in a cluster store only.\<close>

definition ref_namespace_ok :: "SecretStoreProvider \<Rightarrow> bool \<Rightarrow> obj \<Rightarrow> bool" where
  "ref_namespace_ok p clusterScoped ob \<longleftrightarrow>
     (\<forall>v. ob ''namespace'' = Some v \<longrightarrow> clusterScoped \<and> v = UStr (ss_AuthNamespace p))"

lemma secretRef_ok:
  "every_object (ref_namespace_ok p cs) (UMap (secretRef cs (ss_AuthName p) (ss_AuthNamespace p) key))"
  unfolding secretRef_def Let_def
  by (cases cs) (auto simp: ref_namespace_ok_def)

lemma providerSpec_refs:
  assumes "providerSpec p cs = Inr spec"
  shows "every_object (ref_namespace_ok p cs) (UMap spec)"
  using assms unfolding providerSpec_def Let_def
  by (auto simp: ref_namespace_ok_def intro!: secretRef_ok split: if_splits)

lemma RenderSecretStore_Inr:
  assumes "RenderSecretStore yaml name scope p = Inr files"
  obtains provider content where
    "ValidateFilePath (name @ ''.yaml'') = None"
    "scope = SecretStoreScopePlatform \<or> scope = SecretStoreScopeCluster \<and> ss_AuthNamespace p = SystemNamespace"
    "providerSpec p (scope = SecretStoreScopePlatform) = Inr provider"
    "yaml (secret_store_cr name (scope = SecretStoreScopePlatform) provider) = Inr content"
    "files = [\<lparr>f_Path = name @ ''.yaml'', f_Content = content\<rparr>]"
  using assms unfolding RenderSecretStore_def Let_def
  by (auto split: if_splits option.splits sum.splits simp: SecretStoreScopePlatform_def)

section \<open>Instances\<close>

lemma ValidateFilePath_join:
  assumes "ValidateFilePath a = None" and "ValidateFilePath b = None"
  shows "ValidateFilePath (a @ ''/'' @ b) = None"
  using assms by (auto simp: ValidateFilePath_None Split_append)

lemma validateRequired_None:
  "validateRequired A rgd ps = None \<longleftrightarrow>
     (\<forall>n \<in> set (fst (NestedStringSlice A rgd [''spec'', ''schema'', ''spec'', ''required''])). ps n \<noteq> None)"
  by (auto simp: validateRequired_def Let_def filter_empty_conv)

lemma RenderRGDInstance_Inr:
  assumes "RenderRGDInstance A yaml getter rgdRef inst ns ps w = (Inr files, w')"
  obtains rgd content where "getter rgdRef w = (Inr rgd, w')"
    and "ValidateFilePath inst = None" and "validateRequired A rgd ps = None"
    and "yaml (instance_cr (fst (NestedString A rgd [''spec'', ''schema'', ''apiVersion'']))
              (fst (NestedString A rgd [''spec'', ''schema'', ''kind''])) inst ns ps) = Inr content"
    and "files = [\<lparr>f_Path = inst @ ''/instance.yaml'', f_Content = content\<rparr>]"
  using assms unfolding RenderRGDInstance_def Let_def
  by (auto split: if_splits option.splits sum.splits prod.splits)

section \<open>Bundles\<close>

lemma fetch_layers_valid:
  "fetch_layers bc repo ref i ls = Inr files \<Longrightarrow> \<forall>f \<in> set files. ValidateFilePath (f_Path f) = None"
  by (induction ls arbitrary: i files) (auto simp: Let_def split: if_splits option.splits sum.splits)

lemma fetchOCI_valid: "fetchOCI bc ref = Inr files \<Longrightarrow> f \<in> set files \<Longrightarrow> ValidateFilePath (f_Path f) = None"
  using fetch_layers_valid by (fastforce simp: fetchOCI_def Let_def split: sum.splits)

lemma sort_key_distinct_unique:
  assumes "mset xs = mset ys" and "distinct (map f xs)"
  shows "sort_key f xs = sort_key f ys"
  using assms by (intro sort_key_inj_key_eq) (simp_all add: distinct_map)

section \<open>The walk over a cloned tree\<close>

text \<open>
  What the agent relies on of the in-memory file system: entry names are non-empty and
  without a slash, paths are joined with a slash, and directories are nested to a finite depth
  (\<open>rank\<close> decreases into every subdirectory the walk enters).
\<close>

definition filesystem_laws :: "'r Filesystem \<Rightarrow> (string \<Rightarrow> nat) \<Rightarrow> bool" where
  "filesystem_laws fsys rank \<longleftrightarrow>
     (\<forall>dir infos i. ReadDir fsys dir = Inr infos \<longrightarrow> i \<in> set infos \<longrightarrow>
        fi_Name i \<noteq> [] \<and> CHR ''/'' \<notin> set (fi_Name i) \<and>
        (fi_IsDir i \<longrightarrow> fi_Name i \<noteq> ''.git'' \<longrightarrow> rank (fs_Join fsys dir (fi_Name i)) < rank dir)) \<and>
     (\<forall>dir name. fs_Join fsys dir name = (if dir = ''/'' then ''/'' @ name else dir @ ''/'' @ name))"

definition abs_path :: "string list \<Rightarrow> string" where
  "abs_path segs = ''/'' @ Join segs ''/''"

lemma Join_append1: "Join (xs @ [x]) sep = (if xs = [] then x else Join xs sep @ sep @ x)"
  by (induction xs) (auto simp: Join_Cons)

lemma abs_path_Join:
  assumes "filesystem_laws fsys rank" and "\<forall>s \<in> set segs. s \<noteq> []"
  shows "fs_Join fsys (abs_path segs) name = abs_path (segs @ [name])"
proof -
  have "Join segs ''/'' \<noteq> []" if "segs \<noteq> []"
    using that assms(2) by (cases segs) (auto simp: Join_Cons)
  with assms(1) show ?thesis
    by (cases "segs = []") (auto simp: filesystem_laws_def abs_path_def Join_append1)
qed

lemma walk_infos_total:
  assumes "\<forall>i \<in> set infos. fi_IsDir i \<longrightarrow> fi_Name i \<noteq> ''.git'' \<longrightarrow> (\<forall>s. walk (fs_Join fsys dir (fi_Name i)) s \<noteq> None)"
  shows "walk_infos walk fsys visit dir infos s \<noteq> None"
  using assms
proof (induction infos arbitrary: s)
  case (Cons i infos)
  show ?case
  proof (cases "fi_IsDir i \<and> fi_Name i \<noteq> ''.git''")
    case True
    with Cons.prems obtain eo s1 where "walk (fs_Join fsys dir (fi_Name i)) s = Some (eo, s1)" by fastforce
    with True Cons show ?thesis by (cases eo) (simp_all add: Let_def)
  next
    case False
    with Cons show ?thesis by (auto simp: Let_def split: option.splits sum.splits prod.splits)
  qed
qed simp

lemma walkBilly_total:
  assumes "filesystem_laws fsys rank" and "rank dir < n"
  shows "walkBilly n fsys visit dir s \<noteq> None"
  using assms(2)
proof (induction n arbitrary: dir s)
  case 0
  then show ?case by simp
next
  case (Suc n)
  show ?case
  proof (cases "ReadDir fsys dir")
    case (Inl e)
    then show ?thesis by simp
  next
    case (Inr infos)
    have "walkBilly n fsys visit (fs_Join fsys dir (fi_Name i)) s \<noteq> None"
      if "i \<in> set infos" "fi_IsDir i" "fi_Name i \<noteq> ''.git''" for i s
    proof (rule Suc.IH)
      have "rank (fs_Join fsys dir (fi_Name i)) < rank dir"
        using assms(1) Inr that unfolding filesystem_laws_def by blast
      with Suc.prems show "rank (fs_Join fsys dir (fi_Name i)) < n" by simp
    qed
    with Inr show ?thesis by (simp add: walk_infos_total)
  qed
qed

text \<open>A collected path: its segments, with no version-control directory above the file.\<close>

definition bundle_path :: "string \<Rightarrow> bool" where
  "bundle_path p \<longleftrightarrow> (let segs = Split p (CHR ''/'')
     in (\<forall>s \<in> set segs. s \<noteq> []) \<and> ''.git'' \<notin> set (butlast segs))"

definition plain_segments :: "string list \<Rightarrow> bool" where
  "plain_segments segs \<longleftrightarrow> (\<forall>s \<in> set segs. s \<noteq> [] \<and> CHR ''/'' \<notin> set s \<and> s \<noteq> ''.git'')"

lemma collect_file_path:
  assumes "collect_file fsys (abs_path (segs @ [name])) r fs = (eo, fs')"
    and "plain_segments segs" and "name \<noteq> []" and "CHR ''/'' \<notin> set name"
    and "\<forall>f \<in> set fs. bundle_path (f_Path f)"
  shows "\<forall>f \<in> set fs'. bundle_path (f_Path f)"
proof -
  have "Split (Join (segs @ [name]) ''/'') (CHR ''/'') = segs @ [name]"
    using assms(2,4) by (intro Split_Join) (auto simp: plain_segments_def)
  then have "bundle_path (Join (segs @ [name]) ''/'')"
    using assms(2,3) by (auto simp: bundle_path_def plain_segments_def)
  with assms(1,5) show ?thesis
    by (auto simp: collect_file_def abs_path_def TrimPrefix_append [of "''/''", simplified] split: sum.splits)
qed

lemma walk_infos_paths:
  assumes laws: "filesystem_laws fsys rank" and segs: "plain_segments segs"
    and names: "\<forall>i \<in> set infos. fi_Name i \<noteq> [] \<and> CHR ''/'' \<notin> set (fi_Name i)"
    and walk: "\<And>name fs r. plain_segments (segs @ [name]) \<Longrightarrow> \<forall>f \<in> set fs. bundle_path (f_Path f) \<Longrightarrow>
                 walk (abs_path (segs @ [name])) fs = Some r \<Longrightarrow> \<forall>f \<in> set (snd r). bundle_path (f_Path f)"
    and fs: "\<forall>f \<in> set fs. bundle_path (f_Path f)"
    and res: "walk_infos walk fsys (collect_file fsys) (abs_path segs) infos fs = Some r"
  shows "\<forall>f \<in> set (snd r). bundle_path (f_Path f)"
  using names fs res
proof (induction infos arbitrary: fs)
  case Nil
  then show ?case by auto
next
  case (Cons i infos)
  have path: "fs_Join fsys (abs_path segs) (fi_Name i) = abs_path (segs @ [fi_Name i])"
    using laws segs by (intro abs_path_Join) (auto simp: plain_segments_def)
  consider (skipped) "fi_IsDir i \<and> fi_Name i = ''.git'' \<or> \<not> fi_IsDir i \<and> fi_Symlink i"
    | (subdir) "fi_IsDir i" "fi_Name i \<noteq> ''.git''" | (regular) "\<not> fi_IsDir i" "\<not> fi_Symlink i" by blast
  then show ?case
  proof cases
    case skipped
    with Cons show ?thesis by (auto simp: Let_def)
  next
    case subdir
    with segs Cons.prems(1) have sub: "plain_segments (segs @ [fi_Name i])" by (auto simp: plain_segments_def)
    from Cons.prems(3) subdir obtain eo fs1 where w: "walk (abs_path (segs @ [fi_Name i])) fs = Some (eo, fs1)"
      by (auto simp: Let_def path split: option.splits)
    from walk [OF sub Cons.prems(2) w] Cons subdir w show ?thesis
      by (cases eo) (auto simp: Let_def path)
  next
    case regular
    show ?thesis
    proof (cases "Open fsys (abs_path (segs @ [fi_Name i]))")
      case (Inl e)
      with Cons regular show ?thesis by (auto simp: Let_def path)
    next
      case (Inr h)
      obtain eo fs1 where v: "collect_file fsys (abs_path (segs @ [fi_Name i])) h fs = (eo, fs1)" by fastforce
      from Cons.prems(1) have "fi_Name i \<noteq> []" "CHR ''/'' \<notin> set (fi_Name i)" by auto
      from collect_file_path [OF v segs this Cons.prems(2)] Cons regular Inr v show ?thesis
        by (cases eo) (auto simp: Let_def path)
    qed
  qed
qed

lemma walkBilly_paths:
  assumes "filesystem_laws fsys rank" and "plain_segments segs" and "\<forall>f \<in> set fs. bundle_path (f_Path f)"
    and "walkBilly n fsys (collect_file fsys) (abs_path segs) fs = Some r"
  shows "\<forall>f \<in> set (snd r). bundle_path (f_Path f)"
  using assms(2-4)
proof (induction n arbitrary: segs fs r)
  case 0
  then show ?case by simp
next
  case (Suc n)
  show ?case
  proof (cases "ReadDir fsys (abs_path segs)")
    case (Inl e)
    with Suc show ?thesis by auto
  next
    case (Inr infos)
    have "\<forall>i \<in> set infos. fi_Name i \<noteq> [] \<and> CHR ''/'' \<notin> set (fi_Name i)"
      using assms(1) Inr unfolding filesystem_laws_def by blast
    moreover have "walk_infos (walkBilly n fsys (collect_file fsys)) fsys (collect_file fsys) (abs_path segs) infos fs = Some r"
      using Suc.prems(3) Inr by simp
    ultimately show ?thesis
      using walk_infos_paths [OF assms(1) Suc.prems(1) _ _ Suc.prems(2)] Suc.IH by blast
  qed
qed

section \<open>Inputs to evaluate on\<close>

definition sample_store :: SecretStoreProvider where
  "sample_store = \<lparr>ss_Kind = ''vault'', ss_Region = [], ss_Server = ''https://vault'', ss_Path = ''kv'', ss_ProjectID = [],
     ss_VaultURL = [], ss_TenantID = [], ss_AuthName = ''vault-token'', ss_AuthNamespace = ''inari-system''\<rparr>"

text \<open>A definition that requires the parameter \<open>size\<close>.\<close>

definition sample_rgd :: obj where
  "sample_rgd = [''spec'' \<mapsto> UMap [''schema'' \<mapsto> UMap
     [''apiVersion'' \<mapsto> UStr ''v1'', ''kind'' \<mapsto> UStr ''Db'',
      ''spec'' \<mapsto> UMap [''required'' \<mapsto> UList [UStr ''size'']]]]]"

text \<open>
  A clone with a \<open>.git\<close> directory, a symbolic link, a subdirectory \<open>b\<close> with a file \<open>f\<close>; a registry
  that serves nothing.
\<close>

definition sample_fs :: "string Filesystem" where
  "sample_fs =
     \<lparr>ReadDir = (\<lambda>dir. if dir = ''/'' then Inr
          [\<lparr>fi_Name = ''.git'', fi_IsDir = True, fi_Symlink = False\<rparr>,
           \<lparr>fi_Name = ''l'', fi_IsDir = False, fi_Symlink = True\<rparr>,
           \<lparr>fi_Name = ''b'', fi_IsDir = True, fi_Symlink = False\<rparr>]
        else if dir = ''/b'' then Inr [\<lparr>fi_Name = ''f'', fi_IsDir = False, fi_Symlink = False\<rparr>]
        else Inl (ExtError ''not a directory'')),
      fs_Join = (\<lambda>dir name. if dir = ''/'' then ''/'' @ name else dir @ ''/'' @ name),
      Open = (\<lambda>path. if path = ''/b/f'' then Inr ''kind: X'' else Inl (ExtError ''no such file'')),
      ReadAll = Inr\<rparr>"

definition sample_clients :: "(unit, string) BundleClients" where
  "sample_clients =
     \<lparr>NewRepository = (\<lambda>r. Inl (ExtError ''offline'')), Resolve = (\<lambda>c. Inl (ExtError ''offline'')),
      FetchAll = (\<lambda>c d. Inl (ExtError ''offline'')), dec_Manifest = (\<lambda>b. Inl (ExtError ''json'')),
      Clone = (\<lambda>url. Inr sample_fs)\<rparr>"

lemma sample_fs_laws: "filesystem_laws sample_fs (\<lambda>dir. if dir = ''/'' then 1 else 0)"
  by (simp add: filesystem_laws_def sample_fs_def)

section \<open>Properties\<close>

text \<open>
  C33. A rendered secret store stays in its namespace: the one file written is \<open><name>.yaml\<close> with
  a valid path; a namespaced store is rendered only when its auth secret lives in the system
  namespace; and nowhere in the provider block does a reference name another namespace: a
  \<open>namespace\<close> key appears only in a cluster store, with the auth secret's namespace.
\<close>

theorem secret_store_refs_confined:
  assumes "RenderSecretStore yaml name scope p = Inr files"
  shows "\<exists>provider content.
      yaml (secret_store_cr name (scope = SecretStoreScopePlatform) provider) = Inr content
    \<and> files = [\<lparr>f_Path = name @ ''.yaml'', f_Content = content\<rparr>]
    \<and> ValidateFilePath (name @ ''.yaml'') = None
    \<and> (scope = SecretStoreScopePlatform \<or> scope = SecretStoreScopeCluster \<and> ss_AuthNamespace p = SystemNamespace)
    \<and> (\<forall>ob v. occurs (UMap provider) ob \<longrightarrow> ob ''namespace'' = Some v \<longrightarrow>
          scope = SecretStoreScopePlatform \<and> v = UStr (ss_AuthNamespace p))"
  using assms
proof (rule RenderSecretStore_Inr)
  fix provider content
  assume "providerSpec p (scope = SecretStoreScopePlatform) = Inr provider"
  from providerSpec_refs [OF this]
  have "\<forall>ob v. occurs (UMap provider) ob \<longrightarrow> ob ''namespace'' = Some v \<longrightarrow>
          scope = SecretStoreScopePlatform \<and> v = UStr (ss_AuthNamespace p)"
    by (auto simp: every_object_def ref_namespace_ok_def)
  moreover assume "ValidateFilePath (name @ ''.yaml'') = None"
    "scope = SecretStoreScopePlatform \<or> scope = SecretStoreScopeCluster \<and> ss_AuthNamespace p = SystemNamespace"
    "yaml (secret_store_cr name (scope = SecretStoreScopePlatform) provider) = Inr content"
    "files = [\<lparr>f_Path = name @ ''.yaml'', f_Content = content\<rparr>]"
  ultimately show ?thesis by blast
qed

theorem secret_store_refs_confined_witness:
  "\<exists>provider. RenderSecretStore (\<lambda>ob. Inr ''doc'') ''db'' ''cluster'' sample_store = Inr [\<lparr>f_Path = ''db.yaml'', f_Content = ''doc''\<rparr>]
    \<and> (\<forall>ob v. occurs (UMap provider) ob \<longrightarrow> ob ''namespace'' = Some v \<longrightarrow> False)"
proof -
  have 1: "RenderSecretStore (\<lambda>ob. Inr ''doc'') ''db'' ''cluster'' sample_store = Inr [\<lparr>f_Path = ''db.yaml'', f_Content = ''doc''\<rparr>]"
    by (simp add: RenderSecretStore_def ValidateFilePath_def HasPrefix_def bad_segment_def providerSpec_def sample_store_def
        SecretStoreScopePlatform_def SecretStoreScopeCluster_def SystemNamespace_def)
  from secret_store_refs_confined [OF this] 1 show ?thesis
    by (auto simp: SecretStoreScopePlatform_def)
qed

text \<open>
  A rendered instance is complete and owned: every parameter the definition requires is
  given, the manifest carries the instance's name, namespace, parameters and the Inari
  ownership labels, and it is written to \<open><instance>/instance.yaml\<close>, a path that stays inside the
  target directory.
\<close>

theorem rgd_instance_complete:
  assumes "RenderRGDInstance A yaml getter rgdRef inst ns ps w = (Inr files, w')"
  shows "\<exists>rgd apiVersion kind content. getter rgdRef w = (Inr rgd, w')
    \<and> (\<forall>n \<in> set (fst (NestedStringSlice A rgd [''spec'', ''schema'', ''spec'', ''required''])). ps n \<noteq> None)
    \<and> yaml (instance_cr apiVersion kind inst ns ps) = Inr content
    \<and> files = [\<lparr>f_Path = inst @ ''/instance.yaml'', f_Content = content\<rparr>]
    \<and> ValidateFilePath (inst @ ''/instance.yaml'') = None"
  using assms
proof (rule RenderRGDInstance_Inr)
  fix rgd content
  assume "ValidateFilePath inst = None"
  moreover have "ValidateFilePath ''instance.yaml'' = None"
    by (simp add: ValidateFilePath_None bad_segment_def)
  ultimately have "ValidateFilePath (inst @ ''/instance.yaml'') = None"
    using ValidateFilePath_join [of inst "''instance.yaml''"] by simp
  moreover assume "validateRequired A rgd ps = None"
  ultimately show "getter rgdRef w = (Inr rgd, w') \<Longrightarrow>
      yaml (instance_cr (fst (NestedString A rgd [''spec'', ''schema'', ''apiVersion'']))
              (fst (NestedString A rgd [''spec'', ''schema'', ''kind''])) inst ns ps) = Inr content \<Longrightarrow>
      files = [\<lparr>f_Path = inst @ ''/instance.yaml'', f_Content = content\<rparr>] \<Longrightarrow> ?thesis"
    by (auto simp: validateRequired_None)
qed

theorem rgd_instance_complete_witness:
  "RenderRGDInstance ref_accessors (\<lambda>ob. Inr ''doc'') (\<lambda>r w. (Inr sample_rgd, w)) ''db'' ''orders'' ''team'' [''size'' \<mapsto> UStr ''s''] () =
      (Inr [\<lparr>f_Path = ''orders/instance.yaml'', f_Content = ''doc''\<rparr>], ())
   \<and> ValidateFilePath ''orders/instance.yaml'' = None"
proof -
  have 1: "RenderRGDInstance ref_accessors (\<lambda>ob. Inr ''doc'') (\<lambda>r w. (Inr sample_rgd, w)) ''db'' ''orders'' ''team'' [''size'' \<mapsto> UStr ''s''] () =
      (Inr [\<lparr>f_Path = ''orders/instance.yaml'', f_Content = ''doc''\<rparr>], ())"
    by (simp add: RenderRGDInstance_def ValidateFilePath_def HasPrefix_def bad_segment_def sample_rgd_def
        ref_accessors_def validateRequired_def)
  from rgd_instance_complete [OF this] 1 show ?thesis by simp
qed

text \<open>
  C35. A fetched bundle is verified: it comes from exactly one source, when the reference carries
  a checksum it is the checksum of the files returned, and every path of an OCI bundle is
  valid.
\<close>

theorem fetched_bundle_verified:
  assumes "Fetch fuel H bc ref = Some (Inr files)"
  shows "(br_OCIRef ref = []) \<noteq> (br_GitURL ref = [])
    \<and> (br_Checksum ref \<noteq> [] \<longrightarrow> ChecksumFiles H files = br_Checksum ref)
    \<and> (br_OCIRef ref \<noteq> [] \<longrightarrow> (\<forall>f \<in> set files. ValidateFilePath (f_Path f) = None))"
  using assms fetchOCI_valid [of bc "br_OCIRef ref" files]
  by (auto simp: Fetch_def bundle_Validate_def split: if_splits option.splits sum.splits)

text \<open>
  C36. Reading a cloned bundle terminates, for a tree of any finite depth, and returns only
  relative paths outside version-control metadata: no directory above a returned file is
  called \<open>.git\<close>.
\<close>

theorem git_bundle_read:
  assumes "Clone bc url = Inr fsys" and "filesystem_laws fsys rank" and "rank ''/'' < fuel"
  shows "\<exists>r. fetchGit fuel bc url = Some r \<and> (\<forall>files. r = Inr files \<longrightarrow> (\<forall>f \<in> set files. bundle_path (f_Path f)))"
proof -
  from walkBilly_total [OF assms(2,3)] obtain eo fs
    where w: "walkBilly fuel fsys (collect_file fsys) ''/'' [] = Some (eo, fs)" by fastforce
  then have "\<forall>f \<in> set fs. bundle_path (f_Path f)"
    using walkBilly_paths [OF assms(2), of "[]" "[]" fuel] by (simp add: abs_path_def plain_segments_def)
  with w assms(1) show ?thesis by (cases eo) (simp_all add: fetchGit_def)
qed

text \<open>
  The content digest does not depend on the order of the files, when their paths are
  distinct: any two arrangements of the same files have the same checksum.
\<close>

theorem checksum_order_independent:
  assumes "mset fs = mset fs'" and "distinct (map f_Path fs)"
  shows "ChecksumFiles H fs = ChecksumFiles H fs'"
  using sort_key_distinct_unique [OF assms] by (simp add: ChecksumFiles_def)

theorem checksum_order_independent_witness:
  "ChecksumFiles (\<lambda>b. b) [\<lparr>f_Path = ''b'', f_Content = ''2''\<rparr>, \<lparr>f_Path = ''a'', f_Content = ''1''\<rparr>] =
   ChecksumFiles (\<lambda>b. b) [\<lparr>f_Path = ''a'', f_Content = ''1''\<rparr>, \<lparr>f_Path = ''b'', f_Content = ''2''\<rparr>]"
  by (rule checksum_order_independent) simp_all

theorem fetched_bundle_verified_witness:
  "let ref = \<lparr>br_OCIRef = [], br_GitURL = ''u'', br_Checksum = ''sha256:'' @ ''b/f'' @ [CHR 0x00] @ ''kind: X'' @ [CHR 0x00]\<rparr>;
       files = [\<lparr>f_Path = ''b/f'', f_Content = ''kind: X''\<rparr>]
   in Fetch 2 (\<lambda>b. b) sample_clients ref = Some (Inr files) \<and> ChecksumFiles (\<lambda>b. b) files = br_Checksum ref"
proof -
  let ?ref = "\<lparr>br_OCIRef = [], br_GitURL = ''u'', br_Checksum = ''sha256:'' @ ''b/f'' @ [CHR 0x00] @ ''kind: X'' @ [CHR 0x00]\<rparr>"
  have 1: "Fetch 2 (\<lambda>b. b) sample_clients ?ref = Some (Inr [\<lparr>f_Path = ''b/f'', f_Content = ''kind: X''\<rparr>])"
    by (simp add: Fetch_def bundle_Validate_def fetchGit_def sample_clients_def sample_fs_def numeral_2_eq_2
        collect_file_def TrimPrefix_def HasPrefix_def ChecksumFiles_def Let_def)
  from fetched_bundle_verified [OF this] 1 show ?thesis by (simp add: Let_def)
qed

theorem git_bundle_read_witness:
  "\<exists>r. fetchGit 2 sample_clients ''u'' = Some r \<and> (\<forall>files. r = Inr files \<longrightarrow> (\<forall>f \<in> set files. bundle_path (f_Path f)))"
  by (rule git_bundle_read [OF _ sample_fs_laws]) (simp_all add: sample_clients_def)

end
