(* ===== verification/ArgoCD.thy ===== *)
theory ArgoCD
  imports Agent_Proto
begin

text \<open>
  The tenant-local ArgoCD (\<open>internal/argocd\<close>): detection of an installation and the version-skew
  policy (\<open>lifecycle.go\<close>), the gate and the bundle install (\<open>install.go\<close>), the ownership-safe
  upsert of Applications, AppProjects and server-rendered manifests (\<open>apps.go\<close>, \<open>manifest.go\<close>)
  and the narrow API client for imperative operations (\<open>api.go\<close>).

  Parameters: the dynamic client \<open>Dyn\<close>, the accessors of a document, the list of deployments,
  the YAML and JSON codecs and the HTTP transport.
\<close>

section \<open>Names (types.go)\<close>

definition argocd_ManagedByLabel :: string where
  "argocd_ManagedByLabel = ''inari.dev/managed-by''"

definition argocd_ManagedByValue :: string where
  "argocd_ManagedByValue = ''inari-agent''"

definition argocd_InstanceLabel :: string where
  "argocd_InstanceLabel = ''inari.dev/instance''"

definition ApplicationGVR :: GVR where
  "ApplicationGVR = \<lparr>g_Group = ''argoproj.io'', g_Version = ''v1alpha1'', g_Resource = ''applications''\<rparr>"

definition AppProjectGVR :: GVR where
  "AppProjectGVR = \<lparr>g_Group = ''argoproj.io'', g_Version = ''v1alpha1'', g_Resource = ''appprojects''\<rparr>"

definition ApplicationSetGVR :: GVR where
  "ApplicationSetGVR = \<lparr>g_Group = ''argoproj.io'', g_Version = ''v1alpha1'', g_Resource = ''applicationsets''\<rparr>"

text \<open>\<open>Mode\<close> is a string: any value but \<open>byo\<close> takes the default branch of \<open>EnsureReady\<close>.\<close>

definition ModeBundle :: string where "ModeBundle = ''bundle''"

definition ModeBYO :: string where "ModeBYO = ''byo''"

section \<open>Versions and detection (lifecycle.go)\<close>

definition BundleLine :: string where "BundleLine = ''3.3''"

definition PreviousLine :: string where "PreviousLine = ''2.14''"

definition SupportedMin :: string where "SupportedMin = ''v2.14.0''"

datatype Classification = ClassNone | ClassAdoptable | ClassOutOfSkew

record Installation =
  in_Namespace :: string
  in_Version :: string
  in_HelmManaged :: bool
  in_Classification :: Classification

text \<open>A non-empty run of digits at the front, and what follows it.\<close>

definition take_digits :: "string \<Rightarrow> (string \<times> string) option" where
  "take_digits s = (let ds = takeWhile is_digit s in if ds = [] then None else Some (ds, dropWhile is_digit s))"

text \<open>The group of \<open>:(v?\d+\.\d+\.\d+)\<close> matched at the front of the text after a colon.\<close>

definition match_version :: "string \<Rightarrow> string option" where
  "match_version s0 =
     (let (v, s) = (if HasPrefix s0 ''v'' then (''v'', tl s0) else ([], s0))
      in case take_digits s of
           Some (a, CHR ''.'' # s1) \<Rightarrow>
             (case take_digits s1 of
                Some (b, CHR ''.'' # s2) \<Rightarrow>
                  (case take_digits s2 of
                     Some (c, s3) \<Rightarrow> Some (v @ a @ ''.'' @ b @ ''.'' @ c)
                   | None \<Rightarrow> None)
              | _ \<Rightarrow> None)
         | _ \<Rightarrow> None)"

text \<open>\<open>FindStringSubmatch\<close>: the leftmost match.\<close>

fun find_version :: "string \<Rightarrow> string option" where
  "find_version [] = None"
| "find_version (c # s) =
     (if c = CHR '':'' then (case match_version s of Some v \<Rightarrow> Some v | None \<Rightarrow> find_version s)
      else find_version s)"

definition ParseVersion :: "string \<Rightarrow> string res" where
  "ParseVersion img =
     (case find_version img of
        None \<Rightarrow> Inl (Errorf ''argocd: no version tag in image %q'' [AStr img])
      | Some m \<Rightarrow> Inr (TrimPrefix m ''v''))"

definition minor :: "string \<Rightarrow> string" where
  "minor v = (let parts = Split v (CHR ''.'')
              in if length parts < 2 then v else parts ! 0 @ ''.'' @ parts ! 1)"

fun parts_GE :: "string list \<Rightarrow> string list \<Rightarrow> bool" where
  "parts_GE (a # as) (b # bs) =
     (let na = fst (Atoi a); nb = fst (Atoi b) in if na \<noteq> nb then na > nb else parts_GE as bs)"
| "parts_GE as bs = (length as \<ge> length bs)"

definition versionGE :: "string \<Rightarrow> string \<Rightarrow> bool" where
  "versionGE a b = parts_GE (Split (TrimPrefix a ''v'') (CHR ''.'')) (Split (TrimPrefix b ''v'') (CHR ''.''))"

definition InSkew :: "string \<Rightarrow> bool" where
  "InSkew v0 =
     (let v = TrimPrefix v0 ''v''
      in if \<not> versionGE v SupportedMin then False
         else let m = minor v in m = BundleLine \<or> m = PreviousLine)"

record Container =
  c_Name :: string
  c_Image :: string

record Deployment =
  dp_Name :: string
  dp_Namespace :: string
  dp_Labels :: "string \<Rightarrow> string option"
  dp_Containers :: "Container list"

text \<open>The loop over the containers: the version of the first that looks like ArgoCD, if any.\<close>

fun container_version :: "Container list \<Rightarrow> string res" where
  "container_version [] = Inr []"
| "container_version (c # cs) =
     (if c_Name c = ''argocd-server'' \<or> Contains (c_Image c) ''argocd'' then ParseVersion (c_Image c)
      else container_version cs)"

fun detect_deployments :: "Deployment list \<Rightarrow> Installation option res" where
  "detect_deployments [] = Inr None"
| "detect_deployments (d # ds) =
     (if dp_Name d \<noteq> ''argocd-server'' then detect_deployments ds
      else case container_version (dp_Containers d) of
        Inl err \<Rightarrow> Inl err
      | Inr v \<Rightarrow>
          if v = [] then
            Inl (Errorf ''argocd: detect: argocd-server in %s has no image version'' [AStr (dp_Namespace d)])
          else Inr (Some \<lparr>in_Namespace = dp_Namespace d, in_Version = v,
                          in_HelmManaged = (mget (dp_Labels d) ''app.kubernetes.io/managed-by'' = ''Helm''),
                          in_Classification = (if InSkew v then ClassAdoptable else ClassOutOfSkew)\<rparr>))"

definition Detect :: "('w \<Rightarrow> Deployment list res \<times> 'w) \<Rightarrow> 'w \<Rightarrow> Installation option res \<times> 'w" where
  "Detect listDeployments w =
     (case listDeployments w of
        (Inl err, w1) \<Rightarrow> (Inl (Wrapf ''argocd: detect: list deployments: %w'' [] err), w1)
      | (Inr ds, w1) \<Rightarrow> (detect_deployments ds, w1))"

section \<open>The gate and the bundle install (install.go)\<close>

record Lifecycle =
  lc_Mode :: string
  lc_Namespace :: string
  lc_Manifests :: string

definition lowerASCII :: "string \<Rightarrow> string" where
  "lowerASCII s = map (\<lambda>c. if CHR ''A'' \<le> c \<and> c \<le> CHR ''Z'' then char_of (of_char c + (32::nat)) else c) s"

definition hasSuffix :: "string \<Rightarrow> string \<Rightarrow> bool" where
  "hasSuffix s suf \<longleftrightarrow> length s \<ge> length suf \<and> drop (length s - length suf) s = suf"

definition GVRFor :: "GVK \<Rightarrow> GVR res" where
  "GVRFor gvk =
     (if k_Kind gvk = [] then Inl (Errorf ''argocd: manifest with empty kind'' [])
      else let lower = lowerASCII (k_Kind gvk);
               resource = (if hasSuffix lower ''s'' then lower @ ''es''
                           else if hasSuffix lower ''y'' then take (length lower - 1) lower @ ''ies''
                           else lower @ ''s'')
           in Inr \<lparr>g_Group = k_Group gvk, g_Version = k_Version gvk, g_Resource = resource\<rparr>)"

text \<open>
  The decoder's loop: \<open>docs\<close> are the documents it yields and \<open>derr\<close> the error after them, \<open>None\<close>
  for the end of the input.
\<close>

fun apply_docs ::
  "Accessors \<Rightarrow> (obj \<Rightarrow> string res) \<Rightarrow> 'w Dyn \<Rightarrow> string \<Rightarrow> obj list \<Rightarrow> go_err option \<Rightarrow> 'w \<Rightarrow> go_err option \<times> 'w"
where
  "apply_docs A MarshalJSON dyn defaultNS [] derr w =
     (case derr of None \<Rightarrow> (None, w) | Some err \<Rightarrow> (Some (Wrapf ''argocd: decode bundle manifest: %w'' [] err), w))"
| "apply_docs A MarshalJSON dyn defaultNS (raw # docs) derr w =
     (if raw = Map.empty then apply_docs A MarshalJSON dyn defaultNS docs derr w
      else case GVRFor (GroupVersionKind A raw) of
        Inl err \<Rightarrow> (Some err, w)
      | Inr mapping \<Rightarrow>
          let ns = (if GetNamespace A raw = [] then defaultNS else GetNamespace A raw);
              ob = (if GetNamespace A raw = [] then SetNamespace A defaultNS raw else raw);
              fail = (\<lambda>e. Wrapf ''argocd: apply %s %s/%s: %w'' [AStr (GetKind A ob), AStr ns, AStr (GetName A ob)] e)
          in (case MarshalJSON ob of
                Inl err \<Rightarrow> (Some err, w)
              | Inr data \<Rightarrow>
                  (case dyn_Patch dyn mapping ns (GetName A ob) data w of
                     (None, w1) \<Rightarrow> apply_docs A MarshalJSON dyn defaultNS docs derr w1
                   | (Some err, w1) \<Rightarrow>
                       if IsNotFound err then
                         (case dyn_Create dyn mapping ns ob w1 of
                            (Some cerr, w2) \<Rightarrow> (Some (fail cerr), w2)
                          | (None, w2) \<Rightarrow> apply_docs A MarshalJSON dyn defaultNS docs derr w2)
                       else (Some (fail err), w1))))"

definition ApplyManifests ::
  "Accessors \<Rightarrow> (obj \<Rightarrow> string res) \<Rightarrow> (string \<Rightarrow> obj list \<times> go_err option) \<Rightarrow> 'w Dyn \<Rightarrow> string \<Rightarrow> string \<Rightarrow>
   'w \<Rightarrow> go_err option \<times> 'w"
where
  "ApplyManifests A MarshalJSON decoder dyn manifests defaultNS w =
     (case decoder manifests of (docs, derr) \<Rightarrow> apply_docs A MarshalJSON dyn defaultNS docs derr w)"

definition em_dash :: string where
  "em_dash = [CHR 0xE2, CHR 0x80, CHR 0x94]"

text \<open>\<open>install\<close> is \<open>ApplyManifests\<close> on the lifecycle's dynamic client.\<close>

definition EnsureReady ::
  "('w \<Rightarrow> Deployment list res \<times> 'w) \<Rightarrow> (string \<Rightarrow> string \<Rightarrow> 'w \<Rightarrow> go_err option \<times> 'w) \<Rightarrow> Lifecycle \<Rightarrow> 'w \<Rightarrow> string res \<times> 'w"
where
  "EnsureReady listDeployments install l w =
     (let mode = (if lc_Mode l = [] then ModeBundle else lc_Mode l)
      in case Detect listDeployments w of
           (Inl err, w1) \<Rightarrow> (Inl err, w1)
         | (Inr inst, w1) \<Rightarrow>
             if mode = ModeBYO then
               (case inst of
                  None \<Rightarrow> (Inl (Errorf ''argocd: BYO mode but no argocd-server found in any namespace'' []), w1)
                | Some i \<Rightarrow>
                    if in_Classification i \<noteq> ClassAdoptable then
                      (Inl (Errorf (''argocd: refusing to adopt %s in %s (version %s out of supported skew %s/%s, min %s); the agent runs observe-only ''
                              @ em_dash @ '' upgrade the tenant ArgoCD or install side-by-side'')
                         [AStr ''argocd-server'', AStr (in_Namespace i), AStr (in_Version i), AStr BundleLine,
                          AStr PreviousLine, AStr SupportedMin]), w1)
                    else (Inr (in_Namespace i), w1))
             else
               let ns = (if lc_Namespace l = [] then ''argocd'' else lc_Namespace l)
               in (case inst of
                     None \<Rightarrow>
                       if length (lc_Manifests l) = 0 then
                         (Inl (Errorf ''argocd: no installation found and no bundle manifests configured'' []), w1)
                       else (case install (lc_Manifests l) ns w1 of
                               (Some err, w2) \<Rightarrow> (Inl (Wrapf ''argocd: install bundle: %w'' [] err), w2)
                             | (None, w2) \<Rightarrow> (Inr ns, w2))
                   | Some i \<Rightarrow>
                       if in_Namespace i = ns \<and> in_Classification i = ClassAdoptable then (Inr ns, w1)
                       else (Inl (Errorf ''argocd: existing installation in %s (version %s) conflicts with bundle-managed mode in %s; set BYO mode to adopt or remove it''
                                    [AStr (in_Namespace i), AStr (in_Version i), AStr ns]), w1)))"

section \<open>Applications and projects (apps.go)\<close>

record 'w Client =
  cl_Dyn :: "'w Dyn"
  cl_Namespace :: string

definition NewClient :: "'w Dyn \<Rightarrow> string \<Rightarrow> 'w Client" where
  "NewClient dyn namespace = \<lparr>cl_Dyn = dyn, cl_Namespace = namespace\<rparr>"

text \<open>
  \<open>reflect.DeepEqual\<close> tells a nil map from an empty one; the found flag of \<open>NestedMap\<close> does the same.
\<close>

definition upsert :: "Accessors \<Rightarrow> 'w Client \<Rightarrow> GVR \<Rightarrow> obj \<Rightarrow> 'w \<Rightarrow> go_err option \<times> 'w" where
  "upsert A c gvr ob w =
     (let named = [AStr (GetKind A ob), AStr (GetName A ob)]
      in case dyn_Get (cl_Dyn c) gvr (cl_Namespace c) (GetName A ob) w of
           (Inl err, w1) \<Rightarrow>
             if IsNotFound err then
               (case dyn_Create (cl_Dyn c) gvr (cl_Namespace c) ob w1 of
                  (None, w2) \<Rightarrow> (None, w2)
                | (Some cerr, w2) \<Rightarrow>
                    if IsForbidden cerr then
                      (Some (Wrapf (''argocd: creating %s %s forbidden '' @ em_dash
                               @ '' the ArgoCD install's RBAC/AppProject configuration rejects Inari-managed objects: %w'') named cerr), w2)
                    else (Some (Wrapf ''argocd: create %s %s: %w'' named cerr), w2))
             else (Some (Wrapf ''argocd: get %s %s: %w'' named err), w1)
         | (Inr existing, w1) \<Rightarrow>
             if mget (GetLabels A existing) argocd_ManagedByLabel \<noteq> argocd_ManagedByValue then
               (Some (Errorf ''argocd: %s %s exists and is not Inari-managed; refusing to adopt implicitly (observe-only)'' named), w1)
             else
               let newSpec = NestedMap A ob [''spec'']; oldSpec = NestedMap A existing [''spec'']
               in if newSpec = oldSpec then (None, w1)
                  else case SetNestedMap A existing (fst newSpec) [''spec''] of
                    Inl err \<Rightarrow> (Some err, w1)
                  | Inr updated \<Rightarrow>
                      (case dyn_Update (cl_Dyn c) gvr (cl_Namespace c) updated w1 of
                         (None, w2) \<Rightarrow> (None, w2)
                       | (Some uerr, w2) \<Rightarrow> (Some (Wrapf ''argocd: update %s %s: %w'' named uerr), w2)))"

definition orDefault :: "string \<Rightarrow> string \<Rightarrow> string" where
  "orDefault v def = (if v = [] then def else v)"

definition syncPolicy :: "SyncPolicy option \<Rightarrow> obj option" where
  "syncPolicy sp =
     (case sp of
        None \<Rightarrow> None
      | Some p \<Rightarrow>
          Some (if sp_Automated p
                then [''automated'' \<mapsto> UMap [''prune'' \<mapsto> UBool (sp_Prune p), ''selfHeal'' \<mapsto> UBool (sp_SelfHeal p)]]
                else Map.empty))"

definition appproject :: "string \<Rightarrow> string \<Rightarrow> obj" where
  "appproject namespace name =
     [''apiVersion'' \<mapsto> UStr ''argoproj.io/v1alpha1'',
      ''kind'' \<mapsto> UStr ''AppProject'',
      ''metadata'' \<mapsto> UMap
        [''name'' \<mapsto> UStr name, ''namespace'' \<mapsto> UStr namespace,
         ''labels'' \<mapsto> UMap [argocd_ManagedByLabel \<mapsto> UStr argocd_ManagedByValue]],
      ''spec'' \<mapsto> UMap
        [''sourceRepos'' \<mapsto> UList [UStr ''*''],
         ''destinations'' \<mapsto> UList [UMap [''server'' \<mapsto> UStr ''*'', ''namespace'' \<mapsto> UStr ''*'']],
         ''clusterResourceWhitelist'' \<mapsto> UList [UMap [''group'' \<mapsto> UStr ''*'', ''kind'' \<mapsto> UStr ''*'']]]]"

definition EnsureAppProject :: "Accessors \<Rightarrow> 'w Client \<Rightarrow> string \<Rightarrow> 'w \<Rightarrow> go_err option \<times> 'w" where
  "EnsureAppProject A c name w = upsert A c AppProjectGVR (appproject (cl_Namespace c) name) w"

text \<open>The Application \<open>EnsureApplication\<close> builds, from a request with a source.\<close>

definition application :: "string \<Rightarrow> RegisterArgoCDApp \<Rightarrow> ArgoSource \<Rightarrow> obj" where
  "application namespace m src =
     (let project = (if ra_Project m = [] then ''default'' else ra_Project m);
          destServer = (if ra_DestinationServer m = [] then ''https://kubernetes.default.svc'' else ra_DestinationServer m);
          source = [''repoURL'' \<mapsto> UStr (as_RepoUrl src),
                    ''targetRevision'' \<mapsto> UStr (orDefault (as_TargetRevision src) ''main'')];
          source = (if as_Chart src \<noteq> [] then source(''chart'' \<mapsto> UStr (as_Chart src))
                    else source(''path'' \<mapsto> UStr (orDefault (as_Path src) ''.'')));
          spec = [''project'' \<mapsto> UStr project,
                  ''source'' \<mapsto> UMap source,
                  ''destination'' \<mapsto> UMap
                    [''server'' \<mapsto> UStr destServer,
                     ''namespace'' \<mapsto> UStr (orDefault (ra_DestinationNamespace m) ''default'')]];
          spec = (case syncPolicy (ra_SyncPolicy m) of None \<Rightarrow> spec | Some sp \<Rightarrow> spec(''syncPolicy'' \<mapsto> UMap sp))
      in [''apiVersion'' \<mapsto> UStr ''argoproj.io/v1alpha1'',
          ''kind'' \<mapsto> UStr ''Application'',
          ''metadata'' \<mapsto> UMap
            [''name'' \<mapsto> UStr (ra_Name m), ''namespace'' \<mapsto> UStr namespace,
             ''labels'' \<mapsto> UMap [argocd_ManagedByLabel \<mapsto> UStr argocd_ManagedByValue,
                                argocd_InstanceLabel \<mapsto> UStr (ra_Name m)]],
          ''spec'' \<mapsto> UMap spec])"

definition EnsureApplication :: "Accessors \<Rightarrow> 'w Client \<Rightarrow> RegisterArgoCDApp \<Rightarrow> 'w \<Rightarrow> go_err option \<times> 'w" where
  "EnsureApplication A c m w =
     (if ra_Name m = [] then (Some (Errorf ''argocd: application name is required'' []), w)
      else case ra_Source m of
        None \<Rightarrow> (Some (Errorf ''argocd: application %q needs a source repo_url'' [AStr (ra_Name m)]), w)
      | Some src \<Rightarrow>
          if as_RepoUrl src = [] then
            (Some (Errorf ''argocd: application %q needs a source repo_url'' [AStr (ra_Name m)]), w)
          else upsert A c ApplicationGVR (application (cl_Namespace c) m src) w)"

section \<open>Verbatim manifests (manifest.go)\<close>

record ManifestCodec =
  YAMLToJSON :: "string \<Rightarrow> string res"
  UnmarshalObject :: "string \<Rightarrow> obj res"

definition ensureManifest ::
  "Accessors \<Rightarrow> ManifestCodec \<Rightarrow> 'w Client \<Rightarrow> GVR \<Rightarrow> string \<Rightarrow> string \<Rightarrow> string \<Rightarrow> 'w \<Rightarrow> go_err option \<times> 'w"
where
  "ensureManifest A mc c gvr kind name manifest w =
     (case YAMLToJSON mc manifest of
        Inl err \<Rightarrow> (Some (Wrapf ''argocd: decode %s manifest: %w'' [AStr kind] err), w)
      | Inr raw \<Rightarrow>
          (case UnmarshalObject mc raw of
             Inl err \<Rightarrow> (Some (Wrapf ''argocd: decode %s manifest: %w'' [AStr kind] err), w)
           | Inr ob \<Rightarrow>
               if GetKind A ob \<noteq> kind then
                 (Some (Errorf ''argocd: manifest kind %q does not match %s'' [AStr (GetKind A ob), AStr kind]), w)
               else if GetName A ob \<noteq> [] \<and> GetName A ob \<noteq> name then
                 (Some (Errorf ''argocd: manifest name %q does not match %q'' [AStr (GetName A ob), AStr name]), w)
               else let ob = SetNamespace A (cl_Namespace c) (SetName A name ob)
                    in upsert A c gvr
                         (SetLabels A ((GetLabels A ob)(argocd_ManagedByLabel \<mapsto> argocd_ManagedByValue)) ob) w))"

definition EnsureApplicationSet ::
  "Accessors \<Rightarrow> ManifestCodec \<Rightarrow> 'w Client \<Rightarrow> string \<Rightarrow> string \<Rightarrow> 'w \<Rightarrow> go_err option \<times> 'w" where
  "EnsureApplicationSet A mc c name manifest w = ensureManifest A mc c ApplicationSetGVR ''ApplicationSet'' name manifest w"

definition EnsureApplicationManifest ::
  "Accessors \<Rightarrow> ManifestCodec \<Rightarrow> 'w Client \<Rightarrow> string \<Rightarrow> string \<Rightarrow> 'w \<Rightarrow> go_err option \<times> 'w" where
  "EnsureApplicationManifest A mc c name manifest w = ensureManifest A mc c ApplicationGVR ''Application'' name manifest w"

section \<open>The API client (api.go)\<close>

record Request =
  rq_Method :: string
  rq_URL :: string
  rq_Body :: "string option"
  rq_Headers :: "string \<Rightarrow> string option"

record Response =
  rs_StatusCode :: int
  rs_Status :: string
  rs_Body :: string

record 'w APIClient =
  ac_BaseURL :: string
  ac_Token :: string
  ac_HTTP :: "Request \<Rightarrow> 'w \<Rightarrow> Response res \<times> 'w"

text \<open>
  \<open>bearer\<close> is the value \<open>WithBearer\<close> put into the context, empty when there is none; \<open>json\<close> is
  \<open>json.Marshal\<close> and \<open>parse_url\<close> the check of \<open>http.NewRequest\<close>.
\<close>

definition api_do ::
  "(obj \<Rightarrow> string res) \<Rightarrow> (string \<Rightarrow> go_err option) \<Rightarrow> 'w APIClient \<Rightarrow> string \<Rightarrow> string \<Rightarrow> string \<Rightarrow> obj option \<Rightarrow>
   'w \<Rightarrow> go_err option \<times> 'w"
where
  "api_do json parse_url c bearer method path body w =
     (case (case body of None \<Rightarrow> Inr None | Some b \<Rightarrow> map_sum id Some (json b)) of
        Inl err \<Rightarrow> (Some err, w)
      | Inr r \<Rightarrow>
          let url = TrimSuffix (ac_BaseURL c) ''/'' @ path
          in (case parse_url url of
                Some err \<Rightarrow> (Some err, w)
              | None \<Rightarrow>
                  let token = (if bearer \<noteq> [] then bearer else ac_Token c);
                      h0 = Map.empty;
                      h1 = (if token \<noteq> [] then h0(''Authorization'' \<mapsto> ''Bearer '' @ token) else h0);
                      h2 = (if body \<noteq> None then h1(''Content-Type'' \<mapsto> ''application/json'') else h1)
                  in (case ac_HTTP c \<lparr>rq_Method = method, rq_URL = url, rq_Body = r, rq_Headers = h2\<rparr> w of
                        (Inl err, w1) \<Rightarrow> (Some err, w1)
                      | (Inr resp, w1) \<Rightarrow>
                          if rs_StatusCode resp \<ge> 300 then
                            (Some (Errorf ''argocd api %s %s: %s: %s''
                               [AStr method, AStr path, AStr (rs_Status resp), AStr (TrimSpace (take 4096 (rs_Body resp)))]), w1)
                          else (None, w1))))"

definition api_Sync ::
  "(obj \<Rightarrow> string res) \<Rightarrow> (string \<Rightarrow> go_err option) \<Rightarrow> 'w APIClient \<Rightarrow> string \<Rightarrow> string \<Rightarrow> obj \<Rightarrow> 'w \<Rightarrow> go_err option \<times> 'w"
where
  "api_Sync json parse_url c bearer name params w =
     api_do json parse_url c bearer ''POST'' (''/api/v1/applications/'' @ name @ ''/sync'')
       (Some ([''name'' \<mapsto> UStr name] ++ params)) w"

definition api_Refresh ::
  "(obj \<Rightarrow> string res) \<Rightarrow> (string \<Rightarrow> go_err option) \<Rightarrow> 'w APIClient \<Rightarrow> string \<Rightarrow> string \<Rightarrow> bool \<Rightarrow> 'w \<Rightarrow> go_err option \<times> 'w"
where
  "api_Refresh json parse_url c bearer name hard w =
     api_do json parse_url c bearer ''GET''
       (''/api/v1/applications/'' @ name @ ''?refresh='' @ (if hard then ''hard'' else ''normal'')) None w"

definition api_Rollback ::
  "(obj \<Rightarrow> string res) \<Rightarrow> (string \<Rightarrow> go_err option) \<Rightarrow> 'w APIClient \<Rightarrow> string \<Rightarrow> string \<Rightarrow> int \<Rightarrow> bool \<Rightarrow> 'w \<Rightarrow> go_err option \<times> 'w"
where
  "api_Rollback json parse_url c bearer name rid dryRun w =
     api_do json parse_url c bearer ''POST'' (''/api/v1/applications/'' @ name @ ''/rollback'')
       (Some [''name'' \<mapsto> UStr name, ''id'' \<mapsto> UInt rid, ''dryRun'' \<mapsto> UBool dryRun]) w"

section \<open>Version strings\<close>

lemma show_nat_hd: "hd (show_nat n) \<noteq> CHR ''-''" "hd (show_nat n) \<noteq> CHR ''+''" "hd (show_nat n) \<noteq> CHR ''v''"
  and show_nat_not_Nil: "show_nat n \<noteq> []" and show_nat_no_dot: "CHR ''.'' \<notin> set (show_nat n)"
proof -
  show ne: "show_nat n \<noteq> []" by (subst show_nat.simps) simp
  then have "is_digit (hd (show_nat n))" using show_nat_digits [of n] by (cases "show_nat n") auto
  then show "hd (show_nat n) \<noteq> CHR ''-''" "hd (show_nat n) \<noteq> CHR ''+''" "hd (show_nat n) \<noteq> CHR ''v''"
    by (auto simp: is_digit_def less_eq_char_def)
  show "CHR ''.'' \<notin> set (show_nat n)"
    using show_nat_digits [of n] by (auto simp: list_all_iff is_digit_def less_eq_char_def)
qed

lemma Atoi_show_nat: "n < 2 ^ 63 \<Longrightarrow> fst (Atoi (show_nat n)) = int n"
proof -
  assume "n < 2 ^ 63"
  then have "int n < 2 ^ 63" by (metis of_nat_less_iff of_nat_numeral of_nat_power)
  then show ?thesis
    using show_nat_digits [of n] by (simp add: Atoi_def ParseInt64_def Let_def show_nat_hd show_nat_not_Nil parse_show_nat)
qed

lemma version_trim: "hd v \<noteq> CHR ''v'' \<Longrightarrow> v \<noteq> [] \<Longrightarrow> TrimPrefix v ''v'' = v"
  by (cases v) (auto simp: TrimPrefix_def HasPrefix_def)

lemma version_split:
  "Split (show_nat a @ ''.'' @ show_nat b @ ''.'' @ show_nat c) (CHR ''.'') = [show_nat a, show_nat b, show_nat c]"
  by (simp add: Split_append Split_no_sep show_nat_no_dot)

lemma line_eq:
  assumes "CHR ''.'' \<notin> set a" "CHR ''.'' \<notin> set b" "CHR ''.'' \<notin> set x" "CHR ''.'' \<notin> set y"
  shows "a @ ''.'' @ b = x @ ''.'' @ y \<longleftrightarrow> a = x \<and> b = y"
proof
  assume "a @ ''.'' @ b = x @ ''.'' @ y"
  then have "Split (a @ ''.'' @ b) (CHR ''.'') = Split (x @ ''.'' @ y) (CHR ''.'')" by simp
  with assms show "a = x \<and> b = y" by (simp add: Split_append Split_no_sep)
qed simp

lemma show_small: "show_nat 3 = ''3''" "show_nat 2 = ''2''" "show_nat 14 = ''14''"
  by code_simp+

lemma minor_version: "minor (show_nat a @ ''.'' @ show_nat b @ ''.'' @ show_nat c) = show_nat a @ ''.'' @ show_nat b"
  using version_split [of a b c] by (simp add: minor_def)

lemma minor_line:
  "show_nat a @ ''.'' @ show_nat b = BundleLine \<longleftrightarrow> a = 3 \<and> b = 3"
  "show_nat a @ ''.'' @ show_nat b = PreviousLine \<longleftrightarrow> a = 2 \<and> b = 14"
  using line_eq [of "show_nat a" "show_nat b" "show_nat 3" "show_nat 3"]
    line_eq [of "show_nat a" "show_nat b" "show_nat 2" "show_nat 14"]
  by (simp_all only: show_nat_inj show_nat_no_dot not_False_eq_True simp_thms)
    (simp_all add: show_small BundleLine_def PreviousLine_def)

lemma InSkew_version:
  assumes "a < 2 ^ 63" "b < 2 ^ 63" "c < 2 ^ 63" and "p = [] \<or> p = ''v''"
  shows "InSkew (p @ show_nat a @ ''.'' @ show_nat b @ ''.'' @ show_nat c) \<longleftrightarrow> a = 3 \<and> b = 3 \<or> a = 2 \<and> b = 14"
proof -
  let ?v = "show_nat a @ ''.'' @ show_nat b @ ''.'' @ show_nat c"
  have trim: "TrimPrefix ?v ''v'' = ?v"
    by (rule version_trim) (simp_all add: show_nat_not_Nil show_nat_hd)
  then have "TrimPrefix (p @ ?v) ''v'' = ?v" using assms(4) TrimPrefix_append [of "''v''" ?v] by auto
  moreover have "versionGE ?v SupportedMin \<longleftrightarrow> parts_GE [show_nat a, show_nat b, show_nat c] [show_nat 2, show_nat 14, show_nat 0]"
  proof -
    have "Split (TrimPrefix SupportedMin ''v'') (CHR ''.'') = [''2'', ''14'', ''0'']" by code_simp
    moreover have "show_nat 0 = ''0''" by code_simp
    ultimately show ?thesis unfolding versionGE_def trim version_split by (simp add: show_small)
  qed
  moreover have "parts_GE [show_nat a, show_nat b, show_nat c] [show_nat 2, show_nat 14, show_nat 0] \<longleftrightarrow>
      a > 2 \<or> a = 2 \<and> b \<ge> 14"
    using assms by (auto simp: Atoi_show_nat Let_def)
  ultimately show ?thesis
    unfolding InSkew_def Let_def by (auto simp: minor_version minor_line simp del: append.simps append_assoc)
qed

text \<open>The shape of a parsed version: three runs of digits.\<close>

lemma take_digits_Some: "take_digits s = Some (ds, r) \<Longrightarrow> ds \<noteq> [] \<and> list_all is_digit ds"
  by (auto simp: take_digits_def Let_def list_all_iff dest: set_takeWhileD split: if_splits)

definition is_version :: "string \<Rightarrow> bool" where
  "is_version v \<longleftrightarrow> (\<exists>a b c. v = a @ ''.'' @ b @ ''.'' @ c \<and> list_all is_digit a \<and> list_all is_digit b
     \<and> list_all is_digit c \<and> a \<noteq> [] \<and> b \<noteq> [] \<and> c \<noteq> [])"

lemma match_version_Some:
  assumes "match_version s = Some v"
  shows "is_version (TrimPrefix v ''v'')"
proof -
  define p where "p = (if HasPrefix s ''v'' then ''v'' else [])"
  then have p: "p = [] \<or> p = ''v''" by simp
  from assms obtain a b c where v: "v = p @ a @ ''.'' @ b @ ''.'' @ c"
    and ds: "a \<noteq> [] \<and> list_all is_digit a" "b \<noteq> [] \<and> list_all is_digit b" "c \<noteq> [] \<and> list_all is_digit c"
    by (auto simp: match_version_def p_def Let_def dest!: take_digits_Some
        split: option.splits list.splits prod.splits if_splits char.splits bool.splits)
  have "hd a \<noteq> CHR ''v''" using ds(1) by (cases a) (auto simp: is_digit_def less_eq_char_def)
  then have "TrimPrefix v ''v'' = a @ ''.'' @ b @ ''.'' @ c"
    using p ds(1) v TrimPrefix_append [of "''v''"] by (auto intro!: version_trim)
  with ds show ?thesis unfolding is_version_def by blast
qed

lemma ParseVersion_version:
  assumes "ParseVersion img = Inr v"
  shows "is_version v"
proof -
  have "find_version s = Some m \<Longrightarrow> is_version (TrimPrefix m ''v'')" for s m
    by (induction s) (auto dest: match_version_Some split: if_splits option.splits)
  with assms show ?thesis by (auto simp: ParseVersion_def split: option.splits)
qed

lemma digits_no_dot: "list_all is_digit ds \<Longrightarrow> CHR ''.'' \<notin> set ds"
  by (auto simp: list_all_iff is_digit_def less_eq_char_def)

lemma InSkew_line:
  assumes "is_version v" and "InSkew v"
  obtains patch where "v = BundleLine @ ''.'' @ patch \<or> v = PreviousLine @ ''.'' @ patch"
proof -
  from assms(1) obtain a b c where v: "v = a @ ''.'' @ b @ ''.'' @ c"
    and ds: "list_all is_digit a" "list_all is_digit b" "list_all is_digit c" "a \<noteq> []"
    unfolding is_version_def by blast
  then have "hd v \<noteq> CHR ''v''" "v \<noteq> []" by (cases a; auto simp: is_digit_def less_eq_char_def)+
  then have "TrimPrefix v ''v'' = v" by (rule version_trim)
  moreover have "minor v = a @ ''.'' @ b"
    using ds by (simp add: v minor_def Split_append Split_no_sep digits_no_dot)
  ultimately have "a @ ''.'' @ b = BundleLine \<or> a @ ''.'' @ b = PreviousLine"
    using assms(2) by (auto simp: InSkew_def Let_def split: if_splits)
  then have "v = BundleLine @ ''.'' @ c \<or> v = PreviousLine @ ''.'' @ c" by (auto simp: v)
  then show thesis by (rule that)
qed

lemma detect_deployments_Some:
  "detect_deployments ds = Inr (Some i) \<Longrightarrow>
     is_version (in_Version i) \<and> (in_Classification i = ClassAdoptable \<longleftrightarrow> InSkew (in_Version i))"
proof (induction ds)
  case (Cons d ds)
  have "container_version cs = Inr v \<Longrightarrow> v \<noteq> [] \<Longrightarrow> is_version v" for cs v
    by (induction cs) (auto dest: ParseVersion_version split: if_splits)
  with Cons show ?case by (auto split: if_splits sum.splits)
qed simp

section \<open>Upserts\<close>

definition managed :: "Accessors \<Rightarrow> obj \<Rightarrow> bool" where
  "managed A ob \<longleftrightarrow> mget (GetLabels A ob) argocd_ManagedByLabel = argocd_ManagedByValue"

text \<open>Every way \<open>upsert\<close> can go, in terms of the calls it makes.\<close>

lemma upsert_cases:
  obtains (unread) err w1 e where "dyn_Get (cl_Dyn c) gvr (cl_Namespace c) (GetName A ob) w = (Inl err, w1)"
      "\<not> IsNotFound err" "upsert A c gvr ob w = (Some e, w1)"
  | (created) err w1 w2 where "dyn_Get (cl_Dyn c) gvr (cl_Namespace c) (GetName A ob) w = (Inl err, w1)"
      "IsNotFound err" "dyn_Create (cl_Dyn c) gvr (cl_Namespace c) ob w1 = (None, w2)" "upsert A c gvr ob w = (None, w2)"
  | (uncreated) err w1 cerr w2 e where "dyn_Get (cl_Dyn c) gvr (cl_Namespace c) (GetName A ob) w = (Inl err, w1)"
      "IsNotFound err" "dyn_Create (cl_Dyn c) gvr (cl_Namespace c) ob w1 = (Some cerr, w2)" "upsert A c gvr ob w = (Some e, w2)"
  | (foreign) ex w1 e where "dyn_Get (cl_Dyn c) gvr (cl_Namespace c) (GetName A ob) w = (Inr ex, w1)"
      "\<not> managed A ex" "upsert A c gvr ob w = (Some e, w1)"
  | (same) ex w1 where "dyn_Get (cl_Dyn c) gvr (cl_Namespace c) (GetName A ob) w = (Inr ex, w1)"
      "managed A ex" "NestedMap A ob [''spec''] = NestedMap A ex [''spec'']" "upsert A c gvr ob w = (None, w1)"
  | (unset) ex w1 e where "dyn_Get (cl_Dyn c) gvr (cl_Namespace c) (GetName A ob) w = (Inr ex, w1)"
      "managed A ex" "SetNestedMap A ex (fst (NestedMap A ob [''spec''])) [''spec''] = Inl e" "upsert A c gvr ob w = (Some e, w1)"
  | (updated) ex w1 up w2 where "dyn_Get (cl_Dyn c) gvr (cl_Namespace c) (GetName A ob) w = (Inr ex, w1)"
      "managed A ex" "SetNestedMap A ex (fst (NestedMap A ob [''spec''])) [''spec''] = Inr up"
      "dyn_Update (cl_Dyn c) gvr (cl_Namespace c) up w1 = (None, w2)" "upsert A c gvr ob w = (None, w2)"
  | (stale) ex w1 up uerr w2 e where "dyn_Get (cl_Dyn c) gvr (cl_Namespace c) (GetName A ob) w = (Inr ex, w1)"
      "managed A ex" "SetNestedMap A ex (fst (NestedMap A ob [''spec''])) [''spec''] = Inr up"
      "dyn_Update (cl_Dyn c) gvr (cl_Namespace c) up w1 = (Some uerr, w2)" "upsert A c gvr ob w = (Some e, w2)"
proof -
  obtain g w1 where g: "dyn_Get (cl_Dyn c) gvr (cl_Namespace c) (GetName A ob) w = (g, w1)" by fastforce
  show thesis
  proof (cases g)
    case (Inl err)
    obtain r w2 where "dyn_Create (cl_Dyn c) gvr (cl_Namespace c) ob w1 = (r, w2)" by fastforce
    with g Inl show thesis using unread created uncreated
      by (cases "IsNotFound err"; cases r; cases "IsForbidden (the r)") (auto simp: upsert_def)
  next
    case (Inr ex)
    show thesis
    proof (cases "managed A ex \<and> NestedMap A ob [''spec''] \<noteq> NestedMap A ex [''spec'']")
      case False
      with g Inr show thesis using foreign same by (auto simp: upsert_def managed_def Let_def split: if_splits)
    next
      case True
      show thesis
      proof (cases "SetNestedMap A ex (fst (NestedMap A ob [''spec''])) [''spec'']")
        case (Inl e)
        with True g Inr show thesis using unset by (auto simp: upsert_def managed_def Let_def)
      next
        case up: (Inr up)
        obtain r w2 where "dyn_Update (cl_Dyn c) gvr (cl_Namespace c) up w1 = (r, w2)" by fastforce
        with True g Inr up show thesis using updated stale
          by (cases r) (auto simp: upsert_def managed_def Let_def)
      qed
    qed
  qed
qed

text \<open>The laws a proof uses, one call at a time.\<close>

lemma dyn_lawsD:
  assumes "dyn_laws A D cur"
  shows "dyn_Get D r ns n w = (Inr ob, w') \<Longrightarrow> cur w (r, ns, n) = Some ob \<and> GetName A ob = n \<and> cur w' = cur w"
    and "dyn_Get D r ns n w = (Inl e, w') \<Longrightarrow> cur w' = cur w \<and> (IsNotFound e \<longrightarrow> cur w (r, ns, n) = None)"
    and "dyn_Create D r ns ob w = (None, w') \<Longrightarrow>
      \<exists>st. cur w' = (cur w)((r, ns, GetName A ob) \<mapsto> st) \<and> GetLabels A st = GetLabels A ob \<and> NestedMap A st [''spec''] = NestedMap A ob [''spec'']"
    and "dyn_Create D r ns ob w = (Some e, w') \<Longrightarrow> cur w' = cur w"
    and "dyn_Update D r ns ob w = (None, w') \<Longrightarrow>
      \<exists>st. cur w' = (cur w)((r, ns, GetName A ob) \<mapsto> st) \<and> GetLabels A st = GetLabels A ob \<and> NestedMap A st [''spec''] = NestedMap A ob [''spec'']"
    and "dyn_Update D r ns ob w = (Some e, w') \<Longrightarrow> cur w' = cur w"
  using assms by (simp_all add: dyn_laws_def)

lemma SetNestedMap_spec:
  assumes "accessor_laws A" and "SetNestedMap A ex m [''spec''] = Inr up"
  shows "GetName A up = GetName A ex" "GetLabels A up = GetLabels A ex" "NestedMap A up [''spec''] = (m, True)"
proof -
  have "up = ex(''spec'' \<mapsto> UMap m)" using assms unfolding accessor_laws_def by (metis Inr_inject)
  then show "GetName A up = GetName A ex" "GetLabels A up = GetLabels A ex" "NestedMap A up [''spec''] = (m, True)"
    using assms(1) unfolding accessor_laws_def by simp_all
qed

lemma upsert_writes_owned:
  assumes "accessor_laws A" and "dyn_laws A (cl_Dyn c) cur" and "upsert A c gvr ob w = (eo, w')"
    and "cur w' k \<noteq> cur w k"
  shows "k = (gvr, cl_Namespace c, GetName A ob) \<and> (\<forall>ex. cur w k = Some ex \<longrightarrow> managed A ex)"
  using assms(3,4)
proof (cases rule: upsert_cases [of c gvr A ob w])
  case (created err w1 w2)
  with assms dyn_lawsD(2,3) [OF assms(2)] show ?thesis by (metis fun_upd_other option.distinct(1) prod.inject)
next
  case (updated ex w1 up w2)
  note g = dyn_lawsD(1) [OF assms(2) updated(1)]
  note u = dyn_lawsD(5) [OF assms(2) updated(4)]
  from g u SetNestedMap_spec(1) [OF assms(1) updated(3)] assms(3,4) updated(2,5) show ?thesis
    by (metis fun_upd_other option.inject prod.inject)
qed (use assms dyn_lawsD [OF assms(2)] in \<open>metis prod.inject\<close>)+

lemma upsert_settles:
  assumes "accessor_laws A" and "dyn_laws A (cl_Dyn c) cur"
    and "managed A ob" and "NestedMap A ob [''spec''] = (spec, True)"
    and "upsert A c gvr ob w = (None, w1)"
  shows "\<exists>st. cur w1 (gvr, cl_Namespace c, GetName A ob) = Some st \<and> managed A st \<and> NestedMap A st [''spec''] = (spec, True)"
  using assms(5)
proof (cases rule: upsert_cases [of c gvr A ob w])
  case (created err w' w2)
  with assms dyn_lawsD(3) [OF assms(2) created(3)] show ?thesis by (auto simp: managed_def)
next
  case (same ex w')
  with assms dyn_lawsD(1) [OF assms(2) same(1)] show ?thesis by auto
next
  case (updated ex w' up w2)
  with assms dyn_lawsD(1) [OF assms(2) updated(1)] dyn_lawsD(5) [OF assms(2) updated(4)] SetNestedMap_spec [OF assms(1) updated(3)]
  show ?thesis by (auto simp: managed_def)
qed simp_all

lemma upsert_again:
  assumes "managed A st" and "NestedMap A st [''spec''] = NestedMap A ob [''spec'']"
    and "dyn_Get (cl_Dyn c) gvr (cl_Namespace c) (GetName A ob) w = (Inr st, w')"
  shows "upsert A c gvr ob w = (None, w')"
  using assms by (simp add: upsert_def managed_def Let_def)

lemma GetLabels_labels:
  assumes "accessor_laws A" and "ob ''metadata'' = Some (UMap m)" and "m ''labels'' = Some (UMap l)"
    and "l k = Some (UStr s)" and "\<forall>k v. l k = Some v \<longrightarrow> (\<exists>s. v = UStr s)"
  shows "GetLabels A ob k = Some s"
  using assms unfolding accessor_laws_def by simp

lemma application_owned:
  assumes "accessor_laws A"
  shows "GetName A (application ns m src) = ra_Name m" and "managed A (application ns m src)"
    and "\<exists>spec. NestedMap A (application ns m src) [''spec''] = (spec, True)"
proof -
  let ?labels = "[argocd_ManagedByLabel \<mapsto> UStr argocd_ManagedByValue, argocd_InstanceLabel \<mapsto> UStr (ra_Name m)]"
  have labels: "?labels argocd_ManagedByLabel = Some (UStr argocd_ManagedByValue)"
    "\<forall>k v. ?labels k = Some v \<longrightarrow> (\<exists>s. v = UStr s)"
    by (simp_all add: argocd_ManagedByLabel_def argocd_InstanceLabel_def)
  obtain md where md: "application ns m src ''metadata'' = Some (UMap md)" "md ''name'' = Some (UStr (ra_Name m))"
    "md ''labels'' = Some (UMap ?labels)" by (simp add: application_def Let_def)
  with assms show "GetName A (application ns m src) = ra_Name m" by (auto simp: accessor_laws_def)
  have "GetLabels A (application ns m src) argocd_ManagedByLabel = Some argocd_ManagedByValue"
    using GetLabels_labels [where ob = "application ns m src" and l = ?labels] assms md(1,3) labels by blast
  then show "managed A (application ns m src)" by (simp add: managed_def mget_def)
  obtain sp where "application ns m src ''spec'' = Some (UMap sp)" by (auto simp: application_def Let_def)
  then show "\<exists>spec. NestedMap A (application ns m src) [''spec''] = (spec, True)"
    using assms by (auto simp: accessor_laws_def)
qed

lemma appproject_name: "accessor_laws A \<Longrightarrow> GetName A (appproject ns name) = name"
  by (simp add: accessor_laws_def appproject_def)

section \<open>The API client\<close>

text \<open>Two transports that agree on every request with the given authorization.\<close>

definition same_under :: "string \<Rightarrow> (Request \<Rightarrow> 'w \<Rightarrow> Response res \<times> 'w) \<Rightarrow> (Request \<Rightarrow> 'w \<Rightarrow> Response res \<times> 'w) \<Rightarrow> bool" where
  "same_under token http http' \<longleftrightarrow>
     (\<forall>rq. rq_Headers rq ''Authorization'' = Some (''Bearer '' @ token) \<longrightarrow> http rq = http' rq)"

lemma api_do_bearer:
  assumes "bearer \<noteq> []" and "same_under bearer http http'"
  shows "api_do json pu (c\<lparr>ac_HTTP := http, ac_Token := t\<rparr>) bearer m p body w =
         api_do json pu (c\<lparr>ac_HTTP := http', ac_Token := t'\<rparr>) bearer m p body w"
proof -
  have "http \<lparr>rq_Method = m, rq_URL = u, rq_Body = r, rq_Headers = h\<rparr> = http' \<lparr>rq_Method = m, rq_URL = u, rq_Body = r, rq_Headers = h\<rparr>"
    if "h ''Authorization'' = Some (''Bearer '' @ bearer)" for u r h
    using assms(2) that by (simp add: same_under_def)
  with assms(1) show ?thesis
    by (simp add: api_do_def Let_def cong: if_cong split: sum.split option.split)
qed

lemma api_calls_bearer:
  assumes "bearer \<noteq> []" and "same_under bearer http http'"
  shows "api_Sync json pu (c\<lparr>ac_HTTP := http, ac_Token := t\<rparr>) bearer n ps w =
         api_Sync json pu (c\<lparr>ac_HTTP := http', ac_Token := t'\<rparr>) bearer n ps w"
    and "api_Refresh json pu (c\<lparr>ac_HTTP := http, ac_Token := t\<rparr>) bearer n hard w =
         api_Refresh json pu (c\<lparr>ac_HTTP := http', ac_Token := t'\<rparr>) bearer n hard w"
    and "api_Rollback json pu (c\<lparr>ac_HTTP := http, ac_Token := t\<rparr>) bearer n rid dry w =
         api_Rollback json pu (c\<lparr>ac_HTTP := http', ac_Token := t'\<rparr>) bearer n rid dry w"
  unfolding api_Sync_def api_Refresh_def api_Rollback_def by (rule api_do_bearer [OF assms])+

section \<open>Inputs to evaluate on\<close>

definition sample_deployment :: Deployment where
  "sample_deployment =
     \<lparr>dp_Name = ''argocd-server'', dp_Namespace = ''tools'', dp_Labels = Map.empty,
      dp_Containers = [\<lparr>c_Name = ''argocd-server'', c_Image = ''quay.io/argoproj/argocd:v2.14.11''\<rparr>]\<rparr>"

definition sample_register :: RegisterArgoCDApp where
  "sample_register =
     \<lparr>ra_CommandId = ''c1'', ra_Name = ''orders'', ra_Project = [],
      ra_Source = Some \<lparr>as_RepoUrl = ''https://git/state'', as_TargetRevision = [], as_Chart = [], as_Path = ''orders''\<rparr>,
      ra_DestinationServer = [], ra_DestinationNamespace = ''team'', ra_SyncPolicy = None\<rparr>"

definition sample_application :: obj where
  "sample_application = application ''argocd'' sample_register (the (ra_Source sample_register))"

lemma sample_application_name [simp]: "GetName ref_accessors sample_application = ''orders''"
  using application_owned(1) [OF ref_accessors_laws] by (simp add: sample_application_def sample_register_def)

lemma sample_created:
  "upsert ref_accessors (NewClient mem_dyn ''argocd'') ApplicationGVR sample_application Map.empty =
     (None, [(ApplicationGVR, ''argocd'', ''orders'') \<mapsto> sample_application])"
  by (simp add: upsert_def NewClient_def mem_dyn_def)

lemma sample_detected:
  "\<exists>i. Detect (\<lambda>w. (Inr [sample_deployment], w)) () = (Inr (Some i), ()) \<and> in_Namespace i = ''tools''
      \<and> in_Classification i = ClassAdoptable"
proof -
  have "ParseVersion ''quay.io/argoproj/argocd:v2.14.11'' = Inr ''2.14.11''" by code_simp
  moreover have "InSkew ''2.14.11''" by code_simp
  ultimately show ?thesis by (simp add: Detect_def sample_deployment_def)
qed

section \<open>Properties\<close>

text \<open>
  The skew policy accepts exactly two release lines: a version with numeric parts, with or
  without its leading v, is in skew iff its line is 3.3 or 2.14. Older, newer and intermediate
  lines are refused.
\<close>

theorem skew_exactly_two_lines:
  assumes "major < 2 ^ 63" "mnr < 2 ^ 63" "patch < 2 ^ 63" and "p = [] \<or> p = ''v''"
  shows "InSkew (p @ show_nat major @ ''.'' @ show_nat mnr @ ''.'' @ show_nat patch) \<longleftrightarrow>
           (major, mnr) = (3, 3) \<or> (major, mnr) = (2, 14)"
  using InSkew_version [OF assms] by simp

theorem skew_exactly_two_lines_witness:
  "InSkew (''v'' @ show_nat 2 @ ''.'' @ show_nat 14 @ ''.'' @ show_nat 11)
   \<and> \<not> InSkew ([] @ show_nat 3 @ ''.'' @ show_nat 0 @ ''.'' @ show_nat 6)"
  using skew_exactly_two_lines [of 2 14 11 "''v''"] skew_exactly_two_lines [of 3 0 6 "[]"] by simp

text \<open>
  C21. The gate never changes a cluster that has an installation, and it passes only an
  installation of a supported line: when a deployment is detected, \<open>EnsureReady\<close> makes no call
  after the detection, and a namespace it returns is the one of an adoptable installation whose
  version is on line 3.3 or 2.14. Without an installation it passes only in bundle mode, after
  applying the configured manifests.
\<close>

theorem gate_respects_installation:
  assumes "Detect listD w = (Inr inst, w1)" and "EnsureReady listD install l w = (r, w')"
  shows "case inst of
      Some i \<Rightarrow> w' = w1 \<and> (\<forall>ns. r = Inr ns \<longrightarrow> ns = in_Namespace i \<and> in_Classification i = ClassAdoptable
                  \<and> (\<exists>patch. in_Version i = BundleLine @ ''.'' @ patch \<or> in_Version i = PreviousLine @ ''.'' @ patch))
    | None \<Rightarrow> (\<forall>ns. r = Inr ns \<longrightarrow> lc_Mode l \<noteq> ModeBYO \<and> lc_Manifests l \<noteq> [] \<and> install (lc_Manifests l) ns w1 = (None, w'))"
proof (cases inst)
  case None
  with assms show ?thesis by (auto simp: EnsureReady_def Let_def ModeBYO_def split: if_splits prod.splits option.splits)
next
  case (Some i)
  with assms(1) have "is_version (in_Version i)" "in_Classification i = ClassAdoptable \<longleftrightarrow> InSkew (in_Version i)"
    using detect_deployments_Some by (fastforce simp: Detect_def split: prod.splits sum.splits)+
  moreover have "w' = w1" "\<forall>ns. r = Inr ns \<longrightarrow> ns = in_Namespace i \<and> in_Classification i = ClassAdoptable"
    using assms Some by (auto simp: EnsureReady_def Let_def split: if_splits)
  ultimately show ?thesis using Some InSkew_line [of "in_Version i"] by (cases r) auto
qed

theorem gate_respects_installation_witness:
  "\<exists>i patch. Detect (\<lambda>w. (Inr [sample_deployment], w)) () = (Inr (Some i), ())
     \<and> EnsureReady (\<lambda>w. (Inr [sample_deployment], w)) (\<lambda>m ns w. (None, w)) \<lparr>lc_Mode = ''byo'', lc_Namespace = [], lc_Manifests = []\<rparr> ()
         = (Inr ''tools'', ())
     \<and> (in_Version i = BundleLine @ ''.'' @ patch \<or> in_Version i = PreviousLine @ ''.'' @ patch)"
proof -
  let ?l = "\<lparr>lc_Mode = ''byo'', lc_Namespace = [], lc_Manifests = []\<rparr>"
  obtain i where 1: "Detect (\<lambda>w. (Inr [sample_deployment], w)) () = (Inr (Some i), ())" "in_Namespace i = ''tools''"
    "in_Classification i = ClassAdoptable" using sample_detected by blast
  then have 2: "EnsureReady (\<lambda>w. (Inr [sample_deployment], w)) (\<lambda>m ns w. (None, w)) ?l () = (Inr ''tools'', ())"
    by (simp add: EnsureReady_def ModeBYO_def)
  from gate_respects_installation [OF 1(1) 2] 1 2 show ?thesis by auto
qed

text \<open>
  C20. Brownfield objects are never changed: whatever \<open>upsert\<close> returns, the only committed object
  it can have changed is the one with the requested name, and only if that object did not
  exist or carries the Inari ownership label.
\<close>

theorem upsert_respects_ownership:
  assumes "accessor_laws A" and "dyn_laws A (cl_Dyn c) cur" and "upsert A c gvr ob w = (eo, w')"
    and "cur w' k \<noteq> cur w k"
  shows "k = (gvr, cl_Namespace c, GetName A ob)
    \<and> (case cur w k of None \<Rightarrow> True | Some ex \<Rightarrow> mget (GetLabels A ex) argocd_ManagedByLabel = argocd_ManagedByValue)"
  using upsert_writes_owned [OF assms] by (simp add: managed_def split: option.split)

theorem upsert_respects_ownership_witness:
  "let r = upsert ref_accessors (NewClient mem_dyn ''argocd'') ApplicationGVR sample_application Map.empty;
       k = (ApplicationGVR, ''argocd'', ''orders'')
   in snd r k \<noteq> None \<and> k = (ApplicationGVR, cl_Namespace (NewClient mem_dyn ''argocd''), GetName ref_accessors sample_application)"
proof -
  have "dyn_laws ref_accessors (cl_Dyn (NewClient mem_dyn ''argocd'')) (\<lambda>w. w)"
    by (simp add: NewClient_def mem_dyn_laws)
  from upsert_respects_ownership [OF ref_accessors_laws this sample_created, of "(ApplicationGVR, ''argocd'', ''orders'')"]
  show ?thesis unfolding sample_created Let_def by simp
qed

text \<open>
  Registering an application is idempotent: after \<open>EnsureApplication\<close> succeeded, the committed
  Application carries the ownership label and the requested spec, and a second registration
  that can read it succeeds without writing anything.
\<close>

theorem register_application_idempotent:
  assumes "accessor_laws A" and "dyn_laws A D cur"
    and "EnsureApplication A (NewClient D ns) m w = (None, w1)"
    and "dyn_Get D ApplicationGVR ns (ra_Name m) w1 = (Inr ex, w2)"
  shows "\<exists>src. ra_Source m = Some src \<and> managed A ex
    \<and> NestedMap A ex [''spec''] = NestedMap A (application ns m src) [''spec'']
    \<and> EnsureApplication A (NewClient D ns) m w1 = (None, w2)"
proof -
  let ?c = "NewClient D ns"
  from assms(3) obtain src where src: "ra_Source m = Some src" "ra_Name m \<noteq> []" "as_RepoUrl src \<noteq> []"
    and up: "upsert A ?c ApplicationGVR (application ns m src) w = (None, w1)"
    by (auto simp: EnsureApplication_def NewClient_def split: option.splits if_splits)
  obtain spec where spec: "NestedMap A (application ns m src) [''spec''] = (spec, True)"
    using application_owned(3) [OF assms(1)] by blast
  have D: "dyn_laws A (cl_Dyn ?c) cur" and ns: "cl_Namespace ?c = ns" "cl_Dyn ?c = D"
    using assms(2) by (simp_all add: NewClient_def)
  from upsert_settles [OF assms(1) D application_owned(2) [OF assms(1)] spec up]
  have "managed A ex \<and> NestedMap A ex [''spec''] = (spec, True)"
    using dyn_lawsD(1) [OF assms(2,4)] application_owned(1) [OF assms(1)] ns by auto
  moreover from this have "upsert A ?c ApplicationGVR (application ns m src) w1 = (None, w2)"
    using upsert_again [of A ex "application ns m src" ?c ApplicationGVR w1 w2] spec assms(4) application_owned(1) [OF assms(1)] ns
    by simp
  ultimately show ?thesis using src spec ns by (simp add: EnsureApplication_def)
qed

theorem register_application_idempotent_witness:
  "\<exists>w1. EnsureApplication ref_accessors (NewClient mem_dyn ''argocd'') sample_register Map.empty = (None, w1)
      \<and> EnsureApplication ref_accessors (NewClient mem_dyn ''argocd'') sample_register w1 = (None, w1)"
proof -
  let ?w1 = "[(ApplicationGVR, ''argocd'', ''orders'') \<mapsto> sample_application]"
  have 1: "EnsureApplication ref_accessors (NewClient mem_dyn ''argocd'') sample_register Map.empty = (None, ?w1)"
    using sample_created by (simp add: EnsureApplication_def sample_application_def sample_register_def NewClient_def)
  have 2: "dyn_Get mem_dyn ApplicationGVR ''argocd'' (ra_Name sample_register) ?w1 = (Inr sample_application, ?w1)"
    by (simp add: mem_dyn_def sample_register_def)
  from register_application_idempotent [OF ref_accessors_laws mem_dyn_laws 1 2] 1 show ?thesis by blast
qed

end
