(* ===== verification/Command_Handlers.thy ===== *)
theory Command_Handlers
  imports Command_Journal Render ArgoCD
begin

text \<open>
  The command handlers of \<open>internal/command\<close>: rendering and committing to the state repository
  (\<open>handlers_gitops.go\<close>), secret stores (\<open>handlers_secretstore.go\<close>), ArgoCD registration
  (\<open>handlers_argocd.go\<close>), imperative actions with per-user credentials (\<open>handlers_action.go\<close>) and
  the redemption of a credential reference (\<open>redeem.go\<close>).

  \<open>GitOpsDeps\<close> is shared by pointer and rebound by \<open>GitopsConfigUpdateHandler\<close>: its state repository
  is part of the state the GitOps handlers run on (\<open>GitOpsState\<close>), next to the external world
  \<open>'w\<close> the git provider and the API server act on. The deadline of a context shows only in the
  errors the external calls return.
\<close>

section \<open>Shared state and helpers (handlers_gitops.go)\<close>

record 'w GitOpsState =
  go_DefaultStateRepo :: string
  go_ext :: 'w

type_synonym outcome = "CommandResult \<times> message \<times> go_err option"

text \<open>Run an operation on the external world.\<close>

definition on_ext :: "('w \<Rightarrow> 'a \<times> 'w) \<Rightarrow> 'w GitOpsState \<Rightarrow> 'a \<times> 'w GitOpsState" where
  "on_ext f s = (case f (go_ext s) of (r, w) \<Rightarrow> (r, s\<lparr>go_ext := w\<rparr>))"

text \<open>\<open>Payload.UnmarshalTo\<close>, with the error of protobuf on a nil payload.\<close>

definition unmarshal :: "('p \<Rightarrow> 'm res) \<Rightarrow> 'p option \<Rightarrow> 'm res" where
  "unmarshal dec payload =
     (case payload of None \<Rightarrow> Inl (ExtError ''proto: invalid nil source message'') | Some p \<Rightarrow> dec p)"

definition decode_failed :: "go_err \<Rightarrow> outcome" where
  "decode_failed err = (COMMAND_RESULT_FAILED, Text [], Some (Wrapf ''decode: %w'' [] err))"

definition failed :: "message \<Rightarrow> outcome" where
  "failed m = (COMMAND_RESULT_FAILED, m, None)"

definition applied :: "message \<Rightarrow> outcome" where
  "applied m = (COMMAND_RESULT_APPLIED, m, None)"

definition retryable :: "go_err \<Rightarrow> outcome" where
  "retryable err = (COMMAND_RESULT_UNSPECIFIED, Text [], Some err)"

definition resolveTarget :: "string \<Rightarrow> Target option \<Rightarrow> Target res" where
  "resolveTarget defaultStateRepo t =
     (let gt = (case t of None \<Rightarrow> \<lparr>t_Repo = [], t_Path = [], t_Branch = []\<rparr> | Some t \<Rightarrow> t)
      in if t_Repo gt \<noteq> [] \<and> t_Repo gt \<noteq> defaultStateRepo then
           Inl (Errorf ''target repo %q is not the platform-owned state repo %q'' [AStr (t_Repo gt), AStr defaultStateRepo])
         else Validate gt defaultStateRepo)"

fun validateFiles :: "File list \<Rightarrow> go_err option" where
  "validateFiles [] = None"
| "validateFiles (f # fs) = (case ValidateFilePath (f_Path f) of Some err \<Rightarrow> Some err | None \<Rightarrow> validateFiles fs)"

definition commit ::
  "'w Provider \<Rightarrow> Target \<Rightarrow> File list \<Rightarrow> CommitPolicy \<Rightarrow> string \<Rightarrow> string \<Rightarrow> 'w \<Rightarrow> string res \<times> 'w"
where
  "commit P target files policy commandID message w =
     (if policy = COMMIT_POLICY_PULL_REQUEST then
        (case OpenPR P target files (''inari/'' @ commandID) message (''Rendered by inari-agent (command '' @ commandID @ '').'') w of
           (Inl err, w1) \<Rightarrow> (Inl err, w1)
         | (Inr prURL, w1) \<Rightarrow> (Inr (''pull request: '' @ prURL), w1))
      else
        (case CommitFiles P target files message w of
           (Inl err, w1) \<Rightarrow> (Inl err, w1)
         | (Inr (sha, changed), w1) \<Rightarrow>
             if \<not> changed then (Inr (''commit '' @ sha @ '' (no changes)''), w1)
             else (Inr (''commit '' @ sha), w1)))"

text \<open>The common end of the rendering handlers: validate the files, then commit them.\<close>

definition validate_commit ::
  "'w Provider \<Rightarrow> Target \<Rightarrow> File list \<Rightarrow> CommitPolicy \<Rightarrow> string \<Rightarrow> string \<Rightarrow> 'w GitOpsState \<Rightarrow> outcome \<times> 'w GitOpsState"
where
  "validate_commit P target files policy commandID message s =
     (case validateFiles files of
        Some err \<Rightarrow> (failed (ErrText err), s)
      | None \<Rightarrow>
          (case on_ext (commit P target files policy commandID message) s of
             (Inl err, s1) \<Rightarrow> (retryable err, s1)
           | (Inr out, s1) \<Rightarrow> (applied (Text out), s1)))"

section \<open>GitOps handlers (handlers_gitops.go)\<close>

definition RenderRGDInstanceHandler ::
  "'p Codec \<Rightarrow> Accessors \<Rightarrow> (obj \<Rightarrow> string res) \<Rightarrow> (string \<Rightarrow> 'w \<Rightarrow> obj res \<times> 'w) \<Rightarrow> 'w Provider \<Rightarrow> ('p, 'w GitOpsState) KindHandler"
where
  "RenderRGDInstanceHandler cd A yaml getter P ev s =
     (case unmarshal (dec_RenderRgdInstance cd) (ev_Payload ev) of
        Inl err \<Rightarrow> (decode_failed err, s)
      | Inr m \<Rightarrow>
          (case resolveTarget (go_DefaultStateRepo s) (rg_Target m) of
             Inl err \<Rightarrow> (failed (ErrText err), s)
           | Inr target \<Rightarrow>
               let params = (case rg_Parameters m of None \<Rightarrow> Map.empty | Some ps \<Rightarrow> ps)
               in (case on_ext (RenderRGDInstance A yaml getter (rg_RgdRef m) (rg_InstanceName m) (rg_TargetNamespace m) params) s of
                     (Inl err, s1) \<Rightarrow> (failed (ErrText err), s1)
                   | (Inr files, s1) \<Rightarrow>
                       validate_commit P target files (rg_Policy m) (rg_CommandId m)
                         (''inari: render '' @ rg_RgdRef m @ '' instance '' @ rg_InstanceName m) s1)))"

definition GitopsConfigUpdateHandler ::
  "'p Codec \<Rightarrow> 'w ConfigMaps \<Rightarrow> ('p, 'w GitOpsState) KindHandler"
where
  "GitopsConfigUpdateHandler cd K ev s =
     (case unmarshal (dec_GitopsConfigUpdate cd) (ev_Payload ev) of
        Inl err \<Rightarrow> (decode_failed err, s)
      | Inr m \<Rightarrow>
          if gc_BaselineRepo m = [] then (failed (Text ''baseline_repo must not be empty''), s)
          else case Validate \<lparr>t_Repo = gc_BaselineRepo m, t_Path = [], t_Branch = []\<rparr> ''x/y'' of
            Inl err \<Rightarrow> (failed (SprintfErr ''invalid baseline_repo: %v'' [] err), s)
          | Inr _ \<Rightarrow>
              if gc_BaselineRepo m = go_DefaultStateRepo s then (applied (Text ''no change''), s)
              else (case on_ext (cm_Get K ''inari-agent-registration'') s of
                 (Inl err, s1) \<Rightarrow> (failed (SprintfErr ''get registration ConfigMap: %v'' [] err), s1)
               | (Inr cm, s1) \<Rightarrow>
                   let cm1 = cm\<lparr>cm_Data := Some (fmupd ''baseline-repo'' (gc_BaselineRepo m) (data_of cm))\<rparr>
                   in (case on_ext (cm_Update K cm1) s1 of
                         (Some err, s2) \<Rightarrow> (failed (SprintfErr ''update registration ConfigMap: %v'' [] err), s2)
                       | (None, s2) \<Rightarrow>
                           (applied (Text (''rebound to '' @ gc_BaselineRepo m)),
                            s2\<lparr>go_DefaultStateRepo := gc_BaselineRepo m\<rparr>))))"

definition bundle_ref :: "ApplyBundle \<Rightarrow> BundleRef" where
  "bundle_ref m =
     \<lparr>br_OCIRef = (case ab_Source m of Some (OciRef r) \<Rightarrow> r | _ \<Rightarrow> []),
      br_GitURL = (case ab_Source m of Some (GitUrl u) \<Rightarrow> u | _ \<Rightarrow> []),
      br_Checksum = ab_Checksum m\<rparr>"

definition ApplyBundleHandler ::
  "'p Codec \<Rightarrow> (BundleRef \<Rightarrow> 'w \<Rightarrow> File list res \<times> 'w) \<Rightarrow> 'w Provider \<Rightarrow> ('p, 'w GitOpsState) KindHandler"
where
  "ApplyBundleHandler cd fetch P ev s =
     (case unmarshal (dec_ApplyBundle cd) (ev_Payload ev) of
        Inl err \<Rightarrow> (decode_failed err, s)
      | Inr m \<Rightarrow>
          (case resolveTarget (go_DefaultStateRepo s) (ab_Target m) of
             Inl err \<Rightarrow> (failed (ErrText err), s)
           | Inr target \<Rightarrow>
               (case on_ext (fetch (bundle_ref m)) s of
                  (Inl err, s1) \<Rightarrow> (failed (ErrText err), s1)
                | (Inr files, s1) \<Rightarrow>
                    validate_commit P target files (ab_Policy m) (ab_CommandId m) ''inari: apply bundle'' s1)))"

section \<open>Secret stores (handlers_secretstore.go)\<close>

definition ref_name :: "SecretKeyRef option \<Rightarrow> string" where
  "ref_name r = (case r of None \<Rightarrow> [] | Some k \<Rightarrow> sk_Name k)"

definition ref_namespace :: "SecretKeyRef option \<Rightarrow> string" where
  "ref_namespace r = (case r of None \<Rightarrow> [] | Some k \<Rightarrow> sk_Namespace k)"

definition no_provider :: SecretStoreProvider where
  "no_provider = \<lparr>ss_Kind = [], ss_Region = [], ss_Server = [], ss_Path = [], ss_ProjectID = [], ss_VaultURL = [],
     ss_TenantID = [], ss_AuthName = [], ss_AuthNamespace = []\<rparr>"

definition providerFromProto :: "SecretStoreApply \<Rightarrow> SecretStoreProvider res" where
  "providerFromProto m =
     (case sa_Provider m of
        Some (AwsSm region r) \<Rightarrow>
          Inr (no_provider\<lparr>ss_Kind := ''awsSM'', ss_Region := region, ss_AuthName := ref_name r, ss_AuthNamespace := ref_namespace r\<rparr>)
      | Some (Vault server path r) \<Rightarrow>
          Inr (no_provider\<lparr>ss_Kind := ''vault'', ss_Server := server, ss_Path := path,
                 ss_AuthName := ref_name r, ss_AuthNamespace := ref_namespace r\<rparr>)
      | Some (GcpSm project r) \<Rightarrow>
          Inr (no_provider\<lparr>ss_Kind := ''gcpsm'', ss_ProjectID := project, ss_AuthName := ref_name r, ss_AuthNamespace := ref_namespace r\<rparr>)
      | Some (AzureKv url tenant r) \<Rightarrow>
          Inr (no_provider\<lparr>ss_Kind := ''azurekv'', ss_VaultURL := url, ss_TenantID := tenant,
                 ss_AuthName := ref_name r, ss_AuthNamespace := ref_namespace r\<rparr>)
      | None \<Rightarrow> Inl (Errorf ''secret store %q: no provider set'' [AStr (sa_Name m)]))"

definition SecretStoreApplyHandler ::
  "'p Codec \<Rightarrow> (obj \<Rightarrow> string res) \<Rightarrow> 'w Provider \<Rightarrow> ('p, 'w GitOpsState) KindHandler"
where
  "SecretStoreApplyHandler cd yaml P ev s =
     (case unmarshal (dec_SecretStoreApply cd) (ev_Payload ev) of
        Inl err \<Rightarrow> (decode_failed err, s)
      | Inr m \<Rightarrow>
          (case resolveTarget (go_DefaultStateRepo s) (sa_Target m) of
             Inl err \<Rightarrow> (failed (ErrText err), s)
           | Inr target \<Rightarrow>
               (case providerFromProto m of
                  Inl err \<Rightarrow> (failed (ErrText err), s)
                | Inr provider \<Rightarrow>
                    (case RenderSecretStore yaml (sa_Name m) (sa_Scope m) provider of
                       Inl err \<Rightarrow> (failed (ErrText err), s)
                     | Inr files \<Rightarrow>
                         validate_commit P target files (sa_Policy m) (sa_CommandId m)
                           (''inari: apply secret store '' @ sa_Name m) s))))"

definition SecretStoreDeleteHandler :: "'p Codec \<Rightarrow> 'w Provider \<Rightarrow> ('p, 'w GitOpsState) KindHandler" where
  "SecretStoreDeleteHandler cd P ev s =
     (case unmarshal (dec_SecretStoreDelete cd) (ev_Payload ev) of
        Inl err \<Rightarrow> (decode_failed err, s)
      | Inr m \<Rightarrow>
          (case resolveTarget (go_DefaultStateRepo s) (sd_Target m) of
             Inl err \<Rightarrow> (failed (ErrText err), s)
           | Inr target \<Rightarrow>
               let path = sd_Name m @ ''.yaml''
               in (case ValidateFilePath path of
                     Some err \<Rightarrow> (failed (ErrText err), s)
                   | None \<Rightarrow>
                       if sd_Policy m = COMMIT_POLICY_PULL_REQUEST then
                         (failed (Text ''pull-request policy is not supported for secret store deletes''), s)
                       else (case on_ext (DeleteFiles P target [path] (''inari: delete secret store '' @ sd_Name m)) s of
                               (Inl err, s1) \<Rightarrow> (retryable err, s1)
                             | (Inr (sha, changed), s1) \<Rightarrow>
                                 if \<not> changed then (applied (Text ''already absent''), s1)
                                 else (applied (Text (''commit '' @ sha)), s1)))))"

section \<open>Credential redemption (redeem.go)\<close>

definition RedeemError_text :: "redeem_code \<Rightarrow> string" where
  "RedeemError_text c =
     (case c of
        RedeemNotFound \<Rightarrow> ''user credential not found or revoked''
      | RedeemExpired \<Rightarrow> ''user credential expired''
      | RedeemAlreadyRedeemed \<Rightarrow> ''user credential already redeemed''
      | RedeemInvalid \<Rightarrow> ''user credential reference invalid''
      | RedeemDenied \<Rightarrow> ''user credential redemption denied''
      | RedeemOther \<Rightarrow> ''user credential redemption failed'')"

definition Terminal :: "redeem_code \<Rightarrow> bool" where
  "Terminal c = True"

definition classifyRedeemError :: "go_err \<Rightarrow> go_err" where
  "classifyRedeemError err =
     (case as_connect_error err of
        None \<Rightarrow> err
      | Some code \<Rightarrow>
          (case code of
             CodeNotFound \<Rightarrow> RedeemError RedeemNotFound
           | CodeFailedPrecondition \<Rightarrow> RedeemError RedeemExpired
           | CodeAlreadyExists \<Rightarrow> RedeemError RedeemAlreadyRedeemed
           | CodeInvalidArgument \<Rightarrow> RedeemError RedeemInvalid
           | CodePermissionDenied \<Rightarrow> RedeemError RedeemDenied
           | CodeUnauthenticated \<Rightarrow> RedeemError RedeemDenied
           | CodeOther \<Rightarrow> err))"

text \<open>\<open>rpc\<close> is the \<open>RedeemUserCredential\<close> call: the bearer token and the expiry (0 when unset).\<close>

definition Redeem ::
  "(string \<Rightarrow> 'w \<Rightarrow> (string \<times> int option) res \<times> 'w) \<Rightarrow> string \<Rightarrow> 'w \<Rightarrow> (string \<times> int) res \<times> 'w"
where
  "Redeem rpc ref w =
     (case rpc ref w of
        (Inl err, w1) \<Rightarrow> (Inl (classifyRedeemError err), w1)
      | (Inr (bearer, expiresAt), w1) \<Rightarrow> (Inr (bearer, (case expiresAt of None \<Rightarrow> 0 | Some t \<Rightarrow> t)), w1))"

section \<open>Imperative actions (handlers_action.go)\<close>

record 'w InvokeActionDeps =
  iad_API :: "'w APIClient"
  iad_Dyn :: "'w Dyn"
  iad_Namespace :: string
  iad_ResolveNamespace :: "('w \<Rightarrow> string res \<times> 'w) option"
  iad_Redeemer :: "(string \<Rightarrow> 'w \<Rightarrow> (string \<times> int) res \<times> 'w) option"

definition allowedActions :: "string \<Rightarrow> bool" where
  "allowedActions a \<longleftrightarrow> a = ''sync'' \<or> a = ''refresh'' \<or> a = ''rollback''"

text \<open>
  The conversion of a \<open>float64\<close> truncates; out of range it is left to the implementation
  (the value given here is the one of amd64). \<open>Sscan\<close> is \<open>fmt.Sscan\<close> into an \<open>int64\<close>: the value and
  whether there was no error.
\<close>

definition float_to_int64 :: "rat \<Rightarrow> int" where
  "float_to_int64 r =
     (let n = (if r \<ge> 0 then \<lfloor>r\<rfloor> else \<lceil>r\<rceil>) in if - (2 ^ 63) \<le> n \<and> n < 2 ^ 63 then n else - (2 ^ 63))"

definition toInt64 :: "(string \<Rightarrow> int \<times> bool) \<Rightarrow> uval option \<Rightarrow> int \<times> bool" where
  "toInt64 Sscan v =
     (case v of
        Some (UNum r) \<Rightarrow> (float_to_int64 r, True)
      | Some (UInt n) \<Rightarrow> (n, True)
      | Some (UStr s) \<Rightarrow> Sscan s
      | _ \<Rightarrow> (0, False))"

definition bool_param :: "obj \<Rightarrow> string \<Rightarrow> bool" where
  "bool_param params k = (case params k of Some (UBool b) \<Rightarrow> b | _ \<Rightarrow> False)"

text \<open>
  The part of the handler from the credential on: \<open>bearer\<close> is what the context carries, empty
  when the command has no credential reference.
\<close>

definition invoke_api ::
  "(obj \<Rightarrow> string res) \<Rightarrow> (string \<Rightarrow> go_err option) \<Rightarrow> (string \<Rightarrow> int \<times> bool) \<Rightarrow> 'w APIClient \<Rightarrow> string \<Rightarrow> string \<Rightarrow>
   string \<Rightarrow> obj \<Rightarrow> 'w \<Rightarrow> outcome \<times> 'w"
where
  "invoke_api json parse_url Sscan api bearer action name params w =
     (let finish = (\<lambda>(err, w1).
            (case err of
               Some e \<Rightarrow> (retryable (Wrapf ''invoke %s on %s: %w'' [AStr action, AStr name] e), w1)
             | None \<Rightarrow> (applied (Text (action @ '' invoked on application '' @ name)), w1)))
      in if action = ''sync'' then finish (api_Sync json parse_url api bearer name params w)
         else if action = ''refresh'' then finish (api_Refresh json parse_url api bearer name (bool_param params ''hard'') w)
         else if action = ''rollback'' then
           (case toInt64 Sscan (params ''id'') of
              (rid, ok) \<Rightarrow>
                if \<not> ok then (failed (Text ''rollback needs numeric parameter id''), w)
                else finish (api_Rollback json parse_url api bearer name rid (bool_param params ''dryRun'') w))
         else finish (None, w))"

definition redeem_bearer ::
  "'w InvokeActionDeps \<Rightarrow> string \<Rightarrow> 'w \<Rightarrow> (outcome + string) \<times> 'w"
where
  "redeem_bearer deps ref w =
     (if ref = [] then (Inr [], w)
      else case iad_Redeemer deps of
        None \<Rightarrow> (Inl (failed (Text ''per-user credentials not configured on this agent; refusing user-scoped action'')), w)
      | Some redeem \<Rightarrow>
          (case redeem ref w of
             (Inl rerr, w1) \<Rightarrow>
               (case as_redeem_error rerr of
                  Some c \<Rightarrow> if Terminal c then (Inl (failed (Text (RedeemError_text c))), w1)
                           else (Inl (retryable (Wrapf ''redeem user credential: %w'' [] rerr)), w1)
                | None \<Rightarrow> (Inl (retryable (Wrapf ''redeem user credential: %w'' [] rerr)), w1))
           | (Inr (bearer, expiresAt), w1) \<Rightarrow>
               if bearer = [] then (Inl (failed (Text ''user credential redemption returned no token'')), w1)
               else (Inr bearer, w1)))"

text \<open>The namespace of the installation: resolved per invocation when a resolver is set.\<close>

definition resolve_namespace :: "'w InvokeActionDeps \<Rightarrow> 'w \<Rightarrow> string res \<times> 'w" where
  "resolve_namespace deps w =
     (case iad_ResolveNamespace deps of None \<Rightarrow> (Inr (iad_Namespace deps), w) | Some f \<Rightarrow> f w)"

definition InvokeActionHandler ::
  "'p Codec \<Rightarrow> Accessors \<Rightarrow> (obj \<Rightarrow> string res) \<Rightarrow> (string \<Rightarrow> go_err option) \<Rightarrow> (string \<Rightarrow> int \<times> bool) \<Rightarrow>
   'w InvokeActionDeps \<Rightarrow> ('p, 'w) KindHandler"
where
  "InvokeActionHandler cd A json parse_url Sscan deps ev w =
     (case unmarshal (dec_InvokeAction cd) (ev_Payload ev) of
        Inl err \<Rightarrow> (decode_failed err, w)
      | Inr m \<Rightarrow>
          let action = ToLower (ia_Action m)
          in if \<not> allowedActions action then
               (failed (Sprintf ''action %q not in allow-list (sync|refresh|rollback)'' [AStr (ia_Action m)]), w)
             else case ia_Resource m of
               None \<Rightarrow> (failed (Text ''missing target resource''), w)
             | Some res \<Rightarrow>
                 if rr_Name res = [] then (failed (Text ''missing target resource''), w)
                 else if rr_Kind res \<noteq> [] \<and> \<not> EqualFold (rr_Kind res) ''Application'' then
                   (failed (Sprintf ''invoke-action targets Applications only, got kind %q'' [AStr (rr_Kind res)]), w)
                 else case resolve_namespace deps w of
                   (Inl err, w1) \<Rightarrow> (failed (ErrText err), w1)
                 | (Inr ns, w1) \<Rightarrow>
                     (case dyn_Get (iad_Dyn deps) ApplicationGVR ns (rr_Name res) w1 of
                        (Inl err, w2) \<Rightarrow> (failed (SprintfErr ''resolve application %s: %v'' [AStr (rr_Name res)] err), w2)
                      | (Inr app, w2) \<Rightarrow>
                          if mget (GetLabels A app) argocd_ManagedByLabel \<noteq> argocd_ManagedByValue then
                            (failed (Text (''application '' @ rr_Name res @ '' is not Inari-managed; refusing out-of-scope action'')), w2)
                          else
                            (case redeem_bearer deps (ia_UserCredentialRef m) w2 of
                               (Inl out, w3) \<Rightarrow> (out, w3)
                             | (Inr bearer, w3) \<Rightarrow>
                                 invoke_api json parse_url Sscan (iad_API deps) bearer action (rr_Name res)
                                   (case ia_Parameters m of None \<Rightarrow> Map.empty | Some ps \<Rightarrow> ps) w3)))"

section \<open>ArgoCD registration (handlers_argocd.go)\<close>

definition RegisterArgoCDAppHandler ::
  "'p Codec \<Rightarrow> Accessors \<Rightarrow> ('w \<Rightarrow> string res \<times> 'w) \<Rightarrow> (string \<Rightarrow> 'w Client) \<Rightarrow> ('p, 'w) KindHandler"
where
  "RegisterArgoCDAppHandler cd A gate newClient ev w =
     (case unmarshal (dec_RegisterArgoCDApp cd) (ev_Payload ev) of
        Inl err \<Rightarrow> (decode_failed err, w)
      | Inr m \<Rightarrow>
          (case gate w of
             (Inl err, w1) \<Rightarrow> (failed (ErrText err), w1)
           | (Inr ns, w1) \<Rightarrow>
               let client = newClient ns
               in (case (if ra_Project m \<noteq> [] \<and> ra_Project m \<noteq> ''default'' then EnsureAppProject A client (ra_Project m) w1 else (None, w1)) of
                     (Some err, w2) \<Rightarrow> (failed (ErrText err), w2)
                   | (None, w2) \<Rightarrow>
                       (case EnsureApplication A client m w2 of
                          (Some err, w3) \<Rightarrow> (failed (ErrText err), w3)
                        | (None, w3) \<Rightarrow>
                            (applied (Text (''application '' @ ra_Name m @ '' registered in namespace '' @ ns)), w3)))))"

definition registerManifestHandler ::
  "'p Codec \<Rightarrow> ('w \<Rightarrow> string res \<times> 'w) \<Rightarrow> (string \<Rightarrow> 'w Client) \<Rightarrow> string \<Rightarrow>
   ('w Client \<Rightarrow> string \<Rightarrow> string \<Rightarrow> 'w \<Rightarrow> go_err option \<times> 'w) \<Rightarrow> ('p, 'w) KindHandler"
where
  "registerManifestHandler cd gate newClient kind apply_m ev w =
     (case DecodeBridgeManifest cd (ev_Payload ev) of
        Inl err \<Rightarrow> (failed (ErrText err), w)
      | Inr (cid, name, namespace, manifest) \<Rightarrow>
          (case gate w of
             (Inl err, w1) \<Rightarrow> (failed (ErrText err), w1)
           | (Inr ns, w1) \<Rightarrow>
               (case apply_m (newClient ns) name manifest w1 of
                  (Some err, w2) \<Rightarrow> (failed (ErrText err), w2)
                | (None, w2) \<Rightarrow>
                    (applied (Text (kind @ '' '' @ name @ '' registered in namespace '' @ ns)), w2))))"

definition RegisterArgoCDAppSetHandler ::
  "'p Codec \<Rightarrow> Accessors \<Rightarrow> ManifestCodec \<Rightarrow> ('w \<Rightarrow> string res \<times> 'w) \<Rightarrow> (string \<Rightarrow> 'w Client) \<Rightarrow> ('p, 'w) KindHandler" where
  "RegisterArgoCDAppSetHandler cd A mc gate newClient =
     registerManifestHandler cd gate newClient ''applicationset'' (EnsureApplicationSet A mc)"

definition RegisterArgoCDAppManifestHandler ::
  "'p Codec \<Rightarrow> Accessors \<Rightarrow> ManifestCodec \<Rightarrow> ('w \<Rightarrow> string res \<times> 'w) \<Rightarrow> (string \<Rightarrow> 'w Client) \<Rightarrow> ('p, 'w) KindHandler" where
  "RegisterArgoCDAppManifestHandler cd A mc gate newClient =
     registerManifestHandler cd gate newClient ''application'' (EnsureApplicationManifest A mc)"

section \<open>Targets and files\<close>

lemma resolveTarget_Inr:
  assumes "resolveTarget repo t = Inr target"
  shows "t_Repo target = repo" and "t_Branch target \<noteq> []" and "\<not> Contains (t_Path target) ''..''"
    and "\<exists>owner name. repo = owner @ ''/'' @ name \<and> owner \<noteq> [] \<and> name \<noteq> [] \<and> CHR ''/'' \<notin> set owner \<and> CHR ''/'' \<notin> set name"
proof -
  let ?gt = "case t of None \<Rightarrow> \<lparr>t_Repo = [], t_Path = [], t_Branch = []\<rparr> | Some t \<Rightarrow> t"
  from assms have v: "Validate ?gt repo = Inr target" and r: "t_Repo ?gt = [] \<or> t_Repo ?gt = repo"
    by (auto simp: resolveTarget_def Let_def split: if_splits)
  from Validate_Inr(1) [OF v] r show repo: "t_Repo target = repo" by auto
  from Validate_Inr(4) [OF v] show "t_Branch target \<noteq> []" by auto
  from Validate_Inr(3) [OF v] show "\<not> Contains (t_Path target) ''..''" .
  from Validate_Inr(5) [OF v] repo
  show "\<exists>owner name. repo = owner @ ''/'' @ name \<and> owner \<noteq> [] \<and> name \<noteq> [] \<and> CHR ''/'' \<notin> set owner \<and> CHR ''/'' \<notin> set name"
    by simp
qed

lemma validateFiles_None: "validateFiles fs = None \<longleftrightarrow> (\<forall>f \<in> set fs. ValidateFilePath (f_Path f) = None)"
  by (induction fs) (auto split: option.splits)

text \<open>
  A call to the git provider is confined when it goes to the given repository, on a named
  branch, with no \<open>..\<close> segment in any full path.
\<close>

definition confined :: "string \<Rightarrow> Target \<Rightarrow> string list \<Rightarrow> bool" where
  "confined repo t paths \<longleftrightarrow>
     t_Repo t = repo \<and> t_Branch t \<noteq> [] \<and> (\<forall>p \<in> set paths. ''..'' \<notin> set (Split (FullPath t p) (CHR ''/'')))"

lemma confined_target:
  assumes "resolveTarget repo t = Inr target" and "\<forall>p \<in> set paths. ValidateFilePath p = None"
  shows "confined repo target paths"
proof -
  have "''..'' \<notin> set (Split (FullPath target p) (CHR ''/''))" if p: "p \<in> set paths" for p
  proof -
    have "''..'' \<notin> set (Split p (CHR ''/''))"
      using assms(2) p by (auto simp: ValidateFilePath_None bad_segment_def)
    moreover have "''..'' \<notin> set (Split (TrimSuffix (t_Path target) ''/'') (CHR ''/''))"
      using TrimSuffix_no_dotdot resolveTarget_Inr(3) [OF assms(1)] by blast
    ultimately show ?thesis
      by (cases "t_Path target = []") (simp add: FullPath_def, simp add: FullPath_segments)
  qed
  with resolveTarget_Inr(1,2) [OF assms(1)] show ?thesis by (simp add: confined_def)
qed

text \<open>Two providers that cannot be told apart by confined calls.\<close>

definition same_when_confined :: "string \<Rightarrow> 'w Provider \<Rightarrow> 'w Provider \<Rightarrow> bool" where
  "same_when_confined repo P P' \<longleftrightarrow>
     (\<forall>t fs msg. confined repo t (map f_Path fs) \<longrightarrow> CommitFiles P t fs msg = CommitFiles P' t fs msg) \<and>
     (\<forall>t fs b ti bo. confined repo t (map f_Path fs) \<longrightarrow> OpenPR P t fs b ti bo = OpenPR P' t fs b ti bo) \<and>
     (\<forall>t ps msg. confined repo t ps \<longrightarrow> DeleteFiles P t ps msg = DeleteFiles P' t ps msg)"

lemma validate_commit_confined:
  assumes "same_when_confined repo P P'" and "resolveTarget repo t = Inr target"
  shows "validate_commit P target fs pol c msg s = validate_commit P' target fs pol c msg s"
proof (cases "validateFiles fs")
  case None
  then have "confined repo target (map f_Path fs)"
    by (intro confined_target [OF assms(2)]) (auto simp: validateFiles_None)
  with assms(1) have "commit P target fs pol c msg = commit P' target fs pol c msg"
    by (simp add: same_when_confined_def commit_def fun_eq_iff)
  with None show ?thesis by (simp add: validate_commit_def)
qed (simp add: validate_commit_def)

lemma on_ext_repo: "on_ext f s = (r, s') \<Longrightarrow> go_DefaultStateRepo s' = go_DefaultStateRepo s"
  by (auto simp: on_ext_def split: prod.splits)

section \<open>Redelivery\<close>

context idempotent_provider
begin

lemma commit_redelivered:
  assumes "ready w" and "commit P t fs pol c msg w = (Inr out, w1)"
  shows "\<exists>out'. fst (commit P t fs pol c msg w1) = Inr out' \<and>
           (if pol = COMMIT_POLICY_PULL_REQUEST then out' = out
            else \<exists>sha. (out = ''commit '' @ sha \<or> out = ''commit '' @ sha @ '' (no changes)'') \<and> out' = ''commit '' @ sha @ '' (no changes)'')"
proof (cases "pol = COMMIT_POLICY_PULL_REQUEST")
  case True
  let ?open = "OpenPR P t fs (''inari/'' @ c) msg (''Rendered by inari-agent (command '' @ c @ '').'')"
  from True assms obtain url where pr: "?open w = (Inr url, w1)" and out: "out = ''pull request: '' @ url"
    by (auto simp: commit_def split: prod.splits sum.splits)
  from openpr_again [OF assms(1) pr] obtain w2 where "?open w1 = (Inr url, w2)" by (metis prod.collapse)
  with True out show ?thesis by (simp add: commit_def)
next
  case False
  with assms obtain sha ch where cf: "CommitFiles P t fs msg w = (Inr (sha, ch), w1)"
    and out: "out = (if ch then ''commit '' @ sha else ''commit '' @ sha @ '' (no changes)'')"
    by (auto simp: commit_def split: prod.splits sum.splits if_splits)
  from commit_again [OF assms(1) cf, of msg] obtain w2 where "CommitFiles P t fs msg w1 = (Inr (sha, False), w2)"
    by (metis prod.collapse)
  with False out show ?thesis by (auto simp: commit_def)
qed

lemma delete_redelivered:
  assumes "ready w" and "DeleteFiles P t ps msg w = (Inr (sha, ch), w1)"
  shows "\<exists>w2. DeleteFiles P t ps msg w1 = (Inr (sha, False), w2)"
  using delete_again [OF assms, of msg] by (metis prod.collapse)

end

section \<open>Authorization of an action\<close>

text \<open>The checks an action has to pass before a credential is redeemed or the API called.\<close>

definition authorized :: "Accessors \<Rightarrow> 'w InvokeActionDeps \<Rightarrow> InvokeAction \<Rightarrow> 'w \<Rightarrow> bool" where
  "authorized A deps m w \<longleftrightarrow>
     allowedActions (ToLower (ia_Action m)) \<and>
     (\<exists>res ns w1 app w2. ia_Resource m = Some res \<and> rr_Name res \<noteq> [] \<and>
        (rr_Kind res \<noteq> [] \<longrightarrow> EqualFold (rr_Kind res) ''Application'') \<and>
        resolve_namespace deps w = (Inr ns, w1) \<and>
        dyn_Get (iad_Dyn deps) ApplicationGVR ns (rr_Name res) w1 = (Inr app, w2) \<and> managed A app)"

lemma resolve_namespace_upd [simp]:
  "resolve_namespace (deps\<lparr>iad_API := api\<rparr>) w = resolve_namespace deps w"
  "resolve_namespace (deps\<lparr>iad_Redeemer := r\<rparr>) w = resolve_namespace deps w"
  by (simp_all add: resolve_namespace_def split: option.split)

lemma invoke_api_bearer:
  assumes "bearer \<noteq> []" and "same_under bearer http http'"
  shows "invoke_api json pu sc (c\<lparr>ac_HTTP := http, ac_Token := t\<rparr>) bearer a n ps w =
         invoke_api json pu sc (c\<lparr>ac_HTTP := http', ac_Token := t'\<rparr>) bearer a n ps w"
  unfolding invoke_api_def Let_def
    api_calls_bearer(1) [OF assms, where c = c and t = t and t' = t']
    api_calls_bearer(2) [OF assms, where c = c and t = t and t' = t']
    api_calls_bearer(3) [OF assms, where c = c and t = t and t' = t'] ..

lemma redeem_bearer_not_Nil:
  "redeem_bearer deps ref w = (Inr bearer, w') \<Longrightarrow> ref \<noteq> [] \<Longrightarrow>
     bearer \<noteq> [] \<and> (\<exists>redeem e. iad_Redeemer deps = Some redeem \<and> redeem ref w = (Inr (bearer, e), w'))"
  by (auto simp: redeem_bearer_def split: option.splits prod.splits sum.splits if_splits)

section \<open>Rebinding\<close>

lemma GitopsConfigUpdate_cases:
  assumes "GitopsConfigUpdateHandler cd K ev s = (out, s')"
  obtains (same) "s' = s"
  | (unread) e w1 where "cm_Get K ''inari-agent-registration'' (go_ext s) = (Inl e, w1)" "s' = s\<lparr>go_ext := w1\<rparr>"
  | (unwritten) cm cm' e w1 w2 where "cm_Get K ''inari-agent-registration'' (go_ext s) = (Inr cm, w1)"
      "cm_Update K cm' w1 = (Some e, w2)" "s' = s\<lparr>go_ext := w2\<rparr>"
  | (updated) m :: GitopsConfigUpdate and tg cm w1 w2 where "gc_BaselineRepo m \<noteq> []"
      "Validate \<lparr>t_Repo = gc_BaselineRepo m, t_Path = [], t_Branch = []\<rparr> ''x/y'' = Inr tg"
      "cm_Get K ''inari-agent-registration'' (go_ext s) = (Inr cm, w1)"
      "cm_Update K (cm\<lparr>cm_Data := Some (fmupd ''baseline-repo'' (gc_BaselineRepo m) (data_of cm))\<rparr>) w1 = (None, w2)"
      "s' = s\<lparr>go_ext := w2, go_DefaultStateRepo := gc_BaselineRepo m\<rparr>"
      "out = applied (Text (''rebound to '' @ gc_BaselineRepo m))"
proof -
  consider "s' = s" | m tg where "unmarshal (dec_GitopsConfigUpdate cd) (ev_Payload ev) = Inr m" "gc_BaselineRepo m \<noteq> []"
      "Validate \<lparr>t_Repo = gc_BaselineRepo m, t_Path = [], t_Branch = []\<rparr> ''x/y'' = Inr tg" "gc_BaselineRepo m \<noteq> go_DefaultStateRepo s"
    using assms unfolding GitopsConfigUpdateHandler_def by (auto split: sum.splits if_splits)
  then show thesis
  proof cases
    case 2
    obtain g w1 where g: "cm_Get K ''inari-agent-registration'' (go_ext s) = (g, w1)" by fastforce
    show thesis
    proof (cases g)
      case (Inl e)
      with assms 2 g show thesis by (intro unread [of e w1]) (auto simp: GitopsConfigUpdateHandler_def on_ext_def)
    next
      case (Inr cm)
      let ?cm = "cm\<lparr>cm_Data := Some (fmupd ''baseline-repo'' (gc_BaselineRepo m) (data_of cm))\<rparr>"
      obtain u w2 where u: "cm_Update K ?cm w1 = (u, w2)" by fastforce
      show thesis
      proof (cases u)
        case None
        with assms 2 g Inr u show thesis by (intro updated [of m tg cm w1 w2]) (auto simp: GitopsConfigUpdateHandler_def on_ext_def Let_def)
      next
        case (Some e)
        with assms 2 g Inr u show thesis by (intro unwritten [of cm w1 ?cm e w2]) (auto simp: GitopsConfigUpdateHandler_def on_ext_def Let_def)
      qed
    qed
  qed (rule same)
qed

section \<open>Inputs to evaluate on\<close>

text \<open>A provider that refuses every call that is not confined.\<close>

definition strict_provider :: "string \<Rightarrow> 'w Provider \<Rightarrow> 'w Provider" where
  "strict_provider repo P =
     \<lparr>CommitFiles = (\<lambda>t fs msg w. if confined repo t (map f_Path fs) then CommitFiles P t fs msg w else (Inl (ExtError ''escape''), w)),
      OpenPR = (\<lambda>t fs b ti bo w. if confined repo t (map f_Path fs) then OpenPR P t fs b ti bo w else (Inl (ExtError ''escape''), w)),
      DeleteFiles = (\<lambda>t ps msg w. if confined repo t ps then DeleteFiles P t ps msg w else (Inl (ExtError ''escape''), w))\<rparr>"

lemma strict_provider_same: "same_when_confined repo P (strict_provider repo P)"
  by (simp add: same_when_confined_def strict_provider_def fun_eq_iff)

text \<open>Events whose payload is the command id, decoded to one fixed command of each kind.\<close>

definition handler_codec :: "string Codec" where
  "handler_codec = sample_codec
     \<lparr>dec_SecretStoreDelete := (\<lambda>p. Inr \<lparr>sd_CommandId = p, sd_Name = ''db'', sd_Target = None, sd_Policy = COMMIT_POLICY_UNSPECIFIED\<rparr>),
      dec_SecretStoreApply := (\<lambda>p. Inr \<lparr>sa_CommandId = p, sa_Name = ''db'', sa_Scope = ''cluster'',
         sa_Provider = Some (Vault ''https://vault'' ''kv'' (Some \<lparr>sk_Name = ''tok'', sk_Namespace = ''inari-system''\<rparr>)),
         sa_Target = None, sa_Policy = COMMIT_POLICY_UNSPECIFIED\<rparr>),
      dec_GitopsConfigUpdate := (\<lambda>p. Inr \<lparr>gc_CommandId = p, gc_BaselineRepo = ''acme/new''\<rparr>),
      dec_InvokeAction := (\<lambda>p. Inr \<lparr>ia_CommandId = p, ia_Action = ''Refresh'',
         ia_Resource = Some \<lparr>rr_Kind = [], rr_Name = ''orders'', rr_Namespace = [], rr_Uid = []\<rparr>,
         ia_Timeout = None, ia_UserCredentialRef = ''ref'', ia_Parameters = None\<rparr>),
      dec_RegisterArgoCDApp := (\<lambda>p. Inr sample_register)\<rparr>"

definition mem_state :: "MemProvider GitOpsState" where
  "mem_state = \<lparr>go_DefaultStateRepo = ''acme/state'', go_ext = NewMemProvider\<rparr>"

lemma acme_target:
  "resolveTarget ''acme/state'' None = Inr \<lparr>t_Repo = ''acme/state'', t_Path = [], t_Branch = ''main''\<rparr>"
  by (simp add: resolveTarget_def Validate_def)

lemma db_path: "ValidateFilePath ''db.yaml'' = None"
  by (simp add: ValidateFilePath_None bad_segment_def)

lemma mem_delete_applied:
  "\<exists>msg s1. SecretStoreDeleteHandler handler_codec (mem_provider (\<lambda>b. b)) (sample_event ''c1'') mem_state = ((COMMAND_RESULT_APPLIED, msg, None), s1)"
  by (simp add: SecretStoreDeleteHandler_def handler_codec_def sample_event_def unmarshal_def mem_state_def acme_target db_path
      on_ext_def mem_provider_def mem_DeleteFiles_def NewMemProvider_def applied_def Let_def split: prod.split)

lemma mem_apply_applied:
  "\<exists>out s1. SecretStoreApplyHandler handler_codec (\<lambda>ob. Inr ''doc'') (mem_provider (\<lambda>b. b)) (sample_event ''c1'') mem_state
     = ((COMMAND_RESULT_APPLIED, Text out, None), s1)"
  by (simp add: SecretStoreApplyHandler_def handler_codec_def sample_event_def unmarshal_def mem_state_def acme_target db_path
      providerFromProto_def ref_name_def ref_namespace_def no_provider_def RenderSecretStore_def SecretStoreScopePlatform_def
      SecretStoreScopeCluster_def SystemNamespace_def providerSpec_def validate_commit_def commit_def
      on_ext_def mem_provider_def mem_CommitFiles_def NewMemProvider_def applied_def Let_def split: prod.split)

section \<open>Properties\<close>

text \<open>
  C3. Commands write to the state repository only: the four handlers that write files make no
  call to the git provider other than confined ones. Each call goes to the agent's state
  repository (an owner/name pair), on a named branch, and no full path has a \<open>..\<close> segment. So two
  providers that agree on confined calls give the same outcome and the same state for every
  event.
\<close>

theorem git_writes_confined:
  assumes "same_when_confined (go_DefaultStateRepo s) P P'"
  shows "RenderRGDInstanceHandler cd A yaml getter P ev s = RenderRGDInstanceHandler cd A yaml getter P' ev s
    \<and> ApplyBundleHandler cd fetch P ev s = ApplyBundleHandler cd fetch P' ev s
    \<and> SecretStoreApplyHandler cd yaml P ev s = SecretStoreApplyHandler cd yaml P' ev s
    \<and> SecretStoreDeleteHandler cd P ev s = SecretStoreDeleteHandler cd P' ev s"
proof (intro conjI)
  note vc = validate_commit_confined [OF assms]
  show "RenderRGDInstanceHandler cd A yaml getter P ev s = RenderRGDInstanceHandler cd A yaml getter P' ev s"
    unfolding RenderRGDInstanceHandler_def Let_def
    by (auto split: sum.splits prod.splits simp: vc)
  show "ApplyBundleHandler cd fetch P ev s = ApplyBundleHandler cd fetch P' ev s"
    unfolding ApplyBundleHandler_def by (auto split: sum.splits prod.splits simp: vc)
  show "SecretStoreApplyHandler cd yaml P ev s = SecretStoreApplyHandler cd yaml P' ev s"
    unfolding SecretStoreApplyHandler_def by (auto split: sum.splits simp: vc)
  have "DeleteFiles P t [p] msg = DeleteFiles P' t [p] msg"
    if "resolveTarget (go_DefaultStateRepo s) tg = Inr t" "ValidateFilePath p = None" for t p msg tg
    using assms confined_target [OF that(1), of "[p]"] that(2) by (simp add: same_when_confined_def)
  then show "SecretStoreDeleteHandler cd P ev s = SecretStoreDeleteHandler cd P' ev s"
    unfolding SecretStoreDeleteHandler_def Let_def by (auto split: sum.splits option.splits)
qed

theorem git_writes_confined_witness:
  "SecretStoreDeleteHandler handler_codec (mem_provider (\<lambda>b. b)) (sample_event ''c1'') mem_state =
   SecretStoreDeleteHandler handler_codec (strict_provider ''acme/state'' (mem_provider (\<lambda>b. b))) (sample_event ''c1'') mem_state"
proof -
  have "same_when_confined (go_DefaultStateRepo mem_state) (mem_provider (\<lambda>b. b)) (strict_provider ''acme/state'' (mem_provider (\<lambda>b. b)))"
    by (simp add: mem_state_def strict_provider_same)
  from git_writes_confined [OF this] show ?thesis by blast
qed

text \<open>
  Deleting a secret store twice is a no-op: after a delete was applied on a ready provider,
  the redelivered command is applied again and reports that the file is already absent.
\<close>

theorem redelivered_delete_absent:
  assumes "idempotent_provider P ready" and "ready (go_ext s)"
    and "SecretStoreDeleteHandler cd P ev s = ((COMMAND_RESULT_APPLIED, msg, None), s1)"
  shows "fst (SecretStoreDeleteHandler cd P ev s1) = (COMMAND_RESULT_APPLIED, Text ''already absent'', None)"
proof -
  let ?path = "\<lambda>m. sd_Name m @ ''.yaml''" and ?msg = "\<lambda>m. ''inari: delete secret store '' @ sd_Name m"
  from assms(3) obtain m t sha ch w1 where m: "unmarshal (dec_SecretStoreDelete cd) (ev_Payload ev) = Inr m"
    and t: "resolveTarget (go_DefaultStateRepo s) (sd_Target m) = Inr t"
    and p: "ValidateFilePath (?path m) = None" "sd_Policy m \<noteq> COMMIT_POLICY_PULL_REQUEST"
    and d: "DeleteFiles P t [?path m] (?msg m) (go_ext s) = (Inr (sha, ch), w1)" and s1: "s1 = s\<lparr>go_ext := w1\<rparr>"
    unfolding SecretStoreDeleteHandler_def Let_def
    by (auto simp: decode_failed_def failed_def retryable_def on_ext_def split: sum.splits option.splits if_splits prod.splits)
  from idempotent_provider.delete_redelivered [OF assms(1,2) d] obtain w2
    where "DeleteFiles P t [?path m] (?msg m) w1 = (Inr (sha, False), w2)" by blast
  with m t p s1 show ?thesis
    by (simp add: SecretStoreDeleteHandler_def Let_def on_ext_def applied_def)
qed

theorem redelivered_delete_absent_witness:
  "\<exists>msg s1. SecretStoreDeleteHandler handler_codec (mem_provider (\<lambda>b. b)) (sample_event ''c1'') mem_state = ((COMMAND_RESULT_APPLIED, msg, None), s1)
     \<and> fst (SecretStoreDeleteHandler handler_codec (mem_provider (\<lambda>b. b)) (sample_event ''c1'') s1) = (COMMAND_RESULT_APPLIED, Text ''already absent'', None)"
proof -
  obtain msg s1 where 1: "SecretStoreDeleteHandler handler_codec (mem_provider (\<lambda>b. b)) (sample_event ''c1'') mem_state = ((COMMAND_RESULT_APPLIED, msg, None), s1)"
    using mem_delete_applied by blast
  have "mp_Err (go_ext mem_state) = None" by (simp add: mem_state_def NewMemProvider_def)
  from redelivered_delete_absent [OF mem.idempotent_provider_axioms this 1] 1 show ?thesis by blast
qed

text \<open>
  Rendering is idempotent under redelivery: after a secret store was applied on a ready
  provider, the redelivered command is applied again with the same pull request, or with the
  same commit and the remark that nothing changed.
\<close>

theorem redelivered_apply_unchanged:
  assumes "idempotent_provider P ready" and "ready (go_ext s)"
    and "SecretStoreApplyHandler cd yaml P ev s = ((COMMAND_RESULT_APPLIED, Text out, None), s1)"
  shows "\<exists>out'. fst (SecretStoreApplyHandler cd yaml P ev s1) = (COMMAND_RESULT_APPLIED, Text out', None)
    \<and> (out' = out \<or> (\<exists>sha. out = ''commit '' @ sha \<and> out' = ''commit '' @ sha @ '' (no changes)''))"
proof -
  let ?msg = "\<lambda>m. ''inari: apply secret store '' @ sa_Name m"
  from assms(3) obtain m t p fs w1 where m: "unmarshal (dec_SecretStoreApply cd) (ev_Payload ev) = Inr m"
    and t: "resolveTarget (go_DefaultStateRepo s) (sa_Target m) = Inr t"
    and r: "providerFromProto m = Inr p" "RenderSecretStore yaml (sa_Name m) (sa_Scope m) p = Inr fs" "validateFiles fs = None"
    and c: "commit P t fs (sa_Policy m) (sa_CommandId m) (?msg m) (go_ext s) = (Inr out, w1)" and s1: "s1 = s\<lparr>go_ext := w1\<rparr>"
    unfolding SecretStoreApplyHandler_def validate_commit_def
    by (auto simp: decode_failed_def failed_def retryable_def applied_def on_ext_def split: sum.splits option.splits if_splits prod.splits)
  from idempotent_provider.commit_redelivered [OF assms(1,2) c] obtain out' w2
    where "commit P t fs (sa_Policy m) (sa_CommandId m) (?msg m) w1 = (Inr out', w2)"
    and "out' = out \<or> (\<exists>sha. out = ''commit '' @ sha \<and> out' = ''commit '' @ sha @ '' (no changes)'')"
    by (metis prod.collapse)
  with m t r s1 show ?thesis
    by (auto simp: SecretStoreApplyHandler_def validate_commit_def on_ext_def applied_def)
qed

theorem redelivered_apply_unchanged_witness:
  "\<exists>out s1 out'. SecretStoreApplyHandler handler_codec (\<lambda>ob. Inr ''doc'') (mem_provider (\<lambda>b. b)) (sample_event ''c1'') mem_state
       = ((COMMAND_RESULT_APPLIED, Text out, None), s1)
     \<and> fst (SecretStoreApplyHandler handler_codec (\<lambda>ob. Inr ''doc'') (mem_provider (\<lambda>b. b)) (sample_event ''c1'') s1) = (COMMAND_RESULT_APPLIED, Text out', None)"
proof -
  obtain out s1 where 1: "SecretStoreApplyHandler handler_codec (\<lambda>ob. Inr ''doc'') (mem_provider (\<lambda>b. b)) (sample_event ''c1'') mem_state
       = ((COMMAND_RESULT_APPLIED, Text out, None), s1)"
    using mem_apply_applied by blast
  have "mp_Err (go_ext mem_state) = None" by (simp add: mem_state_def NewMemProvider_def)
  from redelivered_apply_unchanged [OF mem.idempotent_provider_axioms this 1] 1 show ?thesis by blast
qed

text \<open>
  Rebinding is durable and all-or-nothing: after a configuration update either the binding in
  memory and all committed ConfigMaps are as before, or the command was applied, the new
  repository is an owner/name pair, it is the binding in memory, and it is the only entry of
  the registration ConfigMap that changed. A failed command always leaves both unchanged.
\<close>

theorem rebinding_durable:
  assumes "configmap_laws K cur" and "GitopsConfigUpdateHandler cd K ev s = (out, s')"
  shows "go_DefaultStateRepo s' = go_DefaultStateRepo s \<and> cur (go_ext s') = cur (go_ext s)
    \<or> (\<exists>repo data owner name. out = (COMMAND_RESULT_APPLIED, Text (''rebound to '' @ repo), None)
          \<and> repo = owner @ ''/'' @ name \<and> owner \<noteq> [] \<and> name \<noteq> []
          \<and> go_DefaultStateRepo s' = repo \<and> cur (go_ext s) ''inari-agent-registration'' = Some data
          \<and> cur (go_ext s') = (cur (go_ext s))(''inari-agent-registration'' \<mapsto> fmupd ''baseline-repo'' repo data))"
  using assms(2)
proof (cases rule: GitopsConfigUpdate_cases)
  case (updated m tg cm w1 w2)
  from Validate_Inr(1,5) [OF updated(2)] updated(1) obtain owner name
    where "gc_BaselineRepo m = owner @ ''/'' @ name" "owner \<noteq> []" "name \<noteq> []" by auto
  moreover have "cur w2 = (cur (go_ext s))(''inari-agent-registration'' \<mapsto> fmupd ''baseline-repo'' (gc_BaselineRepo m) (data_of cm))"
    using configmap_lawsD(5) [OF assms(1) updated(4)] configmap_lawsD(1) [OF assms(1) updated(3)]
    by (simp add: data_of_def [of "cm\<lparr>cm_Data := _\<rparr>"])
  ultimately show ?thesis
    using configmap_lawsD(1) [OF assms(1) updated(3)] updated(5,6) by (intro disjI2) (auto simp: applied_def)
qed (use configmap_lawsD [OF assms(1)] in auto)

theorem rebinding_durable_witness:
  "let s = \<lparr>go_DefaultStateRepo = ''acme/state'', go_ext = [''inari-agent-registration'' \<mapsto> (fmupd ''a'' ''b'' fmempty, 7)]\<rparr>;
       r = GitopsConfigUpdateHandler handler_codec mem_configmaps (sample_event ''c1'') s
   in go_DefaultStateRepo (snd r) = ''acme/new''
      \<and> mem_data (go_ext (snd r)) ''inari-agent-registration'' = Some (fmupd ''baseline-repo'' ''acme/new'' (fmupd ''a'' ''b'' fmempty))"
proof -
  let ?m = "fmupd ''a'' ''b'' (fmempty :: (string, string) fmap)"
  let ?s = "\<lparr>go_DefaultStateRepo = ''acme/state'', go_ext = [''inari-agent-registration'' \<mapsto> (?m, 7)]\<rparr>"
  have "Validate \<lparr>t_Repo = ''acme/new'', t_Path = [], t_Branch = []\<rparr> ''x/y'' =
      Inr \<lparr>t_Repo = ''acme/new'', t_Path = [], t_Branch = ''main''\<rparr>" by (simp add: Validate_def)
  moreover have "?m \<noteq> fmempty" by (metis fmempty_lookup fmupd_lookup option.distinct(1))
  ultimately obtain out s' where 1: "GitopsConfigUpdateHandler handler_codec mem_configmaps (sample_event ''c1'') ?s = (out, s')"
    and "go_DefaultStateRepo s' = ''acme/new''"
    by (simp add: GitopsConfigUpdateHandler_def handler_codec_def sample_event_def unmarshal_def on_ext_def mem_configmaps_def Let_def)
  with rebinding_durable [OF mem_configmaps_laws 1] show ?thesis by (auto simp: Let_def)
qed

text \<open>
  C19. Out-of-scope actions have no effect: an action that is not on the allow-list, names no
  Application, cannot be resolved, or targets an Application without the Inari ownership label
  is answered with FAILED (never retried); the outcome and the world are the same whatever
  the ArgoCD API and the credential service would do, so neither is called and no one-shot
  credential is consumed.
\<close>

theorem unauthorized_action_inert:
  assumes "unmarshal (dec_InvokeAction cd) (ev_Payload ev) = Inr m" and "\<not> authorized A deps m w"
  shows "\<exists>msg w'. \<forall>api redeemer.
      InvokeActionHandler cd A json pu sc (deps\<lparr>iad_API := api, iad_Redeemer := redeemer\<rparr>) ev w = ((COMMAND_RESULT_FAILED, msg, None), w')"
proof (cases "allowedActions (ToLower (ia_Action m)) \<and> (\<exists>res. ia_Resource m = Some res \<and> rr_Name res \<noteq> []
      \<and> (rr_Kind res \<noteq> [] \<longrightarrow> EqualFold (rr_Kind res) ''Application''))")
  case False
  with assms(1) show ?thesis
    by (cases "ia_Resource m") (auto simp: InvokeActionHandler_def Let_def failed_def)
next
  case True
  then obtain res where res: "ia_Resource m = Some res" "rr_Name res \<noteq> []" "rr_Kind res \<noteq> [] \<longrightarrow> EqualFold (rr_Kind res) ''Application''"
    and act: "allowedActions (ToLower (ia_Action m))" by blast
  obtain n w1 where n: "resolve_namespace deps w = (n, w1)" by fastforce
  show ?thesis
  proof (cases n)
    case (Inl e)
    with assms(1) res act n show ?thesis by (auto simp: InvokeActionHandler_def Let_def failed_def)
  next
    case (Inr ns)
    obtain g w2 where g: "dyn_Get (iad_Dyn deps) ApplicationGVR ns (rr_Name res) w1 = (g, w2)" by fastforce
    show ?thesis
    proof (cases g)
      case e: (Inl e)
      with assms(1) res act n Inr g show ?thesis by (auto simp: InvokeActionHandler_def Let_def failed_def)
    next
      case app: (Inr app)
      with assms(2) res act n Inr g have "\<not> managed A app" unfolding authorized_def by blast
      with assms(1) res act n Inr g app show ?thesis by (auto simp: InvokeActionHandler_def Let_def failed_def managed_def)
    qed
  qed
qed

definition action_deps :: "dyn_server InvokeActionDeps" where
  "action_deps =
     \<lparr>iad_API = \<lparr>ac_BaseURL = ''https://argocd'', ac_Token = ''static'', ac_HTTP = (\<lambda>rq w. (Inr \<lparr>rs_StatusCode = 200, rs_Status = ''200 OK'', rs_Body = []\<rparr>, w))\<rparr>,
      iad_Dyn = mem_dyn, iad_Namespace = ''argocd'', iad_ResolveNamespace = None,
      iad_Redeemer = Some (\<lambda>ref w. (Inr (''user-token'', 0), w))\<rparr>"

text \<open>On an empty cluster the Application cannot be resolved.\<close>

theorem unauthorized_action_inert_witness:
  "\<exists>msg w'. \<forall>api redeemer. InvokeActionHandler handler_codec ref_accessors (\<lambda>ob. Inr ''{}'') (\<lambda>u. None) (\<lambda>s. (0, False))
      (action_deps\<lparr>iad_API := api, iad_Redeemer := redeemer\<rparr>) (sample_event ''c1'') Map.empty = ((COMMAND_RESULT_FAILED, msg, None), w')"
proof -
  obtain m where m: "unmarshal (dec_InvokeAction handler_codec) (ev_Payload (sample_event ''c1'')) = Inr m"
    by (simp add: unmarshal_def handler_codec_def sample_event_def)
  have "\<not> authorized ref_accessors action_deps m Map.empty"
    by (simp add: authorized_def resolve_namespace_def action_deps_def mem_dyn_def)
  from unauthorized_action_inert [OF m this] show ?thesis by blast
qed



text \<open>
  Redemption failures are classified by their code and never echo the server: for a terminal
  code the action fails with the fixed text of that code, whatever message the server sent, and
  the command is not retried; for any other error it is retried.
\<close>

theorem redemption_failure_classified:
  assumes "iad_Redeemer deps = Some (Redeem rpc)" and "ref \<noteq> []"
    and "rpc ref w = (Inl (ConnectError code detail), w')"
  shows "redeem_bearer deps ref w =
     (Inl (case code of
        CodeNotFound \<Rightarrow> (COMMAND_RESULT_FAILED, Text ''user credential not found or revoked'', None)
      | CodeFailedPrecondition \<Rightarrow> (COMMAND_RESULT_FAILED, Text ''user credential expired'', None)
      | CodeAlreadyExists \<Rightarrow> (COMMAND_RESULT_FAILED, Text ''user credential already redeemed'', None)
      | CodeInvalidArgument \<Rightarrow> (COMMAND_RESULT_FAILED, Text ''user credential reference invalid'', None)
      | CodePermissionDenied \<Rightarrow> (COMMAND_RESULT_FAILED, Text ''user credential redemption denied'', None)
      | CodeUnauthenticated \<Rightarrow> (COMMAND_RESULT_FAILED, Text ''user credential redemption denied'', None)
      | CodeOther \<Rightarrow> (COMMAND_RESULT_UNSPECIFIED, Text [], Some (Wrapf ''redeem user credential: %w'' [] (ConnectError CodeOther detail)))), w')"
  using assms
  by (cases code) (simp_all add: redeem_bearer_def Redeem_def classifyRedeemError_def as_connect_error_def as_redeem_error_def
      Terminal_def RedeemError_text_def failed_def retryable_def)

theorem redemption_failure_classified_witness:
  "redeem_bearer (action_deps\<lparr>iad_Redeemer := Some (Redeem (\<lambda>ref w. (Inl (ConnectError CodeFailedPrecondition ''token=secret''), w)))\<rparr>) ''ref'' Map.empty =
     (Inl (COMMAND_RESULT_FAILED, Text ''user credential expired'', None), Map.empty)"
  using redemption_failure_classified [of "action_deps\<lparr>iad_Redeemer := Some (Redeem (\<lambda>ref w. (Inl (ConnectError CodeFailedPrecondition ''token=secret''), w)))\<rparr>"
      "\<lambda>ref w. (Inl (ConnectError CodeFailedPrecondition ''token=secret''), w)" "''ref''" Map.empty] by simp

text \<open>
  Registration changes owned objects only: after the gate has passed, the only committed
  objects that registering an application can change are the requested AppProject and the
  requested Application in the gate's namespace, and only if they did not exist or carry the
  ownership label. When the gate refuses, nothing is changed after it.
\<close>

theorem registration_respects_ownership:
  assumes "accessor_laws A" and "dyn_laws A D cur"
    and "unmarshal (dec_RegisterArgoCDApp cd) (ev_Payload ev) = Inr m"
    and "gate w = (g, w1)" and "RegisterArgoCDAppHandler cd A gate (NewClient D) ev w = (out, w')"
    and "cur w' k \<noteq> cur w1 k"
  shows "\<exists>ns. g = Inr ns \<and> k \<in> {(AppProjectGVR, ns, ra_Project m), (ApplicationGVR, ns, ra_Name m)}
    \<and> (\<forall>ex. cur w1 k = Some ex \<longrightarrow> managed A ex)"
proof (cases g)
  case (Inl e)
  with assms show ?thesis by (simp add: RegisterArgoCDAppHandler_def)
next
  case (Inr ns)
  let ?c = "NewClient D ns"
  have D: "dyn_laws A (cl_Dyn ?c) cur" and ns: "cl_Namespace ?c = ns" using assms(2) by (simp_all add: NewClient_def)
  define pr where "pr = (if ra_Project m \<noteq> [] \<and> ra_Project m \<noteq> ''default'' then EnsureAppProject A ?c (ra_Project m) w1 else (None, w1))"
  obtain eo w2 where pr_eq: "pr = (eo, w2)" by fastforce
  have project: "k = (AppProjectGVR, ns, ra_Project m) \<and> (\<forall>ex. cur w1 k = Some ex \<longrightarrow> managed A ex)" if "cur w2 k \<noteq> cur w1 k"
  proof -
    from that pr_eq have "upsert A ?c AppProjectGVR (appproject ns (ra_Project m)) w1 = (eo, w2)"
      by (auto simp: pr_def EnsureAppProject_def ns split: if_splits)
    from upsert_writes_owned [OF assms(1) D this that] show ?thesis
      using appproject_name [OF assms(1)] ns by simp
  qed
  have app: "k = (ApplicationGVR, ns, ra_Name m) \<and> (\<forall>ex. cur w2 k = Some ex \<longrightarrow> managed A ex)" if "cur w' k \<noteq> cur w2 k"
  proof -
    from that assms(3-5) Inr pr_eq obtain eo' where "EnsureApplication A ?c m w2 = (eo', w')"
      by (auto simp: RegisterArgoCDAppHandler_def pr_def [symmetric] Let_def split: option.splits prod.splits)
    with that obtain src where "upsert A ?c ApplicationGVR (application ns m src) w2 = (eo', w')"
      by (auto simp: EnsureApplication_def ns split: if_splits option.splits)
    from upsert_writes_owned [OF assms(1) D this that] show ?thesis
      using application_owned(1) [OF assms(1)] ns by simp
  qed
  have "AppProjectGVR \<noteq> ApplicationGVR" by (simp add: AppProjectGVR_def ApplicationGVR_def)
  with project app assms(6) Inr show ?thesis by (cases "cur w2 k = cur w1 k") auto
qed

theorem registration_respects_ownership_witness:
  "let r = RegisterArgoCDAppHandler handler_codec ref_accessors (\<lambda>w. (Inr ''argocd'', w)) (NewClient mem_dyn) (sample_event ''c1'') Map.empty;
       k = (ApplicationGVR, ''argocd'', ''orders'')
   in snd r k \<noteq> None \<and> k \<in> {(AppProjectGVR, ''argocd'', ra_Project sample_register), (ApplicationGVR, ''argocd'', ra_Name sample_register)}"
proof -
  let ?r = "RegisterArgoCDAppHandler handler_codec ref_accessors (\<lambda>w. (Inr ''argocd'', w)) (NewClient mem_dyn) (sample_event ''c1'') Map.empty"
  let ?k = "(ApplicationGVR, ''argocd'', ''orders'')"
  have m: "unmarshal (dec_RegisterArgoCDApp handler_codec) (ev_Payload (sample_event ''c1'')) = Inr sample_register"
    by (simp add: unmarshal_def handler_codec_def sample_event_def)
  have "EnsureApplication ref_accessors (NewClient mem_dyn ''argocd'') sample_register Map.empty = (None, [?k \<mapsto> sample_application])"
    using sample_created by (simp add: EnsureApplication_def sample_application_def sample_register_def NewClient_def)
  then obtain out where r: "?r = (out, [?k \<mapsto> sample_application])"
    using m by (simp add: RegisterArgoCDAppHandler_def Let_def sample_register_def)
  from registration_respects_ownership [OF ref_accessors_laws mem_dyn_laws m refl r, of ?k] r show ?thesis
    by (simp add: Let_def)
qed

end
