(* ===== verification/Capability.thy ===== *)
theory Capability
  imports Agent_Proto
begin

text \<open>
  Discovery (\<open>internal/capability\<close>): the mappers from watched objects to capabilities (\<open>crd.go\<close>,
  \<open>crossplane.go\<close>, \<open>helm.go\<close>, \<open>kro.go\<close>, \<open>olm.go\<close>, \<open>metadata.go\<close>), the brownfield classification
  (\<open>classify.go\<close>), the informer handlers of the two watcher kinds (\<open>dynamic.go\<close>, \<open>metadatawatch.go\<close>)
  and the availability filter (\<open>discovery.go\<close>).

  An informer delivers events; a handler is a function from an event to the capability it
  sends, if any. Parameters: the accessors \<open>A\<close> and \<open>NewStruct\<close>, the conversion of a document to a
  protobuf struct.
\<close>

section \<open>Data\<close>

datatype CapabilityKind =
    CAPABILITY_KIND_UNSPECIFIED
  | CAPABILITY_KIND_CRD
  | CAPABILITY_KIND_OLM_CSV
  | CAPABILITY_KIND_CROSSPLANE_XRD
  | CAPABILITY_KIND_CROSSPLANE_PROVIDER
  | CAPABILITY_KIND_HELM_RELEASE
  | CAPABILITY_KIND_KRO_RGD
  | CAPABILITY_KIND_CLUSTER_METADATA

datatype CapabilityAction = CAPABILITY_ACTION_UNSPECIFIED | CAPABILITY_ACTION_UPSERT | CAPABILITY_ACTION_DELETE

datatype ManagementMode =
    MANAGEMENT_MODE_UNSPECIFIED | MANAGEMENT_MODE_OBSERVE_ONLY | MANAGEMENT_MODE_ADOPT | MANAGEMENT_MODE_IGNORE

record Capability =
  cap_Kind :: CapabilityKind
  cap_Name :: string
  cap_Group :: string
  cap_Version :: string
  cap_Schema :: "obj option"
  cap_UiHints :: "obj option"
  cap_Action :: CapabilityAction
  cap_ManagementMode :: ManagementMode

text \<open>A capability with the fields a mapper sets; kind, action and mode are filled in later.\<close>

definition new_capability :: "string \<Rightarrow> string \<Rightarrow> string \<Rightarrow> obj option \<Rightarrow> obj option \<Rightarrow> Capability" where
  "new_capability name grp version schema hints =
     \<lparr>cap_Kind = CAPABILITY_KIND_UNSPECIFIED, cap_Name = name, cap_Group = grp, cap_Version = version,
      cap_Schema = schema, cap_UiHints = hints, cap_Action = CAPABILITY_ACTION_UNSPECIFIED,
      cap_ManagementMode = MANAGEMENT_MODE_UNSPECIFIED\<rparr>"

section \<open>Classification (classify.go)\<close>

definition ManagementAnnotation :: string where
  "ManagementAnnotation = ''inari.dev/management''"

definition Classify :: "Accessors \<Rightarrow> obj \<Rightarrow> ManagementMode" where
  "Classify A ob =
     (let v = mget (GetAnnotations A ob) ManagementAnnotation
      in if v = ''adopt'' then MANAGEMENT_MODE_ADOPT
         else if v = ''ignore'' then MANAGEMENT_MODE_IGNORE
         else MANAGEMENT_MODE_OBSERVE_ONLY)"

section \<open>Mappers (crd.go, crossplane.go, helm.go, kro.go, olm.go)\<close>

definition to_struct :: "(obj \<Rightarrow> obj res) \<Rightarrow> obj \<Rightarrow> obj option" where
  "to_struct NewStruct m = (case NewStruct m of Inl _ \<Rightarrow> None | Inr s \<Rightarrow> Some s)"

definition mustStruct :: "(obj \<Rightarrow> obj res) \<Rightarrow> obj \<Rightarrow> obj option" where
  "mustStruct NewStruct m = to_struct NewStruct m"

text \<open>A failed type assertion to \<open>map[string]interface{}\<close> gives the nil map.\<close>

definition as_map :: "uval \<Rightarrow> obj" where
  "as_map v = (case v of UMap m \<Rightarrow> m | _ \<Rightarrow> Map.empty)"

definition is_map :: "uval \<Rightarrow> bool" where
  "is_map v = (case v of UMap m \<Rightarrow> True | _ \<Rightarrow> False)"

text \<open>The storage version, or the first one.\<close>

definition chosen_version :: "Accessors \<Rightarrow> uval list \<Rightarrow> obj" where
  "chosen_version A versions =
     (case find (\<lambda>v. is_map v \<and> fst (NestedBool A (as_map v) [''storage''])) versions of
        Some v \<Rightarrow> as_map v
      | None \<Rightarrow> as_map (hd versions))"

definition mapCRD :: "Accessors \<Rightarrow> (obj \<Rightarrow> obj res) \<Rightarrow> obj \<Rightarrow> Capability res" where
  "mapCRD A NewStruct ob =
     (let grp = fst (NestedString A ob [''spec'', ''group''])
      in case NestedSlice A ob [''spec'', ''versions''] of
           (versions, found) \<Rightarrow>
             if \<not> found \<or> length versions = 0 then Inl (Errorf ''crd %s has no versions'' [AStr (GetName A ob)])
             else let chosen = chosen_version A versions;
                      version = fst (NestedString A chosen [''name'']);
                      schemaMap = fst (NestedMap A chosen [''schema'', ''openAPIV3Schema'']);
                      schema = (if schemaMap \<noteq> Map.empty then to_struct NewStruct schemaMap else None)
                  in Inr (new_capability (GetName A ob) grp version schema None))"

definition mapXRD :: "Accessors \<Rightarrow> (obj \<Rightarrow> obj res) \<Rightarrow> obj \<Rightarrow> Capability res" where
  "mapXRD A NewStruct ob =
     (let grp = fst (NestedString A ob [''spec'', ''group'']);
          versions = fst (NestedSlice A ob [''spec'', ''versions''])
      in case versions of
           UMap vm # _ \<Rightarrow>
             let version = fst (NestedString A vm [''name'']);
                 (schemaMap, found) = NestedMap A vm [''schema'', ''openAPIV3Schema''];
                 schema = (if found then to_struct NewStruct schemaMap else None)
             in Inr (new_capability (GetName A ob) grp version schema None)
         | _ \<Rightarrow> Inr (new_capability (GetName A ob) grp [] None None))"

definition mapComposition :: "Accessors \<Rightarrow> obj \<Rightarrow> Capability res" where
  "mapComposition A ob =
     Inr (new_capability (GetName A ob) ''apiextensions.crossplane.io''
            (fst (NestedString A ob [''spec'', ''compositeTypeRef'', ''apiVersion''])) None None)"

definition mapProvider :: "Accessors \<Rightarrow> (obj \<Rightarrow> obj res) \<Rightarrow> obj \<Rightarrow> Capability res" where
  "mapProvider A NewStruct ob =
     (let pkg = fst (NestedString A ob [''spec'', ''package'']);
          revision = fst (NestedString A ob [''status'', ''currentRevision''])
      in Inr (new_capability (GetName A ob) ''pkg.crossplane.io'' revision None
                (mustStruct NewStruct [''package'' \<mapsto> UStr pkg])))"

definition mapHelmSecret :: "Accessors \<Rightarrow> (obj \<Rightarrow> obj res) \<Rightarrow> obj \<Rightarrow> Capability res" where
  "mapHelmSecret A NewStruct ob =
     (let labels = GetLabels A ob; name = mget labels ''name''
      in if name = [] then
           Inl (Errorf ''helm secret %s/%s has no name label'' [AStr (GetNamespace A ob), AStr (GetName A ob)])
         else Inr (new_capability (GetNamespace A ob @ ''/'' @ name) ''helm.sh'' (mget labels ''version'') None
                     (mustStruct NewStruct [''namespace'' \<mapsto> UStr (GetNamespace A ob), ''status'' \<mapsto> UStr (mget labels ''status'')])))"

definition mapRGD :: "Accessors \<Rightarrow> (obj \<Rightarrow> obj res) \<Rightarrow> obj \<Rightarrow> Capability res" where
  "mapRGD A NewStruct ob =
     (let kind = fst (NestedString A ob [''spec'', ''schema'', ''kind'']);
          version = fst (NestedString A ob [''spec'', ''schema'', ''apiVersion'']);
          (schemaMap, found) = NestedMap A ob [''spec'', ''schema''];
          schema = (if found then mustStruct NewStruct schemaMap else mustStruct NewStruct Map.empty)
      in Inr (new_capability (GetName A ob) ''kro.run'' version schema
                (mustStruct NewStruct [''instanceKind'' \<mapsto> UStr kind])))"

text \<open>The loop over the owned CRDs: the names so far and the hints so far.\<close>

fun owned_hints :: "Accessors \<Rightarrow> uval list \<Rightarrow> string list \<Rightarrow> obj \<Rightarrow> string list \<times> obj" where
  "owned_hints A [] names hints = (names, hints)"
| "owned_hints A (v # vs) names hints =
     (case v of
        UMap om \<Rightarrow>
          let name = fst (NestedString A om [''name'']);
              names1 = (if name \<noteq> [] then names @ [name] else names);
              (descs, found) = NestedSlice A om [''specDescriptors''];
              hints1 = (if found \<and> length descs > 0 \<and> hints ''specDescriptors'' = None
                        then hints(''specDescriptors'' \<mapsto> UList descs) else hints)
          in owned_hints A vs names1 hints1
      | _ \<Rightarrow> owned_hints A vs names hints)"

definition mapCSV :: "Accessors \<Rightarrow> (obj \<Rightarrow> obj res) \<Rightarrow> obj \<Rightarrow> Capability res" where
  "mapCSV A NewStruct ob =
     (let version = fst (NestedString A ob [''spec'', ''version'']);
          owned = fst (NestedSlice A ob [''spec'', ''customresourcedefinitions'', ''owned'']);
          (names, hints) = owned_hints A owned [] Map.empty;
          hints = (if length names > 0 then hints(''ownedCRDs'' \<mapsto> UList (map UStr names)) else hints);
          uiHints = (if hints \<noteq> Map.empty then to_struct NewStruct hints else None)
      in Inr (new_capability (GetName A ob) ''operators.coreos.com'' version None uiHints))"

section \<open>Emission (dynamic.go)\<close>

text \<open>What \<open>emitCapability\<close> sends, unless the watcher is shutting down.\<close>

definition emitCapability ::
  "Accessors \<Rightarrow> CapabilityKind \<Rightarrow> (obj \<Rightarrow> Capability res) \<Rightarrow> obj \<Rightarrow> CapabilityAction \<Rightarrow> Capability option"
where
  "emitCapability A kind mapFn ob action =
     (case mapFn ob of
        Inl err \<Rightarrow> None
      | Inr c0 \<Rightarrow>
          let c1 = c0\<lparr>cap_Kind := kind, cap_Action := action\<rparr>;
              c2 = (if cap_ManagementMode c1 = MANAGEMENT_MODE_UNSPECIFIED
                    then c1\<lparr>cap_ManagementMode := Classify A ob\<rparr> else c1);
              c3 = (if cap_ManagementMode c2 = MANAGEMENT_MODE_IGNORE
                    then c2\<lparr>cap_Action := CAPABILITY_ACTION_DELETE\<rparr> else c2)
          in Some c3)"

text \<open>An informer event; \<open>Tombstone\<close> is a \<open>DeletedFinalStateUnknown\<close> with the last known object.\<close>

datatype 'o informer_event = Added 'o | Updated 'o | Deleted 'o | Tombstone 'o

definition dynamic_handler ::
  "Accessors \<Rightarrow> CapabilityKind \<Rightarrow> (obj \<Rightarrow> Capability res) \<Rightarrow> obj informer_event \<Rightarrow> Capability option"
where
  "dynamic_handler A kind mapFn ev =
     (case ev of
        Added u \<Rightarrow> emitCapability A kind mapFn u CAPABILITY_ACTION_UPSERT
      | Updated u \<Rightarrow> emitCapability A kind mapFn u CAPABILITY_ACTION_UPSERT
      | Deleted u \<Rightarrow> emitCapability A kind mapFn u CAPABILITY_ACTION_DELETE
      | Tombstone u \<Rightarrow> emitCapability A kind mapFn u CAPABILITY_ACTION_DELETE)"

section \<open>Metadata-only watches (metadatawatch.go)\<close>

record PartialObjectMetadata =
  pm_APIVersion :: string
  pm_Kind :: string
  pm_Name :: string
  pm_Namespace :: string
  pm_Labels :: "string \<Rightarrow> string option"
  pm_Annotations :: "string \<Rightarrow> string option"

definition of_metadata :: "Accessors \<Rightarrow> PartialObjectMetadata \<Rightarrow> obj" where
  "of_metadata A pm =
     (SetAnnotations A (pm_Annotations pm) \<circ> SetLabels A (pm_Labels pm) \<circ> SetNamespace A (pm_Namespace pm) \<circ>
      SetName A (pm_Name pm) \<circ> SetKind A (pm_Kind pm) \<circ> SetAPIVersion A (pm_APIVersion pm)) Map.empty"

text \<open>\<open>get\<close> is the one-shot GET of the full object.\<close>

definition metadata_resolve ::
  "Accessors \<Rightarrow> bool \<Rightarrow> (string \<Rightarrow> string \<Rightarrow> obj res) \<Rightarrow> PartialObjectMetadata \<Rightarrow> obj option"
where
  "metadata_resolve A fetchFull get pm =
     (if \<not> fetchFull then Some (of_metadata A pm)
      else case get (pm_Namespace pm) (pm_Name pm) of Inl err \<Rightarrow> None | Inr full \<Rightarrow> Some full)"

definition name_only_delete :: "CapabilityKind \<Rightarrow> string \<Rightarrow> Capability" where
  "name_only_delete kind name =
     (new_capability name [] [] None None)\<lparr>cap_Kind := kind, cap_Action := CAPABILITY_ACTION_DELETE\<rparr>"

definition metadata_handler ::
  "Accessors \<Rightarrow> bool \<Rightarrow> (string \<Rightarrow> string \<Rightarrow> obj res) \<Rightarrow> CapabilityKind \<Rightarrow>
   (obj \<Rightarrow> Capability res) \<Rightarrow> PartialObjectMetadata informer_event \<Rightarrow> Capability option"
where
  "metadata_handler A fetchFull get kind mapFn ev =
     (let upsert = (\<lambda>pm. case metadata_resolve A fetchFull get pm of
                           None \<Rightarrow> None
                         | Some u \<Rightarrow> emitCapability A kind mapFn u CAPABILITY_ACTION_UPSERT);
          delete = (\<lambda>pm. if fetchFull then Some (name_only_delete kind (pm_Name pm))
                         else emitCapability A kind mapFn (of_metadata A pm) CAPABILITY_ACTION_DELETE)
      in case ev of
           Added pm \<Rightarrow> upsert pm
         | Updated pm \<Rightarrow> upsert pm
         | Deleted pm \<Rightarrow> delete pm
         | Tombstone pm \<Rightarrow> delete pm)"

section \<open>Cluster metadata (metadata.go)\<close>

text \<open>
  The scan of \<open>splitImage\<close> from the end: \<open>n\<close> is one more than the index \<open>i\<close> it looks at.
\<close>

fun split_image_from :: "string \<Rightarrow> nat \<Rightarrow> (string \<times> string) option" where
  "split_image_from img 0 = None"
| "split_image_from img (Suc i) =
     (if img ! i = CHR '':'' \<and> i + 1 < length img then Some (take i img, drop (i + 1) img)
      else if img ! i = CHR ''/'' \<or> img ! i = CHR ''@'' then None
      else split_image_from img i)"

definition splitImage :: "string \<Rightarrow> (string \<times> string) option" where
  "splitImage img = split_image_from img (length img)"

record addon_container =
  ad_Name :: string
  ad_Image :: string

record addon_deployment =
  dep_Name :: string
  dep_Labels :: "string \<Rightarrow> string option"
  dep_Containers :: "addon_container list"

definition addonVersion :: "addon_deployment \<Rightarrow> string" where
  "addonVersion d =
     (let v = mget (dep_Labels d) ''app.kubernetes.io/version''
      in if v \<noteq> [] then v
         else case List.map_filter (\<lambda>c. if ad_Name c = dep_Name d \<or> length (dep_Containers d) = 1
                                      then map_option snd (splitImage (ad_Image c)) else None) (dep_Containers d) of
                [] \<Rightarrow> [] | tag # _ \<Rightarrow> tag)"

definition stringMapToAny :: "(string \<Rightarrow> string option) \<Rightarrow> obj" where
  "stringMapToAny m = (\<lambda>k. map_option UStr (m k))"

record Taint =
  tn_Key :: string
  tn_Value :: string
  tn_Effect :: string

record Node =
  nd_Name :: string
  nd_Labels :: "string \<Rightarrow> string option"
  nd_Taints :: "Taint list"

record VersionInfo =
  vi_GitVersion :: string
  vi_Platform :: string

definition node_summary :: "Node \<Rightarrow> uval" where
  "node_summary n = UMap
     [''name'' \<mapsto> UStr (nd_Name n),
      ''labels'' \<mapsto> UMap (stringMapToAny (nd_Labels n)),
      ''taints'' \<mapsto> UList (map (\<lambda>t. UStr (tn_Key t @ ''='' @ tn_Value t @ '':'' @ tn_Effect t)) (nd_Taints n))]"

fun addon_map :: "addon_deployment list \<Rightarrow> obj \<Rightarrow> obj" where
  "addon_map [] addons = addons"
| "addon_map (d # ds) addons =
     addon_map ds (if addonVersion d \<noteq> [] then addons(dep_Name d \<mapsto> UStr (addonVersion d)) else addons)"

text \<open>
  \<open>version\<close>, \<open>nodes\<close> and \<open>deploys\<close> are the answers of the API server; \<open>deploys\<close> is asked for the
  deployments of the addons namespace, and its error only leaves the addons empty.
\<close>

definition metadata_snapshot ::
  "(obj \<Rightarrow> obj res) \<Rightarrow> VersionInfo res \<Rightarrow> Node list res \<Rightarrow> (string \<Rightarrow> addon_deployment list res) \<Rightarrow> string \<Rightarrow> Capability res"
where
  "metadata_snapshot NewStruct version nodes deploys addonsNamespace =
     (case version of
        Inl err \<Rightarrow> Inl (Wrapf ''capability metadata: server version: %w'' [] err)
      | Inr vi \<Rightarrow>
          (case nodes of
             Inl err \<Rightarrow> Inl (Wrapf ''capability metadata: list nodes: %w'' [] err)
           | Inr ns \<Rightarrow>
               let addonsNS = (if addonsNamespace = [] then ''kube-system'' else addonsNamespace);
                   addons = (case deploys addonsNS of Inl err \<Rightarrow> Map.empty | Inr ds \<Rightarrow> addon_map ds Map.empty)
               in Inr ((new_capability ''cluster'' ''inari.dev'' (vi_GitVersion vi) None
                    (mustStruct NewStruct
                       [''kubernetesVersion'' \<mapsto> UStr (vi_GitVersion vi),
                        ''platform'' \<mapsto> UStr (vi_Platform vi),
                        ''nodes'' \<mapsto> UList (map node_summary ns),
                        ''addons'' \<mapsto> UMap addons]))
                    \<lparr>cap_Kind := CAPABILITY_KIND_CLUSTER_METADATA, cap_Action := CAPABILITY_ACTION_UPSERT,
                     cap_ManagementMode := MANAGEMENT_MODE_OBSERVE_ONLY\<rparr>)))"

section \<open>Availability (discovery.go)\<close>

text \<open>\<open>GroupVersion().String()\<close>: the version alone for the core group.\<close>

definition group_version :: "GVR \<Rightarrow> string" where
  "group_version g = (if g_Group g = [] then g_Version g else g_Group g @ ''/'' @ g_Version g)"

text \<open>
  The discovery call: the resource names of the list it returned (\<open>None\<close> for nil) and the error,
  with the flag of \<open>IsGroupDiscoveryFailedError\<close>.
\<close>

definition ResourceServed ::
  "(string \<Rightarrow> string list option \<times> (go_err \<times> bool) option) \<Rightarrow> GVR \<Rightarrow> bool"
where
  "ResourceServed disc g =
     (case disc (group_version g) of
        (rl, err) \<Rightarrow>
          (case err of
             Some (e, partial) \<Rightarrow>
               if IsNotFound e then False
               else if \<not> partial then True
               else (case rl of None \<Rightarrow> True | Some rs \<Rightarrow> g_Resource g \<in> set rs)
           | None \<Rightarrow> (case rl of None \<Rightarrow> True | Some rs \<Rightarrow> g_Resource g \<in> set rs)))"

text \<open>A watcher, as the filter sees it: its resource, or \<open>None\<close> when it is not bound to one.\<close>

fun filter_available ::
  "(string \<Rightarrow> string list option \<times> (go_err \<times> bool) option) \<Rightarrow> ('x \<Rightarrow> GVR option) \<Rightarrow> 'x list \<Rightarrow>
   (string \<Rightarrow> bool option) \<Rightarrow> 'x list"
where
  "filter_available disc gvr_of [] checked = []"
| "filter_available disc gvr_of (w # ws) checked =
     (case gvr_of w of
        None \<Rightarrow> w # filter_available disc gvr_of ws checked
      | Some g \<Rightarrow>
          let gvKey = group_version g;
              avail = (case checked gvKey of Some b \<Rightarrow> b | None \<Rightarrow> ResourceServed disc g);
              rest = filter_available disc gvr_of ws (checked(gvKey \<mapsto> avail))
          in if avail then w # rest else rest)"

definition FilterAvailable ::
  "(string \<Rightarrow> string list option \<times> (go_err \<times> bool) option) \<Rightarrow> ('x \<Rightarrow> GVR option) \<Rightarrow> 'x list \<Rightarrow> 'x list"
where
  "FilterAvailable disc gvr_of watchers = filter_available disc gvr_of watchers Map.empty"

section \<open>Mappers leave the mode to the classification\<close>

definition mappers :: "Accessors \<Rightarrow> (obj \<Rightarrow> obj res) \<Rightarrow> (obj \<Rightarrow> Capability res) list" where
  "mappers A NewStruct =
     [mapCRD A NewStruct, mapXRD A NewStruct, mapComposition A, mapProvider A NewStruct,
      mapHelmSecret A NewStruct, mapRGD A NewStruct, mapCSV A NewStruct]"

lemma new_capability_mode [simp]: "cap_ManagementMode (new_capability n g v s h) = MANAGEMENT_MODE_UNSPECIFIED"
  by (simp add: new_capability_def)

lemma mapper_mode:
  assumes "mapFn \<in> set (mappers A NewStruct)" and "mapFn ob = Inr c"
  shows "cap_ManagementMode c = MANAGEMENT_MODE_UNSPECIFIED"
  using assms unfolding mappers_def
  by (auto simp: mapCRD_def mapXRD_def mapComposition_def mapProvider_def mapHelmSecret_def mapRGD_def mapCSV_def Let_def
      split: if_splits prod.splits list.splits uval.splits)

section \<open>Splitting an image reference\<close>

lemma split_image_from_Some:
  "split_image_from img n = Some (r, t) \<Longrightarrow> n \<le> length img \<Longrightarrow>
     img = r @ '':'' @ t \<and> t \<noteq> [] \<and> length r < n \<and> (\<forall>j. length r < j \<longrightarrow> j < n \<longrightarrow> img ! j \<noteq> CHR ''/'' \<and> img ! j \<noteq> CHR ''@'')"
proof (induction n)
  case (Suc i)
  show ?case
  proof (cases "img ! i = CHR '':'' \<and> i + 1 < length img")
    case True
    with Suc.prems have rt: "r = take i img" "t = drop (Suc i) img" by auto
    have "img = take i img @ img ! i # drop (Suc i) img" using Suc.prems(2) by (simp add: id_take_nth_drop [symmetric])
    with True rt Suc.prems(2) show ?thesis by auto
  next
    case False
    with Suc.prems have "split_image_from img i = Some (r, t)" "img ! i \<noteq> CHR ''/''" "img ! i \<noteq> CHR ''@''"
      by (auto split: if_splits)
    with Suc.IH Suc.prems(2) show ?thesis by (auto simp: less_Suc_eq)
  qed
qed simp

lemma split_image_from_tag:
  assumes "CHR '':'' \<notin> set t" "CHR ''/'' \<notin> set t" "CHR ''@'' \<notin> set t" "t \<noteq> []"
  shows "k \<le> length t \<Longrightarrow> split_image_from (r @ '':'' @ t) (length r + 1 + k) = Some (r, t)"
proof (induction k)
  case 0
  from assms(4) show ?case by (simp add: nth_append)
next
  case (Suc k)
  let ?img = "r @ '':'' @ t"
  have "?img ! (length r + 1 + k) = t ! k" by (simp add: nth_append)
  moreover have "t ! k \<in> set t" using Suc.prems by simp
  ultimately have "?img ! (length r + 1 + k) \<noteq> c" if "c \<notin> set t" for c using that by metis
  from this [OF assms(1)] this [OF assms(2)] this [OF assms(3)] Suc show ?case by (simp del: append.simps append_assoc)
qed

section \<open>The availability filter\<close>

text \<open>Whether the first watcher of the group/version is served.\<close>

definition first_served ::
  "(string \<Rightarrow> string list option \<times> (go_err \<times> bool) option) \<Rightarrow> ('x \<Rightarrow> GVR option) \<Rightarrow> 'x list \<Rightarrow> string \<Rightarrow> bool" where
  "first_served disc gvr_of ws gv =
     (case List.map_filter gvr_of ws of gs \<Rightarrow>
        (case find (\<lambda>g. group_version g = gv) gs of None \<Rightarrow> True | Some g \<Rightarrow> ResourceServed disc g))"

lemma first_served_Cons:
  "first_served disc gvr_of (w # ws) gv =
     (case gvr_of w of None \<Rightarrow> first_served disc gvr_of ws gv
      | Some g \<Rightarrow> if group_version g = gv then ResourceServed disc g else first_served disc gvr_of ws gv)"
  by (simp add: first_served_def map_filter_simps split: option.split)

lemma filter_available_eq:
  "filter_available disc gvr_of ws checked =
     filter (\<lambda>w. case gvr_of w of None \<Rightarrow> True
                 | Some g \<Rightarrow> (case checked (group_version g) of Some b \<Rightarrow> b
                             | None \<Rightarrow> first_served disc gvr_of ws (group_version g))) ws"
proof (induction ws arbitrary: checked)
  case (Cons w ws)
  show ?case
  proof (cases "gvr_of w")
    case None
    then have fs: "first_served disc gvr_of (w # ws) = first_served disc gvr_of ws" by (simp add: fun_eq_iff first_served_Cons)
    from None Cons.IH show ?thesis unfolding fs by simp
  next
    case (Some g)
    define b where "b = (case checked (group_version g) of Some b \<Rightarrow> b | None \<Rightarrow> ResourceServed disc g)"
    define keep where "keep = (\<lambda>w'. case gvr_of w' of None \<Rightarrow> True
                 | Some g' \<Rightarrow> (case checked (group_version g') of Some b \<Rightarrow> b
                             | None \<Rightarrow> first_served disc gvr_of (w # ws) (group_version g')))"
    have "filter_available disc gvr_of ws (checked(group_version g \<mapsto> b)) = filter keep ws"
      unfolding Cons.IH keep_def
      by (rule filter_cong) (auto simp: first_served_Cons Some b_def split: option.splits)
    moreover have "keep w = b" by (simp add: keep_def b_def Some first_served_Cons split: option.split)
    moreover have "filter_available disc gvr_of (w # ws) checked =
        (if b then w # filter_available disc gvr_of ws (checked(group_version g \<mapsto> b))
         else filter_available disc gvr_of ws (checked(group_version g \<mapsto> b)))"
      by (simp add: Some Let_def b_def)
    ultimately have "filter_available disc gvr_of (w # ws) checked = filter keep (w # ws)"
      by (simp only: filter.simps)
    then show ?thesis unfolding keep_def .
  qed
qed simp

section \<open>Properties\<close>

text \<open>
  Discovery is observe-only unless a resource says otherwise: whatever mapper produced it,
  an emitted capability has the management mode of the object's annotation, with observe-only
  as the default; adoption appears only with the annotation \<open>adopt\<close>; and a resource annotated
  \<open>ignore\<close> is always emitted as a delete.
\<close>

theorem emission_observe_only:
  assumes "mapFn \<in> set (mappers A NewStruct)" and "emitCapability A kind mapFn ob action = Some c"
  shows "cap_Kind c = kind
    \<and> (cap_ManagementMode c = MANAGEMENT_MODE_ADOPT \<longleftrightarrow> mget (GetAnnotations A ob) ManagementAnnotation = ''adopt'')
    \<and> (cap_ManagementMode c = MANAGEMENT_MODE_OBSERVE_ONLY \<longleftrightarrow>
         mget (GetAnnotations A ob) ManagementAnnotation \<notin> {''adopt'', ''ignore''})
    \<and> cap_Action c = (if mget (GetAnnotations A ob) ManagementAnnotation = ''ignore'' then CAPABILITY_ACTION_DELETE else action)"
proof -
  from assms(2) obtain c0 where c0: "mapFn ob = Inr c0" by (auto simp: emitCapability_def split: sum.splits)
  with assms(1) have "cap_ManagementMode c0 = MANAGEMENT_MODE_UNSPECIFIED" by (rule mapper_mode)
  with assms(2) c0 show ?thesis by (auto simp: emitCapability_def Let_def Classify_def split: if_splits)
qed

theorem emission_observe_only_witness:
  "\<exists>c. emitCapability ref_accessors CAPABILITY_KIND_CROSSPLANE_XRD (mapComposition ref_accessors)
         [''metadata'' \<mapsto> UMap [''name'' \<mapsto> UStr ''x'', ''annotations'' \<mapsto> UMap [''inari.dev/management'' \<mapsto> UStr ''ignore'']]]
         CAPABILITY_ACTION_UPSERT = Some c \<and> cap_Action c = CAPABILITY_ACTION_DELETE"
proof -
  let ?ob = "[''metadata'' \<mapsto> UMap [''name'' \<mapsto> UStr ''x'', ''annotations'' \<mapsto> UMap [''inari.dev/management'' \<mapsto> UStr ''ignore'']]]"
  obtain c where c: "emitCapability ref_accessors CAPABILITY_KIND_CROSSPLANE_XRD (mapComposition ref_accessors) ?ob CAPABILITY_ACTION_UPSERT = Some c"
    by (simp add: emitCapability_def mapComposition_def Let_def)
  have "mapComposition ref_accessors \<in> set (mappers ref_accessors Inr)" by (simp add: mappers_def)
  from emission_observe_only [OF this c] c show ?thesis
    by (simp add: mget_def ref_accessors_def str_map_def ManagementAnnotation_def)
qed

text \<open>
  The tag of an image reference: \<open>splitImage\<close> finds the repository and the tag of every
  reference whose tag has no colon, slash or at sign, and whatever it returns is a split of
  the reference at a colon with a non-empty tag that reaches across no slash or at sign, so a
  registry port is never taken for a tag. A digest is: the colon of \<open>@sha256:\<close> is met before the
  at sign, and the hex digits are returned as the tag.
\<close>

theorem image_tag_split:
  "(t \<noteq> [] \<longrightarrow> set t \<inter> {CHR '':'', CHR ''/'', CHR ''@''} = {} \<longrightarrow> splitImage (r @ '':'' @ t) = Some (r, t)
      \<and> splitImage (r @ ''@sha256:'' @ t) = Some (r @ ''@sha256'', t))
   \<and> (splitImage img = Some (r', t') \<longrightarrow> img = r' @ '':'' @ t' \<and> t' \<noteq> [] \<and> CHR ''/'' \<notin> set t' \<and> CHR ''@'' \<notin> set t')"
proof (intro conjI impI)
  assume "t \<noteq> []" "set t \<inter> {CHR '':'', CHR ''/'', CHR ''@''} = {}"
  then show "splitImage (r @ '':'' @ t) = Some (r, t)" "splitImage (r @ ''@sha256:'' @ t) = Some (r @ ''@sha256'', t)"
    using split_image_from_tag [of t "length t" r] split_image_from_tag [of t "length t" "r @ ''@sha256''"]
    by (auto simp: splitImage_def)
next
  assume s: "splitImage img = Some (r', t')"
  then have sp: "img = r' @ '':'' @ t'" "t' \<noteq> []"
    and no: "\<forall>j. length r' < j \<longrightarrow> j < length img \<longrightarrow> img ! j \<noteq> CHR ''/'' \<and> img ! j \<noteq> CHR ''@''"
    using split_image_from_Some [of img "length img" r' t'] by (auto simp: splitImage_def)
  from sp show "img = r' @ '':'' @ t'" "t' \<noteq> []" by simp_all
  have "t' ! k \<noteq> CHR ''/'' \<and> t' ! k \<noteq> CHR ''@''" if "k < length t'" for k
  proof -
    have "img ! (length r' + 1 + k) = t' ! k" by (simp add: sp nth_append)
    moreover have "length r' + 1 + k < length img" using that by (simp add: sp)
    ultimately show ?thesis using no by (metis add_Suc_right add.assoc less_add_Suc1 plus_1_eq_Suc)
  qed
  then show "CHR ''/'' \<notin> set t'" "CHR ''@'' \<notin> set t'" by (metis in_set_conv_nth)+
qed

theorem image_tag_split_witness:
  "splitImage (''registry:5000/coredns'' @ '':'' @ ''v1.11.1'') = Some (''registry:5000/coredns'', ''v1.11.1'')"
  using image_tag_split [of "''v1.11.1''" "''registry:5000/coredns''" "[]" "[]" "[]"] by simp

text \<open>
  The availability filter keeps a watcher exactly when it is bound to no resource, or when
  the first watcher of its group/version is served: the answer for one resource decides for
  every other resource of the same group/version.
\<close>

theorem filter_decided_by_first:
  "FilterAvailable disc gvr_of ws =
     filter (\<lambda>w. case gvr_of w of None \<Rightarrow> True | Some g \<Rightarrow> first_served disc gvr_of ws (group_version g)) ws"
  unfolding FilterAvailable_def filter_available_eq by (rule filter_cong) (simp_all split: option.split)

end
