(* ===== verification/Aggregator.thy ===== *)
theory Aggregator
  imports Capability
begin

text \<open>
  The capability aggregator (\<open>internal/capability/aggregate.go\<close>, \<open>checksum.go\<close>): the snapshot of
  all discovered capabilities, its checksum kept incrementally, the byte-bounded chunks of an
  update and the full replay that ends with an empty terminal chunk.

  Parameters: \<open>ks\<close> is the generated \<open>String\<close> method of a capability kind, \<open>marshal\<close> the
  deterministic protobuf encoding, \<open>H\<close> SHA-256 (raw bytes), \<open>hex\<close> the hex encoding, \<open>sz\<close> is
  \<open>proto.Size\<close>, \<open>order\<close> the iteration order of a Go map. A batch of \<open>Run\<close> is the list of
  capabilities it drained before the timer fired or the batch was full.
\<close>

section \<open>Chunks (aggregate.go)\<close>

definition DefaultMaxBatchBytes :: int where
  "DefaultMaxBatchBytes = 2 * 2 ^ 20"

text \<open>The loop: the chunks so far, the current chunk and its size.\<close>

fun split_loop :: "('c \<Rightarrow> int) \<Rightarrow> int \<Rightarrow> 'c list \<Rightarrow> 'c list list \<Rightarrow> 'c list \<Rightarrow> int \<Rightarrow> 'c list list" where
  "split_loop sz maxBytes [] chunks cur curBytes = (if length cur > 0 then chunks @ [cur] else chunks)"
| "split_loop sz maxBytes (c # caps) chunks cur curBytes =
     (if length cur > 0 \<and> curBytes + sz c > maxBytes
      then split_loop sz maxBytes caps (chunks @ [cur]) [c] (sz c)
      else split_loop sz maxBytes caps chunks (cur @ [c]) (curBytes + sz c))"

definition byte_budget :: "int \<Rightarrow> int" where
  "byte_budget maxBytes = (if maxBytes \<le> 0 then DefaultMaxBatchBytes else maxBytes)"

definition splitByByteBudget :: "('c \<Rightarrow> int) \<Rightarrow> 'c list \<Rightarrow> int \<Rightarrow> 'c list list" where
  "splitByByteBudget sz caps maxBytes = split_loop sz (byte_budget maxBytes) caps [] [] 0"

section \<open>Checksums (checksum.go)\<close>

definition capabilityKey :: "(CapabilityKind \<Rightarrow> string) \<Rightarrow> Capability \<Rightarrow> string" where
  "capabilityKey ks c = ks (cap_Kind c) @ ''/'' @ cap_Group c @ ''/'' @ cap_Name c @ ''/'' @ cap_Version c"

definition DigestCapability :: "(Capability \<Rightarrow> string res) \<Rightarrow> (string \<Rightarrow> string) \<Rightarrow> Capability \<Rightarrow> string option" where
  "DigestCapability marshal H c = (case marshal c of Inl err \<Rightarrow> None | Inr raw \<Rightarrow> Some (H raw))"

definition ChecksumDigests :: "(string \<Rightarrow> string) \<Rightarrow> (string \<Rightarrow> string) \<Rightarrow> (string, string) fmap \<Rightarrow> string" where
  "ChecksumDigests H hex digests =
     hex (H (concat (map (\<lambda>k. k @ (case fmlookup digests k of None \<Rightarrow> [] | Some d \<Rightarrow> d))
                         (sorted_list_of_set (fset (fmdom digests))))))"

text \<open>The loop of \<open>StateChecksum\<close>; a nil entry and one that does not marshal are skipped.\<close>

fun state_digests ::
  "(CapabilityKind \<Rightarrow> string) \<Rightarrow> (Capability \<Rightarrow> string option) \<Rightarrow> Capability option list \<Rightarrow> (string, string) fmap \<Rightarrow> (string, string) fmap"
where
  "state_digests ks digest [] ds = ds"
| "state_digests ks digest (None # cs) ds = state_digests ks digest cs ds"
| "state_digests ks digest (Some c # cs) ds =
     (case digest c of
        None \<Rightarrow> state_digests ks digest cs ds
      | Some dg \<Rightarrow> state_digests ks digest cs (fmupd (capabilityKey ks c) dg ds))"

definition StateChecksum ::
  "(CapabilityKind \<Rightarrow> string) \<Rightarrow> (Capability \<Rightarrow> string res) \<Rightarrow> (string \<Rightarrow> string) \<Rightarrow> (string \<Rightarrow> string) \<Rightarrow> Capability option list \<Rightarrow> string"
where
  "StateChecksum ks marshal H hex caps = ChecksumDigests H hex (state_digests ks (DigestCapability marshal H) caps fmempty)"

section \<open>The aggregator (aggregate.go)\<close>

record Aggregator =
  ag_TenantID :: string
  ag_ClusterID :: string
  ag_MaxBatch :: int
  ag_MaxBatchBytes :: int
  ag_snapshot :: "(string, Capability) fmap"
  ag_digests :: "(string, string) fmap"

definition NewAggregator :: "string \<Rightarrow> string \<Rightarrow> Aggregator" where
  "NewAggregator tenantID clusterID =
     \<lparr>ag_TenantID = tenantID, ag_ClusterID = clusterID, ag_MaxBatch = 64, ag_MaxBatchBytes = 0,
      ag_snapshot = fmempty, ag_digests = fmempty\<rparr>"

definition Checksum :: "(string \<Rightarrow> string) \<Rightarrow> (string \<Rightarrow> string) \<Rightarrow> Aggregator \<Rightarrow> string" where
  "Checksum H hex a = ChecksumDigests H hex (ag_digests a)"

text \<open>The keys a name-only delete removes.\<close>

definition name_matches :: "(CapabilityKind \<Rightarrow> string) \<Rightarrow> Capability \<Rightarrow> string \<Rightarrow> bool" where
  "name_matches ks c k \<longleftrightarrow> HasPrefix k (ks (cap_Kind c) @ ''/'') \<and> Contains k (''/'' @ cap_Name c @ ''/'')"

definition apply_cap ::
  "(CapabilityKind \<Rightarrow> string) \<Rightarrow> (Capability \<Rightarrow> string option) \<Rightarrow> Capability \<Rightarrow> Aggregator \<Rightarrow> Aggregator"
where
  "apply_cap ks digest c a =
     (let key = capabilityKey ks c
      in if cap_Action c = CAPABILITY_ACTION_DELETE then
           let snap = fmdrop key (ag_snapshot a); digs = fmdrop key (ag_digests a);
               gone = (if cap_Group c = [] then ffilter (name_matches ks c) (fmdom snap) else {||})
           in a\<lparr>ag_snapshot := fmdrop_fset gone snap, ag_digests := fmdrop_fset gone digs\<rparr>
         else
           let a1 = a\<lparr>ag_snapshot := fmupd key c (ag_snapshot a)\<rparr>
           in (case digest c of
                 Some dg \<Rightarrow> a1\<lparr>ag_digests := fmupd key dg (ag_digests a1)\<rparr>
               | None \<Rightarrow> a1))"

record CapabilityUpdate =
  cu_FullSync :: bool
  cu_Capabilities :: "Capability list"
  cu_StateChecksum :: string

text \<open>
  \<open>anyNew\<close> packs the update, \<open>now\<close> is the clock, \<open>Send\<close> the stream client's \<open>Send\<close>. The metrics are
  left out.
\<close>

definition sendChunk ::
  "'p Codec \<Rightarrow> (CapabilityUpdate \<Rightarrow> 'p res) \<Rightarrow> ('w \<Rightarrow> int) \<Rightarrow> ('p Event \<Rightarrow> 'w \<Rightarrow> go_err option \<times> 'w) \<Rightarrow> Aggregator \<Rightarrow>
   CapabilityUpdate \<Rightarrow> 'w \<Rightarrow> go_err option \<times> 'w"
where
  "sendChunk cd anyNew now Send a u w =
     (case anyNew u of
        Inl err \<Rightarrow> (Some (Wrapf ''aggregator: marshal capability update: %w'' [] err), w)
      | Inr payload \<Rightarrow>
          Send \<lparr>ev_EventId = ''cap-'' @ ag_ClusterID a @ ''-'' @ show_int (now w), ev_ResourceId = ag_ClusterID a,
                ev_Type = EventTypeString cd EVENT_TYPE_CAPABILITY_UPDATE, ev_Payload = Some payload\<rparr> w)"

text \<open>Send the updates in order, up to the first error.\<close>

fun send_updates ::
  "(CapabilityUpdate \<Rightarrow> 'w \<Rightarrow> go_err option \<times> 'w) \<Rightarrow> CapabilityUpdate list \<Rightarrow> 'w \<Rightarrow> go_err option \<times> 'w"
where
  "send_updates chunk [] w = (None, w)"
| "send_updates chunk (u # us) w =
     (case chunk u w of (Some err, w1) \<Rightarrow> (Some err, w1) | (None, w1) \<Rightarrow> send_updates chunk us w1)"

definition chunk_updates :: "bool \<Rightarrow> string \<Rightarrow> Capability list list \<Rightarrow> CapabilityUpdate list" where
  "chunk_updates fullSync checksum chunks =
     map (\<lambda>ch. \<lparr>cu_FullSync = fullSync, cu_Capabilities = ch, cu_StateChecksum = checksum\<rparr>) chunks"

text \<open>\<open>chunk\<close> is \<open>sendChunk\<close> of this aggregator; a nil client sends nothing (\<open>None\<close>).\<close>

definition send ::
  "(Capability \<Rightarrow> int) \<Rightarrow> (string \<Rightarrow> string) \<Rightarrow> (string \<Rightarrow> string) \<Rightarrow> (CapabilityUpdate \<Rightarrow> 'w \<Rightarrow> go_err option \<times> 'w) option \<Rightarrow>
   Aggregator \<Rightarrow> Capability list \<Rightarrow> bool \<Rightarrow> 'w \<Rightarrow> go_err option \<times> 'w"
where
  "send sz H hex client a caps fullSync w =
     (case client of
        None \<Rightarrow> (None, w)
      | Some chunk \<Rightarrow>
          if length caps = 0 \<and> \<not> fullSync then (None, w)
          else send_updates chunk (chunk_updates fullSync (Checksum H hex a) (splitByByteBudget sz caps (ag_MaxBatchBytes a))) w)"

definition snapshot_caps :: "((string, Capability) fmap \<Rightarrow> string list) \<Rightarrow> Aggregator \<Rightarrow> Capability list" where
  "snapshot_caps order a = List.map_filter (fmlookup (ag_snapshot a)) (order (ag_snapshot a))"

definition ReplayFullState ::
  "(Capability \<Rightarrow> int) \<Rightarrow> (string \<Rightarrow> string) \<Rightarrow> (string \<Rightarrow> string) \<Rightarrow> ((string, Capability) fmap \<Rightarrow> string list) \<Rightarrow>
   (CapabilityUpdate \<Rightarrow> 'w \<Rightarrow> go_err option \<times> 'w) \<Rightarrow> Aggregator \<Rightarrow> 'w \<Rightarrow> go_err option \<times> 'w"
where
  "ReplayFullState sz H hex order chunk a w =
     (let caps = snapshot_caps order a; checksum = Checksum H hex a
      in case send_updates chunk (chunk_updates True checksum (splitByByteBudget sz caps (ag_MaxBatchBytes a))) w of
           (Some err, w1) \<Rightarrow> (Some err, w1)
         | (None, w1) \<Rightarrow> chunk \<lparr>cu_FullSync = True, cu_Capabilities = [], cu_StateChecksum = checksum\<rparr> w1)"

text \<open>
  The loop of \<open>Run\<close>: every batch is applied to the snapshot and then sent as one incremental
  update; the first failed send ends the loop with its error.
\<close>

fun run_batches ::
  "(CapabilityKind \<Rightarrow> string) \<Rightarrow> (Capability \<Rightarrow> string option) \<Rightarrow> (Aggregator \<Rightarrow> Capability list \<Rightarrow> 'w \<Rightarrow> go_err option \<times> 'w) \<Rightarrow>
   Capability list list \<Rightarrow> Aggregator \<Rightarrow> 'w \<Rightarrow> go_err option \<times> Aggregator \<times> 'w"
where
  "run_batches ks digest sender [] a w = (None, a, w)"
| "run_batches ks digest sender (batch # bs) a w =
     (let a1 = fold (apply_cap ks digest) batch a
      in case sender a1 batch w of
           (Some err, w1) \<Rightarrow> (Some err, a1, w1)
         | (None, w1) \<Rightarrow> run_batches ks digest sender bs a1 w1)"

section \<open>Chunks partition their input\<close>

definition chunk_ok :: "('c \<Rightarrow> int) \<Rightarrow> int \<Rightarrow> 'c list \<Rightarrow> bool" where
  "chunk_ok sz budget ch \<longleftrightarrow> ch \<noteq> [] \<and> (sum_list (map sz ch) \<le> budget \<or> length ch = 1)"

lemma split_loop_concat: "concat (split_loop sz m caps chunks cur n) = concat chunks @ cur @ caps"
  by (induction sz m caps chunks cur n rule: split_loop.induct) auto

lemma split_loop_ok:
  assumes "\<forall>ch \<in> set chunks. chunk_ok sz m ch" and "cur \<noteq> [] \<longrightarrow> chunk_ok sz m cur" and "n = sum_list (map sz cur)"
  shows "\<forall>ch \<in> set (split_loop sz m caps chunks cur n). chunk_ok sz m ch"
  using assms
proof (induction sz m caps chunks cur n rule: split_loop.induct)
  case (2 sz m c caps chunks cur n)
  show ?case
  proof (cases "length cur > 0 \<and> n + sz c > m")
    case True
    have "\<forall>ch \<in> set (split_loop sz m caps (chunks @ [cur]) [c] (sz c)). chunk_ok sz m ch"
      using True 2(3,4) by (intro 2(1)) (auto simp: chunk_ok_def)
    with True show ?thesis by simp
  next
    case False
    then have "chunk_ok sz m (cur @ [c])" using 2(4,5) by (auto simp: chunk_ok_def)
    then have "\<forall>ch \<in> set (split_loop sz m caps chunks (cur @ [c]) (n + sz c)). chunk_ok sz m ch"
      using False 2(3,5) by (intro 2(2)) auto
    then show ?thesis using False by (simp only: split_loop.simps if_False)
  qed
qed auto

section \<open>The checksum is incremental\<close>

text \<open>
  The digest cache agrees with the snapshot, and every capability sits under its own key.
\<close>

definition digests_inv :: "(CapabilityKind \<Rightarrow> string) \<Rightarrow> (Capability \<Rightarrow> string option) \<Rightarrow> Aggregator \<Rightarrow> bool" where
  "digests_inv ks digest a \<longleftrightarrow>
     (\<forall>k. fmlookup (ag_digests a) k = Option.bind (fmlookup (ag_snapshot a) k) digest) \<and>
     (\<forall>k c. fmlookup (ag_snapshot a) k = Some c \<longrightarrow> capabilityKey ks c = k)"

lemma digests_inv_new: "digests_inv ks digest (NewAggregator t c)"
  by (simp add: digests_inv_def NewAggregator_def)

lemma digests_inv_apply:
  assumes "digests_inv ks digest a" and "cap_Action c \<noteq> CAPABILITY_ACTION_DELETE \<Longrightarrow> digest c \<noteq> None"
  shows "digests_inv ks digest (apply_cap ks digest c a)"
proof (cases "cap_Action c = CAPABILITY_ACTION_DELETE")
  case True
  with assms(1) show ?thesis by (simp add: digests_inv_def apply_cap_def Let_def)
next
  case False
  with assms obtain d where "digest c = Some d" by blast
  with False assms(1) show ?thesis by (simp add: digests_inv_def apply_cap_def Let_def)
qed

lemma digests_inv_fold:
  assumes "\<forall>c \<in> set cs. cap_Action c \<noteq> CAPABILITY_ACTION_DELETE \<longrightarrow> digest c \<noteq> None" and "digests_inv ks digest a"
  shows "digests_inv ks digest (fold (apply_cap ks digest) cs a)"
  using assms by (induction cs arbitrary: a) (auto intro: digests_inv_apply)

lemma state_digests_lookup:
  assumes "distinct (map (capabilityKey ks) cs)"
  shows "fmlookup (state_digests ks digest (map Some cs) ds) k =
     (case find (\<lambda>c. capabilityKey ks c = k) cs of
        None \<Rightarrow> fmlookup ds k
      | Some c \<Rightarrow> (case digest c of None \<Rightarrow> fmlookup ds k | Some d \<Rightarrow> Some d))"
  using assms
proof (induction cs arbitrary: ds)
  case (Cons c cs)
  have none: "find (\<lambda>x. capabilityKey ks x = capabilityKey ks c) cs = None"
    using Cons.prems by (auto simp: find_None_iff image_iff)
  show ?case
    using Cons none by (auto split: option.splits)
qed simp

lemma order_values:
  assumes "set (order m) = fset (fmdom m)" and "distinct (order m)"
    and "\<forall>k c. fmlookup m k = Some c \<longrightarrow> capabilityKey ks c = k"
  shows "map (capabilityKey ks) (List.map_filter (fmlookup m) (order m)) = order m"
proof -
  have "map (capabilityKey ks) (List.map_filter (fmlookup m) xs) = xs" if "set xs \<subseteq> fset (fmdom m)" for xs
    using that assms(3) by (induction xs) (auto simp: map_filter_simps fmlookup_dom_iff split: option.split)
  then show ?thesis using assms(1) by simp
qed

definition enumerates_caps :: "((string, Capability) fmap \<Rightarrow> string list) \<Rightarrow> bool" where
  "enumerates_caps order \<longleftrightarrow> (\<forall>m. set (order m) = fset (fmdom m) \<and> distinct (order m))"

lemma set_map_filter_iff: "y \<in> set (List.map_filter f xs) \<longleftrightarrow> (\<exists>x \<in> set xs. f x = Some y)"
  by (induction xs) (auto simp: map_filter_simps split: option.splits)

lemma set_snapshot_caps:
  assumes "enumerates_caps order"
  shows "set (snapshot_caps order a) = {c. \<exists>k. fmlookup (ag_snapshot a) k = Some c}"
  using assms by (auto simp: snapshot_caps_def set_map_filter_iff enumerates_caps_def intro!: fBexI [OF _ fmdomI])

lemma find_key:
  assumes "distinct (map f cs)" and "c \<in> set cs"
  shows "find (\<lambda>x. f x = f c) cs = Some c"
  using assms by (induction cs) (auto simp: image_iff)

lemma state_digests_snapshot:
  assumes "enumerates_caps order" and "digests_inv ks digest a"
  shows "state_digests ks digest (map Some (snapshot_caps order a)) fmempty = ag_digests a"
proof (rule fmap_ext)
  fix k
  let ?cs = "snapshot_caps order a"
  have keys: "map (capabilityKey ks) ?cs = order (ag_snapshot a)"
    using assms order_values [of order "ag_snapshot a" ks] by (simp add: snapshot_caps_def enumerates_caps_def digests_inv_def)
  then have dist: "distinct (map (capabilityKey ks) ?cs)" using assms(1) by (simp add: enumerates_caps_def)
  have "find (\<lambda>c. capabilityKey ks c = k) ?cs = fmlookup (ag_snapshot a) k"
  proof (cases "fmlookup (ag_snapshot a) k")
    case None
    then have "k \<notin> set (map (capabilityKey ks) ?cs)"
      using assms(1) unfolding keys by (simp add: enumerates_caps_def fmlookup_dom_iff)
    then have "find (\<lambda>c. capabilityKey ks c = k) ?cs = None" by (auto simp: find_None_iff)
    with None show ?thesis by simp
  next
    case (Some c)
    then have "c \<in> set ?cs" "capabilityKey ks c = k"
      using assms by (auto simp: set_snapshot_caps digests_inv_def)
    with find_key [OF dist this(1)] Some show ?thesis by simp
  qed
  then show "fmlookup (state_digests ks digest (map Some ?cs) fmempty) k = fmlookup (ag_digests a) k"
    using state_digests_lookup [OF dist, of digest fmempty k] assms(2)
    by (cases "fmlookup (ag_snapshot a) k") (auto simp: digests_inv_def split: option.split)
qed

section \<open>Sending\<close>

lemma send_updates_append:
  "send_updates chunk (us @ [t]) w =
     (case send_updates chunk us w of (Some err, w1) \<Rightarrow> (Some err, w1) | (None, w1) \<Rightarrow> chunk t w1)"
  by (induction us arbitrary: w) (auto split: prod.splits option.splits)

section \<open>Properties\<close>

text \<open>
  Chunks partition an update: their concatenation is the list of capabilities in order, no
  chunk is empty, and every chunk stays within the byte budget unless it is a single
  capability that is larger by itself.
\<close>

theorem chunks_partition:
  "concat (splitByByteBudget sz caps maxBytes) = caps
   \<and> (\<forall>ch \<in> set (splitByByteBudget sz caps maxBytes).
        ch \<noteq> [] \<and> (sum_list (map sz ch) \<le> (if maxBytes \<le> 0 then 2 * 2 ^ 20 else maxBytes) \<or> length ch = 1))"
  using split_loop_concat [of sz "byte_budget maxBytes" caps "[]" "[]" 0] split_loop_ok [of "[]" sz "byte_budget maxBytes" "[]" 0 caps]
  by (auto simp: splitByByteBudget_def chunk_ok_def byte_budget_def DefaultMaxBatchBytes_def)

theorem chunks_partition_witness:
  "concat (splitByByteBudget (\<lambda>n. n) [3, 4, 9, 1] 8) = [3, 4, 9, 1]
   \<and> splitByByteBudget (\<lambda>n. n) [3, 4, 9, 1] 8 = [[3, 4], [9], [1]]"
  using chunks_partition [of "\<lambda>n. n" "[3, 4, 9, 1]" 8] by (simp add: splitByByteBudget_def byte_budget_def)

text \<open>
  C38. The incremental checksum is the checksum of the full state: after any sequence of upserts
  and deletes whose upserts marshal, the checksum the aggregator keeps equals \<open>StateChecksum\<close> of
  its snapshot, listed in any order. So the gateway and the agent agree after a reconnect, and
  the order of Go's maps does not matter.
\<close>

theorem incremental_checksum:
  assumes "\<forall>c \<in> set caps. cap_Action c \<noteq> CAPABILITY_ACTION_DELETE \<longrightarrow> DigestCapability marshal H c \<noteq> None"
    and "enumerates_caps order"
    and "a = fold (apply_cap ks (DigestCapability marshal H)) caps (NewAggregator tenant cluster)"
  shows "Checksum H hex a = StateChecksum ks marshal H hex (map Some (snapshot_caps order a))"
proof -
  have "digests_inv ks (DigestCapability marshal H) a"
    unfolding assms(3) using assms(1) digests_inv_new by (rule digests_inv_fold)
  then show ?thesis
    using state_digests_snapshot [OF assms(2)] by (simp add: Checksum_def StateChecksum_def)
qed

theorem incremental_checksum_witness:
  "let c = (new_capability ''x'' ''g'' ''v1'' None None)\<lparr>cap_Action := CAPABILITY_ACTION_UPSERT\<rparr>;
       a = fold (apply_cap (\<lambda>k. ''K'') (DigestCapability (\<lambda>c. Inr (cap_Name c)) (\<lambda>b. b))) [c] (NewAggregator ''t'' ''c'')
   in Checksum (\<lambda>b. b) (\<lambda>b. b) a =
      StateChecksum (\<lambda>k. ''K'') (\<lambda>c. Inr (cap_Name c)) (\<lambda>b. b) (\<lambda>b. b) (map Some (snapshot_caps (\<lambda>m. sorted_list_of_set (fset (fmdom m))) a))"
  unfolding Let_def
  by (rule incremental_checksum [OF _ _ refl]) (simp_all add: DigestCapability_def enumerates_caps_def)



text \<open>
  A changed version leaves the old entry behind: when a capability is published with a new
  version (a Kubernetes upgrade for the cluster metadata, a new storage version of a CRD), the
  snapshot keeps both entries, because the key contains the version and no delete is applied
  for the old one.
\<close>

theorem version_change_keeps_old_entry:
  assumes "cap_Action c = CAPABILITY_ACTION_UPSERT" and "v \<noteq> cap_Version c"
  shows "let a2 = fold (apply_cap ks digest) [c, c\<lparr>cap_Version := v\<rparr>] a
         in fmlookup (ag_snapshot a2) (capabilityKey ks c) = Some c
          \<and> fmlookup (ag_snapshot a2) (capabilityKey ks (c\<lparr>cap_Version := v\<rparr>)) = Some (c\<lparr>cap_Version := v\<rparr>)"
  using assms by (simp add: apply_cap_def capabilityKey_def Let_def split: option.split)

theorem version_change_keeps_old_entry_witness:
  "let c = (new_capability ''cluster'' ''inari.dev'' ''v1.30'' None None)\<lparr>cap_Action := CAPABILITY_ACTION_UPSERT\<rparr>;
       a2 = fold (apply_cap (\<lambda>k. ''K'') (\<lambda>c. None)) [c, c\<lparr>cap_Version := ''v1.31''\<rparr>] (NewAggregator ''t'' ''c'')
   in fmlookup (ag_snapshot a2) (capabilityKey (\<lambda>k. ''K'') c) = Some c"
  using version_change_keeps_old_entry [of "(new_capability ''cluster'' ''inari.dev'' ''v1.30'' None None)\<lparr>cap_Action := CAPABILITY_ACTION_UPSERT\<rparr>"
      "''v1.31''" "\<lambda>k. ''K''" "\<lambda>c. None" "NewAggregator ''t'' ''c''"]
  by (simp add: Let_def new_capability_def)

text \<open>
  Deleting a custom resource definition by name removes it, in every version, and also
  removes every definition whose API group is that name: the delete matches the name
  anywhere between two slashes of the key.
\<close>

theorem name_only_delete_reach:
  assumes "cap_Kind c = kind" and "cap_Name c = name \<or> cap_Group c = name"
  shows "fmlookup (ag_snapshot (apply_cap ks digest (name_only_delete kind name) a)) (capabilityKey ks c) = None"
proof -
  have "name_matches ks (name_only_delete kind name) (capabilityKey ks c)"
    using assms
    by (auto simp: name_matches_def name_only_delete_def new_capability_def capabilityKey_def HasPrefix_iff Contains_iff)
      (metis append_Cons append_Nil append_assoc)+
  then show ?thesis
    by (simp add: apply_cap_def Let_def name_only_delete_def new_capability_def fmlookup_dom_iff)
qed

text \<open>The group \<open>foos.example.com\<close> happens to be the name of another definition.\<close>

theorem name_only_delete_reach_witness:
  "let c = (new_capability ''bars.foos.example.com'' ''foos.example.com'' ''v1'' None None)
              \<lparr>cap_Kind := CAPABILITY_KIND_CRD, cap_Action := CAPABILITY_ACTION_UPSERT\<rparr>;
       a = apply_cap (\<lambda>k. ''CRD'') (\<lambda>c. None) c (NewAggregator ''t'' ''c'')
   in fmlookup (ag_snapshot a) (capabilityKey (\<lambda>k. ''CRD'') c) = Some c
    \<and> fmlookup (ag_snapshot (apply_cap (\<lambda>k. ''CRD'') (\<lambda>c. None) (name_only_delete CAPABILITY_KIND_CRD ''foos.example.com'') a))
        (capabilityKey (\<lambda>k. ''CRD'') c) = None"
  unfolding Let_def
  by (intro conjI name_only_delete_reach) (simp_all add: apply_cap_def new_capability_def)

end
