(* ===== verification/Event_Sender.thy ===== *)
theory Event_Sender
  imports Agent_Proto
begin

text \<open>
  The contract the status streamer and the addon scanner share: both remember a checksum of
  what they last sent and send again only when the checksum changes, and both record a
  checksum only after the stream accepted the event.

  The locale \<open>dedupe_sender\<close> states it for an \<open>emit\<close> that may send an update \<open>u\<close>: \<open>entry\<close> is the
  checksum remembered for \<open>u\<close>, \<open>content\<close> the checksum of what would be sent, \<open>transmit\<close> the
  attempt itself, which tells whether the stream accepted the event. \<open>live\<close> delimits the updates
  and states the contract covers. The streamer and the scanner interpret it on their own
  operations.
\<close>

text \<open>
  \<open>n\<close> informer events with the same update, and \<open>n\<close> attempts to transmit it up to the first
  accepted one.
\<close>

fun deliver :: "('s \<Rightarrow> 'w \<Rightarrow> 's \<times> 'w) \<Rightarrow> nat \<Rightarrow> 's \<Rightarrow> 'w \<Rightarrow> 's \<times> 'w" where
  "deliver emit 0 s w = (s, w)"
| "deliver emit (Suc n) s w = (case emit s w of (s', w') \<Rightarrow> deliver emit n s' w')"

fun until_accepted :: "('w \<Rightarrow> bool \<times> 'w) \<Rightarrow> nat \<Rightarrow> 'w \<Rightarrow> 'w" where
  "until_accepted transmit 0 w = w"
| "until_accepted transmit (Suc n) w =
     (case transmit w of (ok, w') \<Rightarrow> if ok then w' else until_accepted transmit n w')"

locale dedupe_sender =
  fixes live :: "'u \<Rightarrow> 's \<Rightarrow> bool"
    and entry :: "'u \<Rightarrow> 's \<Rightarrow> string"
    and content :: "'u \<Rightarrow> 's \<Rightarrow> string"
    and transmit :: "'u \<Rightarrow> 's \<Rightarrow> 'w \<Rightarrow> bool \<times> 'w"
    and emit :: "'u \<Rightarrow> 's \<Rightarrow> 'w \<Rightarrow> 's \<times> 'w"
    and reset :: "'s \<Rightarrow> 's"
  assumes unchanged: "live u s \<Longrightarrow> entry u s = content u s \<Longrightarrow> emit u s w = (s, w)"
    and rejected: "live u s \<Longrightarrow> entry u s \<noteq> content u s \<Longrightarrow> transmit u s w = (False, w') \<Longrightarrow> emit u s w = (s, w')"
    and accepted: "live u s \<Longrightarrow> entry u s \<noteq> content u s \<Longrightarrow> transmit u s w = (True, w') \<Longrightarrow>
      \<exists>s'. emit u s w = (s', w') \<and> live u s' \<and> entry u s' = content u s'"
    and cleared: "live u s \<Longrightarrow> live u (reset s) \<and> entry u (reset s) \<noteq> content u (reset s)"
begin

lemma deliver_unchanged: "live u s \<Longrightarrow> entry u s = content u s \<Longrightarrow> deliver (emit u) n s w = (s, w)"
  by (induction n) (simp_all add: unchanged)

lemma deliver_changed:
  assumes "live u s" and "entry u s \<noteq> content u s"
  shows "snd (deliver (emit u) n s w) = until_accepted (transmit u s) n w"
proof (induction n arbitrary: w)
  case 0
  then show ?case by simp
next
  case (Suc n)
  obtain ok w' where t: "transmit u s w = (ok, w')" by fastforce
  show ?case
  proof (cases ok)
    case True
    with accepted [OF assms, of w w'] t obtain s' where "emit u s w = (s', w')" "live u s'" "entry u s' = content u s'" by auto
    with t True show ?thesis by (simp add: deliver_unchanged)
  next
    case False
    with rejected [OF assms] t have "emit u s w = (s, w')" by simp
    with t False Suc show ?thesis by simp
  qed
qed

lemma deliver_after_reset: "live u s \<Longrightarrow> snd (deliver (emit u) n (reset s) w) = until_accepted (transmit u (reset s)) n w"
  using cleared by (blast intro: deliver_changed)

end

end
