(* ===== verification/Status_Streamer.thy ===== *)
theory Status_Streamer
  imports Event_Sender Capability ArgoCD
begin

text \<open>
  The status streamer (\<open>internal/status\<close>): the configured watches (\<open>watch.go\<close>) and the stream of
  health and sync updates (\<open>streamer.go\<close>).

  Parameters: \<open>parseSelector\<close> is \<open>metav1.ParseToLabelSelector\<close> (its error, if any), \<open>disc\<close> the
  discovery call, \<open>hs\<close> and \<open>sy\<close> the generated \<open>String\<close> methods of the two enumerations, \<open>H\<close> the
  hex-encoded SHA-256, \<open>now\<close> the clock, \<open>anyNew\<close> the packing of a message, \<open>Send\<close> the stream's \<open>Send\<close>.
  An informer starts with \<open>'o\<close>, the list options, which \<open>set_selector\<close> narrows.
\<close>

section \<open>Configured watches (watch.go)\<close>

record WatchResource =
  wr_GVR :: GVR
  wr_LabelSelector :: string

definition gvr :: "string \<Rightarrow> string \<Rightarrow> string \<Rightarrow> GVR" where
  "gvr grp version resource = \<lparr>g_Group = grp, g_Version = version, g_Resource = resource\<rparr>"

definition DefaultWatchResources :: "WatchResource list" where
  "DefaultWatchResources = map (\<lambda>g. \<lparr>wr_GVR = g, wr_LabelSelector = []\<rparr>)
     [gvr ''identity.inari.io'' ''v1alpha1'' ''tenantrealms'',
      gvr ''identity.inari.io'' ''v1alpha1'' ''tenantclients'',
      gvr ''stacks.inari.io'' ''v1alpha1'' ''tenantnamespaces'',
      gvr ''cert-manager.io'' ''v1'' ''clusterissuers'',
      gvr ''externaldns.k8s.io'' ''v1alpha1'' ''dnsendpoints'',
      gvr ''argoproj.io'' ''v1alpha1'' ''appprojects'',
      gvr ''argoproj.io'' ''v1alpha1'' ''applicationsets'']"

text \<open>One trimmed, non-empty entry.\<close>

definition parse_watch :: "(string \<Rightarrow> go_err option) \<Rightarrow> string \<Rightarrow> WatchResource res" where
  "parse_watch parseSelector entry =
     (case Cut entry (CHR ''@'') of
        (gvrPart, selector, hasSelector) \<Rightarrow>
          let parts = Split gvrPart (CHR ''/'')
          in if length parts \<noteq> 3 \<or> parts ! 1 = [] \<or> parts ! 2 = [] then
               Inl (Errorf ''status watch %q: want group/version/resource[@selector]'' [AStr entry])
             else if hasSelector \<and> selector = [] then
               Inl (Errorf (''status watch %q: empty label selector after '' @ [CHR 0x27, CHR ''@'', CHR 0x27]) [AStr entry])
             else
               case (if selector \<noteq> [] then parseSelector selector else None) of
                 Some err \<Rightarrow> Inl (Wrapf ''status watch %q: invalid label selector: %w'' [AStr entry] err)
               | None \<Rightarrow> Inr \<lparr>wr_GVR = gvr (parts ! 0) (parts ! 1) (parts ! 2), wr_LabelSelector = selector\<rparr>)"

text \<open>The loop; \<open>out\<close> is also the set \<open>seen\<close>, which the code updates together with it.\<close>

fun parse_entries :: "(string \<Rightarrow> go_err option) \<Rightarrow> string list \<Rightarrow> WatchResource list \<Rightarrow> WatchResource list res" where
  "parse_entries parseSelector [] out = Inr out"
| "parse_entries parseSelector (raw # raws) out =
     (let entry = TrimSpace raw
      in if entry = [] then parse_entries parseSelector raws out
         else case parse_watch parseSelector entry of
                Inl err \<Rightarrow> Inl err
              | Inr w \<Rightarrow> parse_entries parseSelector raws (if w \<in> set out then out else out @ [w]))"

definition ParseWatchResources :: "(string \<Rightarrow> go_err option) \<Rightarrow> string \<Rightarrow> WatchResource list res" where
  "ParseWatchResources parseSelector inp =
     (let s = TrimSpace inp
      in if s = [] then Inr [] else parse_entries parseSelector (Split s (CHR '';'')) [])"

definition qualifiedKind :: "Accessors \<Rightarrow> obj \<Rightarrow> string" where
  "qualifiedKind A u =
     (let grp = k_Group (GroupVersionKind A u)
      in if grp \<noteq> [] then GetKind A u @ ''.'' @ grp else GetKind A u)"

section \<open>Watch selection (streamer.go)\<close>

text \<open>The loop of \<open>filteredWatches\<close> with its cache per resource.\<close>

fun filter_watches ::
  "(string \<Rightarrow> string list option \<times> (go_err \<times> bool) option) \<Rightarrow> WatchResource list \<Rightarrow> (GVR \<Rightarrow> bool option) \<Rightarrow> WatchResource list"
where
  "filter_watches disc [] checked = []"
| "filter_watches disc (w # ws) checked =
     (let avail = (case checked (wr_GVR w) of Some b \<Rightarrow> b | None \<Rightarrow> ResourceServed disc (wr_GVR w));
          rest = filter_watches disc ws (checked(wr_GVR w \<mapsto> avail))
      in if avail then w # rest else rest)"

definition filteredWatches ::
  "(string \<Rightarrow> string list option \<times> (go_err \<times> bool) option) option \<Rightarrow> WatchResource list \<Rightarrow> WatchResource list"
where
  "filteredWatches discovery ws = (case discovery of None \<Rightarrow> ws | Some disc \<Rightarrow> filter_watches disc ws Map.empty)"

text \<open>
  The informers \<open>Run\<close> starts: resource, namespace (empty for all), the tweak of the list options
  and whether the kinds are qualified.
\<close>

record 'o informer =
  inf_GVR :: GVR
  inf_Namespace :: string
  inf_Tweak :: "'o \<Rightarrow> 'o"
  inf_Qualify :: bool

definition apply_tweak :: "('o \<Rightarrow> 'o) option \<Rightarrow> 'o \<Rightarrow> 'o" where
  "apply_tweak tweak opts = (case tweak of None \<Rightarrow> opts | Some f \<Rightarrow> f opts)"

definition run_informers ::
  "(string \<Rightarrow> 'o \<Rightarrow> 'o) \<Rightarrow> ('o \<Rightarrow> 'o) option \<Rightarrow> string \<Rightarrow> GVR list \<Rightarrow>
   (string \<Rightarrow> string list option \<times> (go_err \<times> bool) option) option \<Rightarrow> WatchResource list \<Rightarrow> 'o informer list"
where
  "run_informers set_selector tweak namespace instanceGVRs discovery ws =
     \<lparr>inf_GVR = ApplicationGVR, inf_Namespace = namespace, inf_Tweak = apply_tweak tweak, inf_Qualify = False\<rparr>
     # map (\<lambda>g. \<lparr>inf_GVR = g, inf_Namespace = [], inf_Tweak = apply_tweak tweak, inf_Qualify = False\<rparr>) instanceGVRs
     @ map (\<lambda>w. \<lparr>inf_GVR = wr_GVR w, inf_Namespace = [],
                 inf_Tweak = (if wr_LabelSelector w \<noteq> [] then set_selector (wr_LabelSelector w) \<circ> apply_tweak tweak
                              else apply_tweak tweak),
                 inf_Qualify = True\<rparr>)
           [w \<leftarrow> filteredWatches discovery ws. wr_GVR w \<notin> set instanceGVRs]"

section \<open>Status of an object (streamer.go)\<close>

datatype HealthStatus =
    HEALTH_STATUS_UNSPECIFIED | HEALTH_STATUS_HEALTHY | HEALTH_STATUS_PROGRESSING | HEALTH_STATUS_DEGRADED
  | HEALTH_STATUS_SUSPENDED | HEALTH_STATUS_MISSING | HEALTH_STATUS_UNKNOWN

datatype SyncState = SYNC_STATE_UNSPECIFIED | SYNC_STATE_SYNCED | SYNC_STATE_OUT_OF_SYNC | SYNC_STATE_ERROR

record StatusUpdate =
  su_Resource :: ResourceRef
  su_Health :: HealthStatus
  su_Sync :: SyncState
  su_Message :: string
  su_ObservedAt :: int
  su_StateChecksum :: string

text \<open>The first condition of type \<open>Ready\<close>.\<close>

definition ready_condition :: "uval list \<Rightarrow> obj option" where
  "ready_condition conditions = find (\<lambda>cm. cm ''type'' = Some (UStr ''Ready'')) (map as_map conditions)"

definition healthOf :: "Accessors \<Rightarrow> obj \<Rightarrow> HealthStatus \<times> string" where
  "healthOf A u =
     (case NestedString A u [''status'', ''health'', ''status''] of
        (st, True) \<Rightarrow>
          let msg = fst (NestedString A u [''status'', ''health'', ''message'']); l = ToLower st
          in (if l = ''healthy'' then HEALTH_STATUS_HEALTHY
              else if l = ''progressing'' then HEALTH_STATUS_PROGRESSING
              else if l = ''degraded'' then HEALTH_STATUS_DEGRADED
              else if l = ''suspended'' then HEALTH_STATUS_SUSPENDED
              else if l = ''missing'' then HEALTH_STATUS_MISSING
              else HEALTH_STATUS_UNKNOWN, msg)
      | (_, False) \<Rightarrow>
          (case NestedSlice A u [''status'', ''conditions''] of
             (conditions, found) \<Rightarrow>
               if \<not> found then (HEALTH_STATUS_UNKNOWN, [])
               else case ready_condition conditions of
                      None \<Rightarrow> (HEALTH_STATUS_UNKNOWN, [])
                    | Some cm \<Rightarrow>
                        let msg = str_of (cm ''message'')
                        in if cm ''status'' = Some (UStr ''True'') then (HEALTH_STATUS_HEALTHY, msg)
                           else if str_of (cm ''reason'') \<noteq> [] then (HEALTH_STATUS_PROGRESSING, msg)
                           else (HEALTH_STATUS_DEGRADED, msg)))"

definition syncOf :: "Accessors \<Rightarrow> obj \<Rightarrow> SyncState \<times> string" where
  "syncOf A u =
     (case NestedString A u [''status'', ''sync'', ''status''] of
        (st, True) \<Rightarrow>
          (if ToLower st = ''synced'' then (SYNC_STATE_SYNCED, [])
           else if ToLower st = ''outofsync'' then (SYNC_STATE_OUT_OF_SYNC, [])
           else (SYNC_STATE_ERROR, st))
      | (_, False) \<Rightarrow>
          (case NestedSlice A u [''status'', ''conditions''] of
             (conditions, found) \<Rightarrow>
               if \<not> found then (SYNC_STATE_UNSPECIFIED, [])
               else case ready_condition conditions of
                      None \<Rightarrow> (SYNC_STATE_UNSPECIFIED, [])
                    | Some cm \<Rightarrow> (if cm ''status'' = Some (UStr ''True'') then SYNC_STATE_SYNCED else SYNC_STATE_OUT_OF_SYNC, [])))"

text \<open>The first comparison or sync error with a message.\<close>

fun comparison_error :: "uval list \<Rightarrow> string" where
  "comparison_error [] = []"
| "comparison_error (c # cs) =
     (let cm = as_map c; typ = str_of (cm ''type''); msg = str_of (cm ''message'')
      in if typ \<noteq> ''ComparisonError'' \<and> typ \<noteq> ''SyncError'' then comparison_error cs
         else if msg \<noteq> [] then typ @ '': '' @ msg
         else comparison_error cs)"

definition comparisonErrorOf :: "Accessors \<Rightarrow> obj \<Rightarrow> string" where
  "comparisonErrorOf A u =
     (case NestedSlice A u [''status'', ''conditions''] of
        (conditions, found) \<Rightarrow> if \<not> found then [] else comparison_error conditions)"

definition resource_ref :: "Accessors \<Rightarrow> string \<Rightarrow> obj \<Rightarrow> ResourceRef" where
  "resource_ref A kind u =
     \<lparr>rr_Kind = kind, rr_Name = GetName A u, rr_Namespace = GetNamespace A u, rr_Uid = GetUID A u\<rparr>"

definition status_key :: "Accessors \<Rightarrow> string \<Rightarrow> obj \<Rightarrow> string" where
  "status_key A kind u = kind @ ''/'' @ GetNamespace A u @ ''/'' @ GetName A u @ ''/'' @ GetUID A u"

text \<open>\<open>t\<close> is the time of the observation.\<close>

definition mapStatus :: "Accessors \<Rightarrow> int \<Rightarrow> obj \<Rightarrow> string \<Rightarrow> StatusUpdate \<times> string" where
  "mapStatus A t u kind =
     (let (health, hmsg) = healthOf A u;
          (syn, smsg) = syncOf A u;
          msg0 = TrimSpace (Join [hmsg, smsg] '' '');
          condMsg = comparisonErrorOf A u;
          msg = (if GetKind A u = ''Application'' \<and> condMsg \<noteq> [] then TrimSpace (msg0 @ '' '' @ condMsg) else msg0)
      in (\<lparr>su_Resource = resource_ref A kind u, su_Health = health, su_Sync = syn, su_Message = msg,
           su_ObservedAt = t, su_StateChecksum = []\<rparr>, status_key A kind u))"

definition kind_of :: "Accessors \<Rightarrow> obj \<Rightarrow> bool \<Rightarrow> string" where
  "kind_of A u qualify = (if qualify then qualifiedKind A u else GetKind A u)"

definition mapFor :: "Accessors \<Rightarrow> int \<Rightarrow> obj \<Rightarrow> bool \<Rightarrow> StatusUpdate \<times> string" where
  "mapFor A t u qualify = mapStatus A t u (kind_of A u qualify)"

definition status_checksum :: "(HealthStatus \<Rightarrow> string) \<Rightarrow> (SyncState \<Rightarrow> string) \<Rightarrow> (string \<Rightarrow> string) \<Rightarrow> StatusUpdate \<Rightarrow> string" where
  "status_checksum hs sy H u =
     H ((rr_Kind (su_Resource u) @ rr_Namespace (su_Resource u) @ rr_Name (su_Resource u)) @ [CHR 0x00]
        @ (hs (su_Health u) @ sy (su_Sync u) @ su_Message u))"

section \<open>The stream (streamer.go)\<close>

text \<open>The dedupe state; the fields set at construction are parameters of the operations.\<close>

record Streamer =
  st_lastSum :: "string \<Rightarrow> string option"

definition NewStreamer :: Streamer where
  "NewStreamer = \<lparr>st_lastSum = Map.empty\<rparr>"

definition Reset :: "Streamer \<Rightarrow> Streamer" where
  "Reset s = s\<lparr>st_lastSum := Map.empty\<rparr>"

definition send_status ::
  "'p Codec \<Rightarrow> (StatusUpdate \<Rightarrow> 'p res) \<Rightarrow> ('p Event \<Rightarrow> 'w \<Rightarrow> go_err option \<times> 'w) \<Rightarrow> StatusUpdate \<Rightarrow> 'w \<Rightarrow> go_err option \<times> 'w"
where
  "send_status cd anyNew Send upd w =
     (case anyNew upd of
        Inl err \<Rightarrow> (Some err, w)
      | Inr payload \<Rightarrow>
          Send \<lparr>ev_EventId = [], ev_ResourceId = [], ev_Type = EventTypeString cd EVENT_TYPE_STATUS_UPDATE,
                ev_Payload = Some payload\<rparr> w)"

text \<open>
  \<open>emit\<close> holds the lock twice: \<open>emit_check\<close> compares the checksum before the send, \<open>emit_commit\<close>
  records it after an accepted send. In between other goroutines may run. \<open>send\<close> is the
  \<open>send_status\<close> of this streamer.
\<close>

definition emit_check :: "string \<Rightarrow> string \<Rightarrow> Streamer \<Rightarrow> bool" where
  "emit_check key chk s \<longleftrightarrow> mget (st_lastSum s) key \<noteq> chk"

definition emit_commit :: "string \<Rightarrow> string \<Rightarrow> Streamer \<Rightarrow> Streamer" where
  "emit_commit key chk s = s\<lparr>st_lastSum := (st_lastSum s)(key \<mapsto> chk)\<rparr>"

definition emit ::
  "Accessors \<Rightarrow> (HealthStatus \<Rightarrow> string) \<Rightarrow> (SyncState \<Rightarrow> string) \<Rightarrow> (string \<Rightarrow> string) \<Rightarrow> ('w \<Rightarrow> int) \<Rightarrow> (StatusUpdate \<Rightarrow> 'w \<Rightarrow> go_err option \<times> 'w) \<Rightarrow>
   obj \<Rightarrow> bool \<Rightarrow> Streamer \<Rightarrow> 'w \<Rightarrow> Streamer \<times> 'w"
where
  "emit A hs sy H now send u qualify s w =
     (let (upd, key) = mapFor A (now w) u qualify; chk = status_checksum hs sy H upd
      in if \<not> emit_check key chk s then (s, w)
         else case send upd w of
                (Some err, w1) \<Rightarrow> (s, w1)
              | (None, w1) \<Rightarrow> (emit_commit key chk s, w1))"

definition emitDelete ::
  "Accessors \<Rightarrow> ('w \<Rightarrow> int) \<Rightarrow> (StatusUpdate \<Rightarrow> 'w \<Rightarrow> go_err option \<times> 'w) \<Rightarrow> obj \<Rightarrow> bool \<Rightarrow> Streamer \<Rightarrow> 'w \<Rightarrow> Streamer \<times> 'w"
where
  "emitDelete A now send u qualify s w =
     (let kind = kind_of A u qualify;
          key = status_key A kind u;
          upd = \<lparr>su_Resource = resource_ref A kind u, su_Health = HEALTH_STATUS_MISSING, su_Sync = SYNC_STATE_UNSPECIFIED,
                 su_Message = ''resource deleted'', su_ObservedAt = now w, su_StateChecksum = []\<rparr>;
          s1 = s\<lparr>st_lastSum := (st_lastSum s)(key := None)\<rparr>
      in (s1, snd (send upd w)))"

text \<open>The handlers \<open>Run\<close> registers on an informer.\<close>

definition status_handler ::
  "Accessors \<Rightarrow> (HealthStatus \<Rightarrow> string) \<Rightarrow> (SyncState \<Rightarrow> string) \<Rightarrow> (string \<Rightarrow> string) \<Rightarrow> ('w \<Rightarrow> int) \<Rightarrow> (StatusUpdate \<Rightarrow> 'w \<Rightarrow> go_err option \<times> 'w) \<Rightarrow>
   bool \<Rightarrow> obj informer_event \<Rightarrow> Streamer \<Rightarrow> 'w \<Rightarrow> Streamer \<times> 'w"
where
  "status_handler A hs sy H now send qualify ev s w =
     (case ev of
        Added u \<Rightarrow> emit A hs sy H now send u qualify s w
      | Updated u \<Rightarrow> emit A hs sy H now send u qualify s w
      | Deleted u \<Rightarrow> emitDelete A now send u qualify s w
      | Tombstone u \<Rightarrow> emitDelete A now send u qualify s w)"

text \<open>
  \<open>Run\<close>: all handlers are registered before any informer is started. The result is the returned error and the started
  informers; \<open>synced\<close> tells whether their caches were filled, \<open>cancelled\<close> whether the context had ended otherwise.
  Without an error \<open>Run\<close> returns when its context ends; until then the events go to \<open>status_handler\<close>.
\<close>

definition streamer_Run :: "('o informer \<Rightarrow> go_err option) \<Rightarrow> bool \<Rightarrow> bool \<Rightarrow> 'o informer list \<Rightarrow> go_err option \<times> 'o informer list" where
  "streamer_Run register synced cancelled stops =
     (case List.map_filter register stops of
        err # _ \<Rightarrow> (Some (Wrapf ''status: register handler: %w'' [] err), [])
      | [] \<Rightarrow> (if \<not> synced \<and> \<not> cancelled then Some (Errorf ''status: cache sync aborted'' []) else None, stops))"

lemma streamer_Run_started:
  "snd (streamer_Run register synced cancelled stops) = (if \<forall>i \<in> set stops. register i = None then stops else [])"
proof -
  have "List.map_filter register stops = [] \<longleftrightarrow> (\<forall>i \<in> set stops. register i = None)"
    by (induction stops) (auto simp: map_filter_simps split: option.splits)
  then show ?thesis by (auto simp: streamer_Run_def split: list.splits)
qed

section \<open>Lemmas about the watches\<close>

lemma filter_watches_eq:
  "(\<forall>g b. checked g = Some b \<longrightarrow> b = ResourceServed disc g) \<Longrightarrow>
   filter_watches disc ws checked = [w \<leftarrow> ws. ResourceServed disc (wr_GVR w)]"
proof (induction ws arbitrary: checked)
  case Nil
  then show ?case by simp
next
  case (Cons w ws)
  have av: "(case checked (wr_GVR w) of Some b \<Rightarrow> b | None \<Rightarrow> ResourceServed disc (wr_GVR w)) = ResourceServed disc (wr_GVR w)"
    using Cons.prems by (simp split: option.split)
  have "filter_watches disc ws (checked(wr_GVR w \<mapsto> ResourceServed disc (wr_GVR w))) = [w \<leftarrow> ws. ResourceServed disc (wr_GVR w)]"
    using Cons.prems by (intro Cons.IH) simp
  with av show ?case by (cases "ResourceServed disc (wr_GVR w)") (simp_all add: Let_def)
qed

lemma filteredWatches_eq:
  "filteredWatches discovery ws =
     [w \<leftarrow> ws. case discovery of None \<Rightarrow> True | Some disc \<Rightarrow> ResourceServed disc (wr_GVR w)]"
  by (simp add: filteredWatches_def filter_watches_eq split: option.split)

text \<open>An entry as the configuration writes it.\<close>

definition print_watch :: "WatchResource \<Rightarrow> string" where
  "print_watch w =
     g_Group (wr_GVR w) @ ''/'' @ g_Version (wr_GVR w) @ ''/'' @ g_Resource (wr_GVR w)
     @ (if wr_LabelSelector w = [] then [] else ''@'' @ wr_LabelSelector w)"

definition plain :: "string \<Rightarrow> bool" where
  "plain s \<longleftrightarrow> list_all (\<lambda>c. \<not> is_space c \<and> c \<notin> {CHR ''/'', CHR ''@'', CHR '';''}) s"

definition valid_watch :: "(string \<Rightarrow> go_err option) \<Rightarrow> WatchResource \<Rightarrow> bool" where
  "valid_watch parseSelector w \<longleftrightarrow>
     g_Version (wr_GVR w) \<noteq> [] \<and> g_Resource (wr_GVR w) \<noteq> []
     \<and> (wr_LabelSelector w \<noteq> [] \<longrightarrow> parseSelector (wr_LabelSelector w) = None)"

definition printable_watch :: "WatchResource \<Rightarrow> bool" where
  "printable_watch w \<longleftrightarrow>
     plain (g_Group (wr_GVR w)) \<and> plain (g_Version (wr_GVR w)) \<and> plain (g_Resource (wr_GVR w))
     \<and> CHR '';'' \<notin> set (wr_LabelSelector w)
     \<and> (wr_LabelSelector w \<noteq> [] \<longrightarrow> \<not> is_space (last (wr_LabelSelector w)))"

lemma plainD:
  assumes "plain s"
  shows "CHR ''/'' \<notin> set s" "CHR ''@'' \<notin> set s" "CHR '';'' \<notin> set s" "x \<in> set s \<Longrightarrow> \<not> is_space x"
  using assms by (auto simp: plain_def list_all_iff)

lemma TrimSpace_id:
  assumes "s \<noteq> []" and "\<not> is_space (hd s)" and "\<not> is_space (last s)"
  shows "TrimSpace s = s"
proof -
  have "dropWhile is_space s = s" using assms by (cases s) auto
  moreover have "dropWhile is_space (rev s) = rev s" using assms by (cases "rev s") (auto simp: hd_rev [symmetric])
  ultimately show ?thesis by (simp add: TrimSpace_def)
qed

lemma parse_print_watch:
  assumes "valid_watch parseSelector w" and "printable_watch w"
  shows "parse_watch parseSelector (print_watch w) = Inr w"
proof -
  let ?g = "g_Group (wr_GVR w)" and ?v = "g_Version (wr_GVR w)" and ?r = "g_Resource (wr_GVR w)"
  let ?parts = "?g @ CHR ''/'' # ?v @ CHR ''/'' # ?r"
  have p: "plain ?g" "plain ?v" "plain ?r" using assms(2) by (auto simp: printable_watch_def)
  have cut: "Cut (print_watch w) (CHR ''@'') = (?parts, wr_LabelSelector w, wr_LabelSelector w \<noteq> [])"
  proof (cases "wr_LabelSelector w = []")
    case True
    then have "print_watch w = ?parts" by (simp add: print_watch_def)
    moreover have "CHR ''@'' \<notin> set ?parts" using p plainD by auto
    ultimately show ?thesis using True by (simp add: Cut_no_sep)
  next
    case False
    then have "print_watch w = ?parts @ CHR ''@'' # wr_LabelSelector w" by (simp add: print_watch_def)
    moreover have "CHR ''@'' \<notin> set ?parts" using p plainD by auto
    ultimately show ?thesis using False Cut_append [of "CHR ''@''" ?parts "wr_LabelSelector w"] by simp
  qed
  have split: "Split ?parts (CHR ''/'') = [?g, ?v, ?r]"
    using p by (simp add: Split_append Split_no_sep plainD)
  have "\<lparr>wr_GVR = gvr ?g ?v ?r, wr_LabelSelector = wr_LabelSelector w\<rparr> = w"
    by (cases w) (simp add: gvr_def)
  with assms(1) show ?thesis
    by (cases "wr_LabelSelector w = []") (simp_all add: parse_watch_def cut split Let_def valid_watch_def)
qed

lemma print_watch_ends:
  assumes "printable_watch w" and "valid_watch parseSelector w"
  shows "print_watch w \<noteq> []" "\<not> is_space (hd (print_watch w))" "\<not> is_space (last (print_watch w))"
    "CHR '';'' \<notin> set (print_watch w)"
proof -
  let ?g = "g_Group (wr_GVR w)" and ?v = "g_Version (wr_GVR w)" and ?r = "g_Resource (wr_GVR w)"
  have p: "plain ?g" "plain ?v" "plain ?r" using assms(1) by (auto simp: printable_watch_def)
  show "print_watch w \<noteq> []" by (simp add: print_watch_def)
  show "\<not> is_space (hd (print_watch w))"
    using p(1) by (cases ?g) (auto simp: print_watch_def is_space_def plain_def)
  have "?r \<noteq> []" using assms(2) by (simp add: valid_watch_def)
  then have "\<not> is_space (last ?r)" using p(3) plainD(4) last_in_set by blast
  then show "\<not> is_space (last (print_watch w))"
    using assms(1) \<open>?r \<noteq> []\<close> by (auto simp: print_watch_def printable_watch_def)
  show "CHR '';'' \<notin> set (print_watch w)"
    using p assms(1) by (auto simp: print_watch_def printable_watch_def dest: plainD)
qed

lemma Join_ends:
  assumes "xs \<noteq> []" and "\<forall>x \<in> set xs. x \<noteq> []"
  shows "Join xs sep \<noteq> []" "hd (Join xs sep) = hd (hd xs)" "last (Join xs sep) = last (last xs)"
  using assms by (induction xs sep rule: Join.induct) auto

lemma parse_entries_print:
  assumes "\<forall>w \<in> set ws. valid_watch parseSelector w \<and> printable_watch w" and "distinct (out @ ws)"
  shows "parse_entries parseSelector (map print_watch ws) out = Inr (out @ ws)"
  using assms
proof (induction ws arbitrary: out)
  case Nil
  then show ?case by simp
next
  case (Cons w ws)
  then have w: "valid_watch parseSelector w" "printable_watch w" "w \<notin> set out" by auto
  then have "TrimSpace (print_watch w) = print_watch w" "print_watch w \<noteq> []"
    using print_watch_ends TrimSpace_id by blast+
  with w Cons show ?case by (simp add: parse_print_watch)
qed

lemma parse_watch_valid:
  assumes "parse_watch parseSelector entry = Inr w"
  shows "valid_watch parseSelector w"
  using assms
  by (auto simp: parse_watch_def Let_def valid_watch_def gvr_def split: prod.splits if_splits option.splits)

lemma parse_entries_valid:
  assumes "parse_entries parseSelector raws out = Inr ws" and "distinct out" and "\<forall>w \<in> set out. valid_watch parseSelector w"
  shows "distinct ws \<and> (\<forall>w \<in> set ws. valid_watch parseSelector w)"
  using assms
proof (induction raws arbitrary: out)
  case Nil
  then show ?case by simp
next
  case (Cons raw raws)
  show ?case
  proof (cases "TrimSpace raw = []")
    case True
    with Cons show ?thesis by simp
  next
    case False
    with Cons.prems obtain w where w: "parse_watch parseSelector (TrimSpace raw) = Inr w"
      by (auto simp: Let_def split: sum.splits)
    let ?out = "if w \<in> set out then out else out @ [w]"
    have "parse_entries parseSelector raws ?out = Inr ws" using Cons.prems(1) False w by (simp add: Let_def)
    moreover have "distinct ?out" using Cons.prems(2) by simp
    moreover have "\<forall>w \<in> set ?out. valid_watch parseSelector w" using Cons.prems(3) parse_watch_valid [OF w] by simp
    ultimately show ?thesis by (rule Cons.IH)
  qed
qed

section \<open>Lemmas about the stream\<close>

lemma mapFor_key: "snd (mapFor A t u q) = status_key A (kind_of A u q) u"
  by (simp add: mapFor_def mapStatus_def Let_def split: prod.split)

lemma mapFor_time: "status_checksum hs sy H (fst (mapFor A t u q)) = status_checksum hs sy H (fst (mapFor A t' u q))"
  by (simp add: mapFor_def mapStatus_def status_checksum_def Let_def split: prod.split)

text \<open>The checksum of an object's update, whatever the time, and one attempt to send it.\<close>

definition object_sum ::
  "Accessors \<Rightarrow> (HealthStatus \<Rightarrow> string) \<Rightarrow> (SyncState \<Rightarrow> string) \<Rightarrow> (string \<Rightarrow> string) \<Rightarrow> obj \<Rightarrow> bool \<Rightarrow> string"
where
  "object_sum A hs sy H u q = status_checksum hs sy H (fst (mapFor A 0 u q))"

definition attempt ::
  "Accessors \<Rightarrow> ('w \<Rightarrow> int) \<Rightarrow> (StatusUpdate \<Rightarrow> 'w \<Rightarrow> go_err option \<times> 'w) \<Rightarrow> obj \<Rightarrow> bool \<Rightarrow> 'w \<Rightarrow> bool \<times> 'w"
where
  "attempt A now send u q w = (case send (fst (mapFor A (now w) u q)) w of (err, w') \<Rightarrow> (err = None, w'))"

lemma object_sum_not_Nil: "\<forall>x. H x \<noteq> [] \<Longrightarrow> [] \<noteq> object_sum A hs sy H u q"
  by (metis object_sum_def status_checksum_def)

lemma emit_alt:
  "emit A hs sy H now send u q s w =
     (if mget (st_lastSum s) (status_key A (kind_of A u q) u) = object_sum A hs sy H u q then (s, w)
      else case attempt A now send u q w of
             (ok, w') \<Rightarrow> (if ok then emit_commit (status_key A (kind_of A u q) u) (object_sum A hs sy H u q) s else s, w'))"
proof -
  obtain upd key where m: "mapFor A (now w) u q = (upd, key)" by fastforce
  then have "key = status_key A (kind_of A u q) u" "status_checksum hs sy H upd = object_sum A hs sy H u q"
    using mapFor_key [of A "now w" u q] mapFor_time [of hs sy H A "now w" u q 0] by (auto simp: object_sum_def)
  with m show ?thesis
    by (simp add: emit_def emit_check_def attempt_def Let_def split: prod.split option.split)
qed

interpretation status: dedupe_sender
  "\<lambda>(u, q) s. \<forall>x. H x \<noteq> []"
  "\<lambda>(u, q) s. mget (st_lastSum s) (status_key A (kind_of A u q) u)"
  "\<lambda>(u, q) s. object_sum A hs sy H u q"
  "\<lambda>(u, q) s. attempt A now send u q"
  "\<lambda>(u, q). emit A hs sy H now send u q"
  Reset
  for A hs sy H now send
  by unfold_locales
    (auto simp: emit_alt emit_commit_def Reset_def mget_def object_sum_not_Nil)

lemma ready_found:
  "ready_condition conditions = Some cm \<Longrightarrow> cm ''type'' = Some (UStr ''Ready'')"
  by (auto simp: ready_condition_def find_Some_iff)

lemma dropWhile_suffix:
  assumes "b \<noteq> []" and "\<not> P (hd b)"
  shows "\<exists>a'. dropWhile P (a @ b) = a' @ b"
  using assms by (induction a) (auto simp: neq_Nil_conv)

lemma TrimSpace_suffix:
  assumes "b \<noteq> []" and "\<not> is_space (hd b)" and "\<not> is_space (last b)"
  shows "HasSuffix (TrimSpace (a @ b)) b"
proof -
  obtain a' where "dropWhile is_space (a @ b) = a' @ b" using dropWhile_suffix assms(1,2) by blast
  moreover have "dropWhile is_space (rev b @ rev a') = rev b @ rev a'"
    using assms by (cases "rev b") (auto simp: hd_rev [symmetric])
  ultimately show ?thesis by (auto simp: TrimSpace_def HasSuffix_iff)
qed

lemma comparison_error_hd: "comparison_error cs \<noteq> [] \<Longrightarrow> \<not> is_space (hd (comparison_error cs))"
  by (induction cs) (auto simp: Let_def is_space_def split: if_splits)

section \<open>Properties\<close>

text \<open>
  C40. A status reaches the control plane once: however often the informer reports an unchanged
  object after a reset of the stream, the update is transmitted until the stream accepts it,
  and never again after that; and a deleted object that is added again is reported again in
  the same way.
\<close>

theorem status_streamed_once:
  assumes "\<forall>x. H x \<noteq> []"
  shows "snd (deliver (emit A hs sy H now send u q) n (Reset s) w) = until_accepted (attempt A now send u q) n w
    \<and> snd (deliver (emit A hs sy H now send u q) n (fst (emitDelete A now send u q s w0)) w) =
        until_accepted (attempt A now send u q) n w"
proof
  show "snd (deliver (emit A hs sy H now send u q) n (Reset s) w) = until_accepted (attempt A now send u q) n w"
    using status.deliver_after_reset [of H "(u, q)" s A hs sy now send n w] assms by simp
  have "mget (st_lastSum (fst (emitDelete A now send u q s w0))) (status_key A (kind_of A u q) u) = []"
    by (simp add: emitDelete_def Let_def mget_def)
  then show "snd (deliver (emit A hs sy H now send u q) n (fst (emitDelete A now send u q s w0)) w) =
        until_accepted (attempt A now send u q) n w"
    using status.deliver_changed [of H "(u, q)" "fst (emitDelete A now send u q s w0)" A hs sy now send n w]
      assms object_sum_not_Nil by simp
qed

text \<open>A stream that accepts one event in three: two retries, then silence.\<close>

theorem status_streamed_once_witness:
  "snd (deliver (emit ref_accessors (\<lambda>h. ''h'') (\<lambda>s. ''s'') (\<lambda>x. ''sum'') int
        (\<lambda>upd w. (if w = 2 then None else Some EOF, w + 1)) [''kind'' \<mapsto> UStr ''ClusterIssuer''] True) 5 (Reset NewStreamer) 0) = 3"
  using status_streamed_once [of "\<lambda>x. ''sum''" ref_accessors "\<lambda>h. ''h''" "\<lambda>s. ''s''" int "\<lambda>upd w. (if w = 2 then None else Some EOF, w + 1)"
      "[''kind'' \<mapsto> UStr ''ClusterIssuer'']" True 5 NewStreamer 0]
  by (simp add: attempt_def numeral_eq_Suc)

text \<open>
  A reset can be lost: when the stream is reset after an update was accepted but before
  \<open>emit\<close> records its checksum, the record survives the reset, and the status is not sent again
  although the reset is meant to make every object emit anew.
\<close>

theorem reset_lost_by_inflight_emit:
  "let (upd, key) = mapFor A t u q; s' = emit_commit key (status_checksum hs sy H upd) (Reset s)
   in deliver (emit A hs sy H now send u q) n s' w = (s', w)"
proof -
  obtain upd key where m: "mapFor A t u q = (upd, key)" by fastforce
  let ?s = "emit_commit key (status_checksum hs sy H upd) (Reset s)"
  have k: "key = status_key A (kind_of A u q) u" "status_checksum hs sy H upd = object_sum A hs sy H u q"
    using m mapFor_key [of A t u q] mapFor_time [of hs sy H A t u q 0] by (auto simp: object_sum_def)
  then have "emit A hs sy H now send u q ?s w = (?s, w)" for w
    by (simp add: emit_alt emit_commit_def mget_def)
  then have "deliver (emit A hs sy H now send u q) n ?s w = (?s, w)" by (induction n) simp_all
  with m show ?thesis by (simp add: Let_def)
qed

text \<open>
  The watch configuration: what \<open>ParseWatchResources\<close> accepts is free of duplicates, names a
  version and a resource in every entry and carries only selectors the label parser accepts;
  and it reads back every printed list of distinct such watches.
\<close>

theorem watch_config_roundtrip:
  "(ParseWatchResources parseSelector inp = Inr ws \<longrightarrow>
      distinct ws \<and> (\<forall>w \<in> set ws. valid_watch parseSelector w))
   \<and> (distinct ws \<and> (\<forall>w \<in> set ws. valid_watch parseSelector w \<and> printable_watch w) \<longrightarrow>
      ParseWatchResources parseSelector (Join (map print_watch ws) '';'') = Inr ws)"
proof (intro conjI impI)
  assume "ParseWatchResources parseSelector inp = Inr ws"
  then show "distinct ws" "\<forall>w \<in> set ws. valid_watch parseSelector w"
    using parse_entries_valid [of parseSelector _ "[]" ws] by (auto simp: ParseWatchResources_def Let_def split: if_splits)
next
  assume a: "distinct ws \<and> (\<forall>w \<in> set ws. valid_watch parseSelector w \<and> printable_watch w)"
  let ?ps = "map print_watch ws"
  show "ParseWatchResources parseSelector (Join ?ps '';'') = Inr ws"
  proof (cases "ws = []")
    case True
    then show ?thesis by (simp add: ParseWatchResources_def TrimSpace_def)
  next
    case False
    have e: "\<forall>p \<in> set ?ps. p \<noteq> [] \<and> \<not> is_space (hd p) \<and> \<not> is_space (last p) \<and> CHR '';'' \<notin> set p"
      using a print_watch_ends by auto
    have j: "Join ?ps '';'' \<noteq> []" "hd (Join ?ps '';'') = hd (hd ?ps)" "last (Join ?ps '';'') = last (last ?ps)"
      using Join_ends [of ?ps "'';''"] False e by auto
    have "hd ?ps \<in> set ?ps" "last ?ps \<in> set ?ps" using False by (simp_all only: hd_in_set last_in_set map_is_Nil_conv not_False_eq_True)
    with e have "\<not> is_space (hd (hd ?ps))" "\<not> is_space (last (last ?ps))" by blast+
    with j have "TrimSpace (Join ?ps '';'') = Join ?ps '';''" by (intro TrimSpace_id) simp_all
    moreover have "Split (Join ?ps '';'') (CHR '';'') = ?ps" using False e by (intro Split_Join) auto
    ultimately show ?thesis
      using a j(1) parse_entries_print [of ws parseSelector "[]"] by (simp add: ParseWatchResources_def)
  qed
qed

theorem watch_config_roundtrip_witness:
  "ParseWatchResources (\<lambda>s. None) (Join (map print_watch DefaultWatchResources) '';'') = Inr DefaultWatchResources"
  using watch_config_roundtrip [of "\<lambda>s. None" "[]" DefaultWatchResources]
  by (simp add: DefaultWatchResources_def gvr_def valid_watch_def printable_watch_def plain_def is_space_def)

text \<open>
  One kind per resource: the qualified watches are exactly the configured ones that the
  cluster serves and that are not already watched as instances, whatever the discovery cache
  held, and a resource is watched both under its bare and its qualified kind only if the
  configuration lists the Applications themselves, which the duplicate check does not cover.
\<close>

theorem watched_under_one_kind:
  "set (map inf_GVR (filter inf_Qualify (run_informers sel tweak namespace instances discovery ws))) =
     {g \<in> set (map wr_GVR ws). g \<notin> set instances \<and> (\<forall>disc. discovery = Some disc \<longrightarrow> ResourceServed disc g)}
   \<and> (\<forall>i \<in> set (run_informers sel tweak namespace instances discovery ws).
      \<forall>j \<in> set (run_informers sel tweak namespace instances discovery ws).
        inf_GVR i = inf_GVR j \<and> \<not> inf_Qualify i \<and> inf_Qualify j \<longrightarrow>
        inf_GVR i = ApplicationGVR \<and> ApplicationGVR \<in> set (map wr_GVR ws))"
  by (auto simp: run_informers_def filteredWatches_eq split: option.split)

theorem watched_under_one_kind_witness:
  "let is = run_informers (\<lambda>s opts. s) None ''argocd'' [gvr ''kro.run'' ''v1'' ''stacks''] None
              [\<lparr>wr_GVR = gvr ''kro.run'' ''v1'' ''stacks'', wr_LabelSelector = ''a=b''\<rparr>, \<lparr>wr_GVR = ApplicationGVR, wr_LabelSelector = []\<rparr>]
   in set (map inf_GVR (filter inf_Qualify is)) = {ApplicationGVR} \<and> map inf_Qualify is = [False, False, True]"
proof -
  have ne: "ApplicationGVR \<noteq> gvr ''kro.run'' ''v1'' ''stacks''" by (simp add: ApplicationGVR_def gvr_def)
  then have 1: "{g \<in> set (map wr_GVR [\<lparr>wr_GVR = gvr ''kro.run'' ''v1'' ''stacks'', wr_LabelSelector = ''a=b''\<rparr>,
        \<lparr>wr_GVR = ApplicationGVR, wr_LabelSelector = []\<rparr>]). g \<notin> set [gvr ''kro.run'' ''v1'' ''stacks'']} = {ApplicationGVR}"
    by auto
  show ?thesis
    using ne 1 watched_under_one_kind [of "\<lambda>s opts. s" None "''argocd''" "[gvr ''kro.run'' ''v1'' ''stacks'']" None
      "[\<lparr>wr_GVR = gvr ''kro.run'' ''v1'' ''stacks'', wr_LabelSelector = ''a=b''\<rparr>, \<lparr>wr_GVR = ApplicationGVR, wr_LabelSelector = []\<rparr>]"]
    unfolding Let_def by (intro conjI) (simp_all add: run_informers_def filteredWatches_def)
qed

text \<open>
  Health and sync agree on resources that report conditions only: such a resource is healthy
  exactly when it is synced, out of sync exactly when it is progressing or degraded, and of
  unknown health exactly when its sync state is unspecified; and the comparison error of an
  Application always ends the message of its status.
\<close>

theorem condition_status_consistent:
  assumes "\<not> snd (NestedString A u [''status'', ''health'', ''status''])" and "\<not> snd (NestedString A u [''status'', ''sync'', ''status''])"
  shows "(fst (healthOf A u) = HEALTH_STATUS_HEALTHY \<longleftrightarrow> fst (syncOf A u) = SYNC_STATE_SYNCED)
    \<and> (fst (healthOf A u) \<in> {HEALTH_STATUS_PROGRESSING, HEALTH_STATUS_DEGRADED} \<longleftrightarrow> fst (syncOf A u) = SYNC_STATE_OUT_OF_SYNC)
    \<and> (fst (healthOf A u) = HEALTH_STATUS_UNKNOWN \<longleftrightarrow> fst (syncOf A u) = SYNC_STATE_UNSPECIFIED)
    \<and> (GetKind A u = ''Application'' \<and> comparisonErrorOf A u \<noteq> [] \<and> \<not> is_space (last (comparisonErrorOf A u)) \<longrightarrow>
         HasSuffix (su_Message (fst (mapFor A t u q))) (comparisonErrorOf A u))"
proof -
  have ns: "NestedString A u [''status'', ''health'', ''status''] = (fst (NestedString A u [''status'', ''health'', ''status'']), False)"
      "NestedString A u [''status'', ''sync'', ''status''] = (fst (NestedString A u [''status'', ''sync'', ''status'']), False)"
    using assms by (simp_all add: prod_eq_iff)
  obtain cs found where sl: "NestedSlice A u [''status'', ''conditions''] = (cs, found)" by fastforce
  have hd: "comparisonErrorOf A u \<noteq> [] \<Longrightarrow> \<not> is_space (hd (comparisonErrorOf A u))"
    using comparison_error_hd [of cs] by (cases found) (simp_all add: comparisonErrorOf_def sl)
  have msg: "HasSuffix (TrimSpace (m @ '' '' @ comparisonErrorOf A u)) (comparisonErrorOf A u)"
    if "comparisonErrorOf A u \<noteq> []" "\<not> is_space (last (comparisonErrorOf A u))" for m
    using TrimSpace_suffix [of "comparisonErrorOf A u" "m @ '' ''"] hd that by simp
  have "GetKind A u = ''Application'' \<Longrightarrow> comparisonErrorOf A u \<noteq> [] \<Longrightarrow> \<not> is_space (last (comparisonErrorOf A u)) \<Longrightarrow>
      HasSuffix (su_Message (fst (mapFor A t u q))) (comparisonErrorOf A u)"
    using msg by (simp add: mapFor_def mapStatus_def Let_def split: prod.split)
  then show ?thesis
    unfolding healthOf_def syncOf_def by (subst (1 2 3) ns(1), subst (1 2 3) ns(2)) (simp add: sl Let_def split: option.split)
qed

theorem condition_status_consistent_witness:
  "let u = [''kind'' \<mapsto> UStr ''Application'',
            ''status'' \<mapsto> UMap [''conditions'' \<mapsto> UList
               [UMap [''type'' \<mapsto> UStr ''ComparisonError'', ''message'' \<mapsto> UStr ''no CRD''],
                UMap [''type'' \<mapsto> UStr ''Ready'', ''status'' \<mapsto> UStr ''True'']]]]
   in fst (syncOf ref_accessors u) = SYNC_STATE_SYNCED \<and> fst (healthOf ref_accessors u) = HEALTH_STATUS_HEALTHY
    \<and> HasSuffix (su_Message (fst (mapFor ref_accessors 0 u False))) ''ComparisonError: no CRD''"
proof -
  let ?u = "[''kind'' \<mapsto> UStr ''Application'',
            ''status'' \<mapsto> UMap [''conditions'' \<mapsto> UList
               [UMap [''type'' \<mapsto> UStr ''ComparisonError'', ''message'' \<mapsto> UStr ''no CRD''],
                UMap [''type'' \<mapsto> UStr ''Ready'', ''status'' \<mapsto> UStr ''True'']]]]"
  have "comparisonErrorOf ref_accessors ?u = ''ComparisonError: no CRD''"
    by (simp add: comparisonErrorOf_def ref_accessors_def as_map_def str_of_def)
  moreover have "fst (syncOf ref_accessors ?u) = SYNC_STATE_SYNCED"
    by (simp add: syncOf_def ref_accessors_def ready_condition_def as_map_def)
  moreover have "\<not> snd (NestedString ref_accessors ?u [''status'', ''health'', ''status''])"
    and "\<not> snd (NestedString ref_accessors ?u [''status'', ''sync'', ''status''])"
    and "GetKind ref_accessors ?u = ''Application''"
    by (simp_all add: ref_accessors_def str_of_def)
  ultimately show ?thesis
    using condition_status_consistent [of ref_accessors ?u 0 False] unfolding Let_def by (simp add: is_space_def)
qed

end
