(* ===== verification/Addon_Scanner.thy ===== *)
theory Addon_Scanner
  imports Event_Sender Capability "HOL-Library.Finite_Map"
begin

text \<open>
  The addon scanner (\<open>internal/addonscan/scanner.go\<close>): helm storage Secrets are matched against
  the table of known addons, and the snapshot of matches is reported when it changes.

  Parameters, in the record \<open>scan_env\<close>: the iteration order of the Go map (it may differ at every
  iteration, so it depends on the world), the JSON encoding and the hash of the checksum, the
  conversion and packing of the report, the generated event ids and the stream's \<open>Send\<close>. The
  time stamp of the event is left out.
\<close>

section \<open>Data\<close>

definition ReportAddonsEventType :: string where
  "ReportAddonsEventType = ''EVENT_TYPE_REPORT_ADDONS''"

record KnownAddon =
  ka_ReleaseName :: string
  ka_CatalogItem :: string
  ka_Chart :: string
  ka_RepoURL :: string

definition DefaultKnownAddons :: "KnownAddon list" where
  "DefaultKnownAddons =
     [\<lparr>ka_ReleaseName = ''cert-manager'', ka_CatalogItem = ''platform:cert-manager'', ka_Chart = ''cert-manager'',
       ka_RepoURL = ''https://charts.jetstack.io''\<rparr>,
      \<lparr>ka_ReleaseName = ''external-secrets'', ka_CatalogItem = ''platform:external-secrets'', ka_Chart = ''external-secrets'',
       ka_RepoURL = ''https://charts.external-secrets.io''\<rparr>,
      \<lparr>ka_ReleaseName = ''istiod'', ka_CatalogItem = ''platform:istio'', ka_Chart = ''istiod'',
       ka_RepoURL = ''https://istio-release.storage.googleapis.com/charts''\<rparr>]"

text \<open>The map stored per release, with its \<open>revision\<close>.\<close>

record addon_item =
  it_catalogItem :: string
  it_releaseName :: string
  it_namespace :: string
  it_chart :: string
  it_repoUrl :: string
  it_revision :: int

record Scanner =
  sc_known :: "KnownAddon list"
  sc_namespaces :: "string list"
  sc_current :: "(string, addon_item) fmap"
  sc_lastSum :: string

definition NewScanner :: "KnownAddon list \<Rightarrow> string list \<Rightarrow> Scanner" where
  "NewScanner known namespaces =
     \<lparr>sc_known = known, sc_namespaces = namespaces, sc_current = fmempty, sc_lastSum = []\<rparr>"

record ('w, 'p) scan_env =
  se_order :: "'w \<Rightarrow> (string, addon_item) fmap \<Rightarrow> string list"
  se_json :: "obj list \<Rightarrow> string"
  se_H :: "string \<Rightarrow> string"
  se_NewStruct :: "obj \<Rightarrow> obj res"
  se_anyNew :: "obj \<Rightarrow> 'p res"
  se_uuid :: "'w \<Rightarrow> string"
  se_Send :: "'p Event \<Rightarrow> 'w \<Rightarrow> go_err option \<times> 'w"

section \<open>Reports\<close>

definition match :: "Scanner \<Rightarrow> string \<Rightarrow> KnownAddon option" where
  "match s release = find (\<lambda>k. ka_ReleaseName k = release) (sc_known s)"

definition clean :: "addon_item \<Rightarrow> obj" where
  "clean it =
     [''catalogItem'' \<mapsto> UStr (it_catalogItem it), ''releaseName'' \<mapsto> UStr (it_releaseName it),
      ''namespace'' \<mapsto> UStr (it_namespace it), ''chart'' \<mapsto> UStr (it_chart it), ''repoUrl'' \<mapsto> UStr (it_repoUrl it)]"

definition checksumOf :: "('w, 'p) scan_env \<Rightarrow> obj list \<Rightarrow> string" where
  "checksumOf E addons = se_H E (se_json E addons)"

text \<open>
  The report in iteration order \<open>ks\<close>, sorted by catalog item; items with the same catalog item stay
  in the order of the iteration.
\<close>

definition report_items :: "string list \<Rightarrow> (string, addon_item) fmap \<Rightarrow> addon_item list" where
  "report_items ks m = sort_key it_catalogItem (List.map_filter (fmlookup m) ks)"

definition send_report :: "('w, 'p) scan_env \<Rightarrow> obj list \<Rightarrow> 'w \<Rightarrow> go_err option \<times> 'w" where
  "send_report E addons w =
     (case se_NewStruct E [''addons'' \<mapsto> UList (map UMap addons)] of
        Inl err \<Rightarrow> (Some err, w)
      | Inr doc \<Rightarrow>
          (case se_anyNew E doc of
             Inl err \<Rightarrow> (Some err, w)
           | Inr payload \<Rightarrow>
               se_Send E \<lparr>ev_EventId = ''addonscan-'' @ se_uuid E w, ev_ResourceId = [], ev_Type = ReportAddonsEventType,
                          ev_Payload = Some payload\<rparr> w))"

definition report :: "('w, 'p) scan_env \<Rightarrow> Scanner \<Rightarrow> 'w \<Rightarrow> Scanner \<times> 'w" where
  "report E s w =
     (let addons = map clean (report_items (se_order E w (sc_current s)) (sc_current s))
      in if length addons = 0 then (s, w)
         else let chk = checksumOf E addons
              in if chk = sc_lastSum s then (s, w)
                 else case send_report E addons w of
                        (Some err, w1) \<Rightarrow> (s, w1)
                      | (None, w1) \<Rightarrow> (s\<lparr>sc_lastSum := chk\<rparr>, w1))"

definition clear_sum :: "Scanner \<Rightarrow> Scanner" where
  "clear_sum s = s\<lparr>sc_lastSum := []\<rparr>"

definition scanner_Reset :: "('w, 'p) scan_env \<Rightarrow> Scanner \<Rightarrow> 'w \<Rightarrow> Scanner \<times> 'w" where
  "scanner_Reset E s w = report E (clear_sum s) w"

section \<open>Events\<close>

definition release_key :: "string \<Rightarrow> string \<Rightarrow> string" where
  "release_key namespace release = namespace @ ''/'' @ release"

definition applyLabels :: "('w, 'p) scan_env \<Rightarrow> string \<Rightarrow> (string \<Rightarrow> string option) \<Rightarrow> Scanner \<Rightarrow> 'w \<Rightarrow> Scanner \<times> 'w" where
  "applyLabels E namespace labels s w =
     (if mget labels ''owner'' \<noteq> ''helm'' \<or> mget labels ''status'' \<noteq> ''deployed'' then (s, w)
      else let release = mget labels ''name''
           in if release = [] then (s, w)
              else case match s release of
                     None \<Rightarrow> (s, w)
                   | Some known \<Rightarrow>
                       let rev = fst (Atoi (mget labels ''version'')); key = release_key namespace release
                       in if (case fmlookup (sc_current s) key of Some cur \<Rightarrow> it_revision cur \<ge> rev | None \<Rightarrow> False) then (s, w)
                          else let it = \<lparr>it_catalogItem = ka_CatalogItem known, it_releaseName = release, it_namespace = namespace,
                                         it_chart = ka_Chart known, it_repoUrl = ka_RepoURL known, it_revision = rev\<rparr>
                               in report E (s\<lparr>sc_current := fmupd key it (sc_current s)\<rparr>) w)"

text \<open>The objects an informer may deliver.\<close>

datatype scan_object =
    PartialMetadata PartialObjectMetadata
  | FullObject obj
  | FinalStateUnknown "PartialObjectMetadata option"
  | OtherObject

definition onEvent :: "('w, 'p) scan_env \<Rightarrow> Accessors \<Rightarrow> scan_object \<Rightarrow> Scanner \<Rightarrow> 'w \<Rightarrow> Scanner \<times> 'w" where
  "onEvent E A ob s w =
     (case ob of
        PartialMetadata pm \<Rightarrow> applyLabels E (pm_Namespace pm) (pm_Labels pm) s w
      | FullObject u \<Rightarrow> applyLabels E (GetNamespace A u) (GetLabels A u) s w
      | _ \<Rightarrow> (s, w))"

definition deleted_labels :: "Accessors \<Rightarrow> scan_object \<Rightarrow> string \<times> (string \<Rightarrow> string option)" where
  "deleted_labels A ob =
     (case ob of
        PartialMetadata pm \<Rightarrow> (pm_Namespace pm, pm_Labels pm)
      | FullObject u \<Rightarrow> (GetNamespace A u, GetLabels A u)
      | FinalStateUnknown (Some pm) \<Rightarrow> (pm_Namespace pm, pm_Labels pm)
      | _ \<Rightarrow> ([], Map.empty))"

definition onDelete :: "('w, 'p) scan_env \<Rightarrow> Accessors \<Rightarrow> scan_object \<Rightarrow> Scanner \<Rightarrow> 'w \<Rightarrow> Scanner \<times> 'w" where
  "onDelete E A ob s w =
     (let (namespace, labels) = deleted_labels A ob
      in if mget labels ''owner'' \<noteq> ''helm'' \<or> mget labels ''status'' \<noteq> ''deployed'' \<or> mget labels ''name'' = [] then (s, w)
         else let key = release_key namespace (mget labels ''name'');
                  existed = (fmlookup (sc_current s) key \<noteq> None);
                  s1 = s\<lparr>sc_current := fmdrop key (sc_current s)\<rparr>
              in if existed then report E s1 w else (s1, w))"

section \<open>The watches\<close>

record scan_informer =
  si_GVR :: GVR
  si_Namespace :: string
  si_Selector :: string

definition scan_secretsGVR :: GVR where
  "scan_secretsGVR = \<lparr>g_Group = [], g_Version = ''v1'', g_Resource = ''secrets''\<rparr>"

text \<open>
  The informers \<open>Run\<close> starts, one per namespace, up to the first one whose handlers are refused: \<open>register\<close> adds them.
\<close>

fun start_scans :: "(scan_informer \<Rightarrow> go_err option) \<Rightarrow> string list \<Rightarrow> go_err option \<times> scan_informer list" where
  "start_scans register [] = (None, [])"
| "start_scans register (ns # nss) =
     (let i = \<lparr>si_GVR = scan_secretsGVR, si_Namespace = ns, si_Selector = ''owner=helm''\<rparr>
      in case register i of
           Some err \<Rightarrow> (Some (Wrapf ''addonscan: register handler: %w'' [] err), [])
         | None \<Rightarrow> (case start_scans register nss of (err, started) \<Rightarrow> (err, i # started)))"

datatype scan_event = Present scan_object | Absent scan_object

definition scan_handler :: "('w, 'p) scan_env \<Rightarrow> Accessors \<Rightarrow> Scanner \<times> 'w \<Rightarrow> scan_event \<Rightarrow> Scanner \<times> 'w" where
  "scan_handler E A sw ev = (case ev of Present ob \<Rightarrow> onEvent E A ob (fst sw) (snd sw) | Absent ob \<Rightarrow> onDelete E A ob (fst sw) (snd sw))"

text \<open>
  \<open>Run\<close>: the returned error, the started informers and the state. \<open>early\<close> and \<open>late\<close> are the events handled before and
  after the caches were filled, \<open>synced\<close> tells whether they were, and \<open>cancelled\<close> whether the context had ended
  otherwise. Without an error \<open>Run\<close> returns when its context ends.
\<close>

definition scanner_Run ::
  "('w, 'p) scan_env \<Rightarrow> Accessors \<Rightarrow> (scan_informer \<Rightarrow> go_err option) \<Rightarrow> bool \<Rightarrow> bool \<Rightarrow> scan_event list \<Rightarrow> scan_event list \<Rightarrow> Scanner \<Rightarrow> 'w \<Rightarrow>
   go_err option \<times> scan_informer list \<times> Scanner \<times> 'w"
where
  "scanner_Run E A register synced cancelled early late s w =
     (if length (sc_namespaces s) = 0 then (None, [], s, w)
      else case start_scans register (sc_namespaces s) of
        (Some err, started) \<Rightarrow> (Some err, started, foldl (scan_handler E A) (s, w) early)
      | (None, started) \<Rightarrow>
          let (s1, w1) = foldl (scan_handler E A) (s, w) early
          in if \<not> synced then (if cancelled then None else Some (Errorf ''addonscan: cache sync aborted'' []), started, s1, w1)
             else (None, started, foldl (scan_handler E A) (report E s1 w1) late))"

section \<open>Lemmas\<close>

lemma start_scans_started:
  "i \<in> set (snd (start_scans register nss)) \<Longrightarrow> si_GVR i = scan_secretsGVR \<and> si_Selector i = ''owner=helm'' \<and> si_Namespace i \<in> set nss"
  by (induction nss) (auto simp: Let_def split: option.splits prod.splits)

lemma start_scans_all:
  "fst (start_scans register nss) = None \<longleftrightarrow> map si_Namespace (snd (start_scans register nss)) = nss"
  by (induction nss) (auto simp: Let_def split: option.splits prod.splits)

text \<open>The scanner watches nothing but helm secrets of its namespaces, all of them unless a handler is refused, and nothing without namespaces.\<close>

lemma scanner_Run_watches:
  assumes "scanner_Run E A register synced cancelled early late s w = (err, started, s', w')"
  shows "i \<in> set started \<Longrightarrow> si_GVR i = scan_secretsGVR \<and> si_Selector i = ''owner=helm'' \<and> si_Namespace i \<in> set (sc_namespaces s)"
    and "err = None \<Longrightarrow> map si_Namespace started = sc_namespaces s"
    and "sc_namespaces s = [] \<Longrightarrow> s' = s \<and> w' = w"
  using assms start_scans_started [of i register "sc_namespaces s"] start_scans_all [of register "sc_namespaces s"]
  by (auto simp: scanner_Run_def Let_def split: if_splits prod.splits option.splits)

lemma report_current [simp]: "sc_current (fst (report E s w)) = sc_current s" "sc_known (fst (report E s w)) = sc_known s"
  by (simp_all add: report_def Let_def split: prod.split option.split)

definition enumerates_items :: "('w \<Rightarrow> (string, addon_item) fmap \<Rightarrow> string list) \<Rightarrow> bool" where
  "enumerates_items order \<longleftrightarrow> (\<forall>w m. distinct (order w m) \<and> set (order w m) = fset (fmdom m))"

text \<open>At most one release per catalog item.\<close>

definition one_per_catalog :: "(string, addon_item) fmap \<Rightarrow> bool" where
  "one_per_catalog m \<longleftrightarrow>
     (\<forall>k l a b. fmlookup m k = Some a \<longrightarrow> fmlookup m l = Some b \<longrightarrow> it_catalogItem a = it_catalogItem b \<longrightarrow> a = b)"

definition canonical_items :: "(string, addon_item) fmap \<Rightarrow> addon_item list" where
  "canonical_items m = report_items (sorted_list_of_set (fset (fmdom m))) m"

lemma report_items_canonical:
  assumes "distinct ks" and "set ks = fset (fmdom m)" and "one_per_catalog m"
  shows "report_items ks m = canonical_items m"
proof -
  let ?ls = "sorted_list_of_set (fset (fmdom m))"
  have "mset ks = mset ?ls" using assms(1,2) by (simp add: set_eq_iff_mset_eq_distinct [symmetric])
  then have "mset (List.map_filter (fmlookup m) ks) = mset (List.map_filter (fmlookup m) ?ls)"
    by (simp add: List.map_filter_def mset_filter)
  moreover have "inj_on it_catalogItem (set (List.map_filter (fmlookup m) ks))"
    using assms(3) by (auto simp: inj_on_def one_per_catalog_def List.map_filter_def)
  ultimately show ?thesis
    unfolding report_items_def canonical_items_def by (intro sort_key_inj_key_eq) simp_all
qed

lemma canonical_items_Nil: "canonical_items m = [] \<longleftrightarrow> m = fmempty"
proof
  assume "canonical_items m = []"
  then have "List.map_filter (fmlookup m) (sorted_list_of_set (fset (fmdom m))) = []"
    unfolding canonical_items_def report_items_def by (metis length_0_conv length_sort)
  then have "k \<notin> fset (fmdom m)" for k
    by (auto simp: List.map_filter_def filter_empty_conv fmlookup_dom_iff)
  then show "m = fmempty" by (metis fmap_ext fmdom_notD fmempty_lookup)
qed (simp add: canonical_items_def report_items_def List.map_filter_def)

text \<open>What the contract of the shared sender covers, and one attempt to send the snapshot.\<close>

definition scan_live :: "('w, 'p) scan_env \<Rightarrow> Scanner \<Rightarrow> bool" where
  "scan_live E s \<longleftrightarrow> enumerates_items (se_order E) \<and> (\<forall>x. se_H E x \<noteq> []) \<and> sc_current s \<noteq> fmempty \<and> one_per_catalog (sc_current s)"

definition snapshot_sum :: "('w, 'p) scan_env \<Rightarrow> Scanner \<Rightarrow> string" where
  "snapshot_sum E s = checksumOf E (map clean (canonical_items (sc_current s)))"

definition report_attempt :: "('w, 'p) scan_env \<Rightarrow> Scanner \<Rightarrow> 'w \<Rightarrow> bool \<times> 'w" where
  "report_attempt E s w = (case send_report E (map clean (canonical_items (sc_current s))) w of (err, w') \<Rightarrow> (err = None, w'))"

lemma report_alt:
  assumes "scan_live E s"
  shows "report E s w =
    (if sc_lastSum s = snapshot_sum E s then (s, w)
     else case report_attempt E s w of (ok, w') \<Rightarrow> (if ok then s\<lparr>sc_lastSum := snapshot_sum E s\<rparr> else s, w'))"
proof -
  have "report_items (se_order E w (sc_current s)) (sc_current s) = canonical_items (sc_current s)"
    using assms by (intro report_items_canonical) (auto simp: scan_live_def enumerates_items_def)
  moreover have "canonical_items (sc_current s) \<noteq> []" using assms by (simp add: scan_live_def canonical_items_Nil)
  ultimately show ?thesis
    by (auto simp: report_def snapshot_sum_def report_attempt_def Let_def split: prod.split option.split)
qed

interpretation scan: dedupe_sender
  "\<lambda>u s. scan_live E s"
  "\<lambda>u. sc_lastSum"
  "\<lambda>u. snapshot_sum E"
  "\<lambda>u. report_attempt E"
  "\<lambda>u. report E"
  clear_sum
  for E
proof unfold_locales
  fix s and w w' and u
  assume l: "scan_live E s"
  show "sc_lastSum s = snapshot_sum E s \<Longrightarrow> report E s w = (s, w)" using report_alt [OF l] by simp
  show "sc_lastSum s \<noteq> snapshot_sum E s \<Longrightarrow> report_attempt E s w = (False, w') \<Longrightarrow> report E s w = (s, w')"
    using report_alt [OF l] by simp
  show "sc_lastSum s \<noteq> snapshot_sum E s \<Longrightarrow> report_attempt E s w = (True, w') \<Longrightarrow>
      \<exists>s'. report E s w = (s', w') \<and> scan_live E s' \<and> sc_lastSum s' = snapshot_sum E s'"
    using report_alt [OF l] l by (simp add: scan_live_def snapshot_sum_def)
  have "snapshot_sum E (clear_sum s) \<noteq> []" using l by (simp add: snapshot_sum_def checksumOf_def scan_live_def)
  then show "scan_live E (clear_sum s) \<and> sc_lastSum (clear_sum s) \<noteq> snapshot_sum E (clear_sum s)"
    using l by (simp add: clear_sum_def scan_live_def)
qed

text \<open>The key and revision an informer event contributes.\<close>

definition scan_revision :: "KnownAddon list \<Rightarrow> string \<times> (string \<Rightarrow> string option) \<Rightarrow> (string \<times> int) option" where
  "scan_revision known ev =
     (case ev of (namespace, labels) \<Rightarrow>
        if mget labels ''owner'' = ''helm'' \<and> mget labels ''status'' = ''deployed'' \<and> mget labels ''name'' \<noteq> []
           \<and> mget labels ''name'' \<in> set (map ka_ReleaseName known)
        then Some (release_key namespace (mget labels ''name''), fst (Atoi (mget labels ''version'')))
        else None)"

lemma match_None: "match s release = None \<longleftrightarrow> release \<notin> set (map ka_ReleaseName (sc_known s))"
  by (auto simp: match_def find_None_iff)

lemma applyLabels_known [simp]: "sc_known (fst (applyLabels E ns labels s w)) = sc_known s"
  by (simp add: applyLabels_def Let_def split: option.split)

lemma applyLabels_revision:
  "map_option it_revision (fmlookup (sc_current (fst (applyLabels E ns labels s w))) k) =
     (case scan_revision (sc_known s) (ns, labels) of
        Some (key, r) \<Rightarrow>
          if key = k then Some (case fmlookup (sc_current s) k of None \<Rightarrow> r | Some cur \<Rightarrow> max (it_revision cur) r)
          else map_option it_revision (fmlookup (sc_current s) k)
      | None \<Rightarrow> map_option it_revision (fmlookup (sc_current s) k))"
proof (cases "match s (mget labels ''name'')")
  case None
  then have "mget labels ''name'' \<notin> set (map ka_ReleaseName (sc_known s))" by (simp only: match_None not_False_eq_True)
  with None show ?thesis by (auto simp: applyLabels_def scan_revision_def Let_def)
next
  case (Some known)
  then have "mget labels ''name'' \<in> set (map ka_ReleaseName (sc_known s))" using match_None by (metis option.distinct(1))
  with Some show ?thesis
    by (auto simp: applyLabels_def scan_revision_def Let_def max_def split: option.split)
qed

text \<open>The informer events of a run, in order.\<close>

fun scan_run :: "('w, 'p) scan_env \<Rightarrow> (string \<times> (string \<Rightarrow> string option)) list \<Rightarrow> Scanner \<Rightarrow> 'w \<Rightarrow> Scanner \<times> 'w" where
  "scan_run E [] s w = (s, w)"
| "scan_run E (ev # evs) s w =
     (case applyLabels E (fst ev) (snd ev) s w of (s1, w1) \<Rightarrow> scan_run E evs s1 w1)"

definition revisions :: "KnownAddon list \<Rightarrow> string \<Rightarrow> (string \<times> (string \<Rightarrow> string option)) list \<Rightarrow> int list" where
  "revisions known k evs = map snd (filter (\<lambda>p. fst p = k) (List.map_filter (scan_revision known) evs))"

lemma revisions_simps:
  "revisions known k [] = []"
  "revisions known k (ev # evs) =
     (case scan_revision known ev of
        Some (key, r) \<Rightarrow> if key = k then r # revisions known k evs else revisions known k evs
      | None \<Rightarrow> revisions known k evs)"
  by (auto simp: revisions_def List.map_filter_def split: option.split)

definition max_revision :: "int option \<Rightarrow> int list \<Rightarrow> int option" where
  "max_revision start rs = fold (\<lambda>r cur. Some (case cur of None \<Rightarrow> r | Some c \<Rightarrow> max c r)) rs start"

lemma max_revision_Some: "max_revision (Some c) rs = Some (foldl max c rs)"
  by (induction rs arbitrary: c) (auto simp: max_revision_def)

lemma foldl_max_Max: "foldl max c rs = Max (insert c (set rs))" for c :: int
proof (induction rs arbitrary: c)
  case Nil
  then show ?case by simp
next
  case (Cons r rs)
  then show ?case by (simp add: Max_insert2 insert_commute) (cases "rs = []"; simp add: max.assoc)
qed

lemma max_revision_Max: "max_revision None rs = (if rs = [] then None else Some (Max (set rs)))"
  by (cases rs) (simp_all add: max_revision_def max_revision_Some [unfolded max_revision_def] foldl_max_Max)

lemma scan_run_revision:
  "map_option it_revision (fmlookup (sc_current (fst (scan_run E evs s w))) k) =
     max_revision (map_option it_revision (fmlookup (sc_current s) k)) (revisions (sc_known s) k evs)"
proof (induction evs arbitrary: s w)
  case Nil
  then show ?case by (simp add: revisions_simps max_revision_def)
next
  case (Cons ev evs)
  obtain s1 w1 where s1: "applyLabels E (fst ev) (snd ev) s w = (s1, w1)" by fastforce
  then have "sc_known s1 = sc_known s"
    and "map_option it_revision (fmlookup (sc_current s1) k) = (case scan_revision (sc_known s) ev of
        Some (key, r) \<Rightarrow>
          if key = k then Some (case fmlookup (sc_current s) k of None \<Rightarrow> r | Some cur \<Rightarrow> max (it_revision cur) r)
          else map_option it_revision (fmlookup (sc_current s) k)
      | None \<Rightarrow> map_option it_revision (fmlookup (sc_current s) k))"
    using applyLabels_known [of E "fst ev" "snd ev" s w] applyLabels_revision [of E "fst ev" "snd ev" s w k] by simp_all
  with s1 Cons show ?case
    by (auto simp: revisions_simps max_revision_def split: option.split)
qed

section \<open>Properties\<close>

text \<open>
  A snapshot is reported once: after a reset, however often a report is triggered, the
  snapshot is sent until the stream accepts it and never again while it does not change, for
  every iteration order of the map, provided no two releases share a catalog item.
\<close>

theorem snapshot_reported_once:
  assumes "enumerates_items (se_order E)" and "\<forall>x. se_H E x \<noteq> []"
    and "sc_current s \<noteq> fmempty" and "one_per_catalog (sc_current s)"
  shows "snd (deliver (report E) n (clear_sum s) w) = until_accepted (report_attempt E s) n w"
proof -
  have "scan_live E s" using assms by (simp add: scan_live_def)
  then have "snd (deliver (report E) n (clear_sum s) w) = until_accepted (report_attempt E (clear_sum s)) n w"
    by (rule scan.deliver_after_reset)
  moreover have "report_attempt E (clear_sum s) = report_attempt E s"
    by (simp add: report_attempt_def clear_sum_def fun_eq_iff)
  ultimately show ?thesis by simp
qed

text \<open>
  The highest deployed revision counts: after any sequence of informer events the entry of a
  release has the largest revision of its deployed secrets, and there is no entry without
  one. The deletion of a deployed secret, however, drops the entry whatever revision it had,
  also that of a newer one that is still deployed.
\<close>

theorem highest_revision_kept:
  "map_option it_revision (fmlookup (sc_current (fst (scan_run E evs (NewScanner known namespaces) w))) k) =
     (if revisions known k evs = [] then None else Some (Max (set (revisions known k evs))))
   \<and> (mget labels ''owner'' = ''helm'' \<and> mget labels ''status'' = ''deployed'' \<and> mget labels ''name'' \<noteq> [] \<longrightarrow>
      fmlookup (sc_current (fst (onDelete E A (PartialMetadata
        \<lparr>pm_APIVersion = [], pm_Kind = [], pm_Name = secret, pm_Namespace = ns, pm_Labels = labels, pm_Annotations = Map.empty\<rparr>) s w)))
        (release_key ns (mget labels ''name'')) = None)"
  using scan_run_revision [of E evs "NewScanner known namespaces" w k]
  by (auto simp: NewScanner_def max_revision_Max onDelete_def deleted_labels_def Let_def)

text \<open>A world that counts the events; the stream accepts the third.\<close>

definition sample_env :: "(nat, obj) scan_env" where
  "sample_env =
     \<lparr>se_order = (\<lambda>w m. sorted_list_of_set (fset (fmdom m))), se_json = (\<lambda>xs. ''json''), se_H = (\<lambda>x. ''sum''), se_NewStruct = Inr,
      se_anyNew = Inr, se_uuid = show_nat, se_Send = (\<lambda>ev w. (if w = 2 then None else Some EOF, w + 1))\<rparr>"

definition sample_labels :: "string \<Rightarrow> string \<Rightarrow> string option" where
  "sample_labels version =
     [''owner'' \<mapsto> ''helm'', ''status'' \<mapsto> ''deployed'', ''name'' \<mapsto> ''istiod'', ''version'' \<mapsto> version]"

definition sample_item :: addon_item where
  "sample_item = \<lparr>it_catalogItem = ''platform:istio'', it_releaseName = ''istiod'', it_namespace = ''istio-system'', it_chart = ''istiod'',
                  it_repoUrl = ''https://istio-release.storage.googleapis.com/charts'', it_revision = 2\<rparr>"

theorem snapshot_reported_once_witness:
  "snd (deliver (report sample_env) 5
     (clear_sum ((NewScanner DefaultKnownAddons [''istio-system''])\<lparr>sc_current := fmupd ''istio-system/istiod'' sample_item fmempty\<rparr>)) 0) = 3"
  using snapshot_reported_once [of sample_env
      "(NewScanner DefaultKnownAddons [''istio-system''])\<lparr>sc_current := fmupd ''istio-system/istiod'' sample_item fmempty\<rparr>" 5 0]
  by (simp add: sample_env_def enumerates_items_def one_per_catalog_def report_attempt_def send_report_def numeral_eq_Suc
      fmupd_lookup split: if_splits)

theorem highest_revision_kept_witness:
  "map_option it_revision (fmlookup (sc_current (fst (scan_run sample_env
        [(''istio-system'', sample_labels ''2''), (''istio-system'', sample_labels ''1'')]
        (NewScanner DefaultKnownAddons [''istio-system'']) 0))) ''istio-system/istiod'') = Some 2
   \<and> fmlookup (sc_current (fst (onDelete sample_env ref_accessors (PartialMetadata
        \<lparr>pm_APIVersion = [], pm_Kind = [], pm_Name = ''sh.helm.release.v1.istiod.v1'', pm_Namespace = ''istio-system'',
         pm_Labels = sample_labels ''1'', pm_Annotations = Map.empty\<rparr>)
        ((NewScanner DefaultKnownAddons [])\<lparr>sc_current := fmupd ''istio-system/istiod'' sample_item fmempty\<rparr>) 0)))
        (release_key ''istio-system'' (mget (sample_labels ''1'') ''name'')) = None"
proof -
  have "revisions DefaultKnownAddons ''istio-system/istiod''
      [(''istio-system'', sample_labels ''2''), (''istio-system'', sample_labels ''1'')] = [2, 1]"
    by (simp add: revisions_simps scan_revision_def sample_labels_def mget_def DefaultKnownAddons_def release_key_def
        Atoi_def ParseInt64_def is_digit_def digit_val_def Let_def)
  moreover have "mget (sample_labels ''1'') ''owner'' = ''helm''" "mget (sample_labels ''1'') ''status'' = ''deployed''"
      "mget (sample_labels ''1'') ''name'' \<noteq> []"
    by (simp_all add: sample_labels_def mget_def)
  ultimately show ?thesis
    using highest_revision_kept [of sample_env "[(''istio-system'', sample_labels ''2''), (''istio-system'', sample_labels ''1'')]"
        DefaultKnownAddons "[''istio-system'']" 0 "''istio-system/istiod''" "sample_labels ''1''" ref_accessors
        "''sh.helm.release.v1.istiod.v1''" "''istio-system''"
        "(NewScanner DefaultKnownAddons [])\<lparr>sc_current := fmupd ''istio-system/istiod'' sample_item fmempty\<rparr>"]
    by simp
qed

text \<open>
  A failed report is not retried by the event that caused it: when the informer delivers the
  same secret again, nothing is sent, since its revision is already in the snapshot, although
  a failed send leaves the remembered checksum as it was so that the next event retries.
\<close>

theorem failed_report_not_retried:
  "applyLabels E ns labels (fst (applyLabels E ns labels s w)) w' = (fst (applyLabels E ns labels s w), w')
   \<and> ((\<forall>ev v. fst (se_Send E ev v) \<noteq> None) \<longrightarrow> sc_lastSum (fst (applyLabels E ns labels s w)) = sc_lastSum s)"
proof (intro conjI impI)
  let ?s1 = "fst (applyLabels E ns labels s w)"
  show "applyLabels E ns labels ?s1 w' = (?s1, w')"
  proof (cases "scan_revision (sc_known s) (ns, labels)")
    case None
    then have "match ?s1 (mget labels ''name'') = None \<or> mget labels ''owner'' \<noteq> ''helm'' \<or> mget labels ''status'' \<noteq> ''deployed''
        \<or> mget labels ''name'' = []"
      unfolding match_None by (auto simp: scan_revision_def split: if_splits)
    then show ?thesis unfolding applyLabels_def [of E ns labels ?s1] by (auto simp: Let_def)
  next
    case (Some p)
    then obtain r where p: "p = (release_key ns (mget labels ''name''), r)" "r = fst (Atoi (mget labels ''version''))"
      by (auto simp: scan_revision_def split: if_splits)
    obtain cur where "fmlookup (sc_current ?s1) (fst p) = Some cur" "it_revision cur \<ge> r"
      using applyLabels_revision [of E ns labels s w "fst p"] Some p by (auto split: option.splits)
    with p show ?thesis unfolding applyLabels_def [of E ns labels ?s1] by (auto simp: Let_def split: option.split)
  qed
next
  assume "\<forall>ev v. fst (se_Send E ev v) \<noteq> None"
  then have "sc_lastSum (fst (report E t w)) = sc_lastSum t" for t
    by (auto simp: report_def send_report_def Let_def split: sum.split prod.split option.split) (metis fst_conv option.distinct(1))
  then show "sc_lastSum (fst (applyLabels E ns labels s w)) = sc_lastSum s"
    by (simp add: applyLabels_def Let_def split: option.split)
qed

theorem failed_report_not_retried_witness:
  "let E = sample_env\<lparr>se_Send := \<lambda>ev w. (Some EOF, w + 1)\<rparr>;
       s1 = fst (applyLabels E ''istio-system'' (sample_labels ''2'') (NewScanner DefaultKnownAddons [''istio-system'']) 0)
   in applyLabels E ''istio-system'' (sample_labels ''2'') s1 1 = (s1, 1) \<and> sc_lastSum s1 = []"
  using failed_report_not_retried [of "sample_env\<lparr>se_Send := \<lambda>ev w. (Some EOF, w + 1)\<rparr>" "''istio-system''" "sample_labels ''2''"
      "NewScanner DefaultKnownAddons [''istio-system'']" 0 1]
  by (simp add: Let_def NewScanner_def)

end
