(* ===== verification/Stream_Client.thy ===== *)
theory Stream_Client
  imports Agent_Proto
begin

text \<open>
  The event stream to the gateway (\<open>internal/stream\<close>): reconnect policy, the opening of a session
  and its handshake, and the concurrent life of the client as a step relation.

  The opening of a session is a function on a world; the gateway, the token source, the clock and
  the packing of messages are parameters. Everything after it runs in several goroutines, so the
  client as a whole is the step relation \<open>client_step\<close>: callers of \<open>Send\<close>, the receive loop, the
  send pump, the consumers of the event channel and the supervising loop of \<open>Run\<close> interleave in
  any order, at the granularity of their channel operations. Fields whose names start with \<open>log_\<close>
  only record what happened.

  A duration is an \<open>int\<close> in nanoseconds. A multiplication of durations with a \<open>float64\<close> is the
  exact product rounded down; with the default policy every intermediate value is exact.
\<close>

section \<open>Reconnect policy (client.go, client_connect.go)\<close>

record Backoff =
  bo_InitialInterval :: int
  bo_MaxInterval :: int
  bo_Multiplier :: rat

definition seconds :: "int \<Rightarrow> int" where
  "seconds n = n * 1000000000"

definition DefaultBackoff :: Backoff where
  "DefaultBackoff = \<lparr>bo_InitialInterval = seconds 1, bo_MaxInterval = 5 * seconds 60, bo_Multiplier = 2\<rparr>"

definition nextDelay :: "int \<Rightarrow> Backoff \<Rightarrow> int" where
  "nextDelay current b =
     (let mult = (if bo_Multiplier b \<le> 1 then 2 else bo_Multiplier b);
          maxInterval = (if bo_MaxInterval b \<le> 0 then bo_MaxInterval DefaultBackoff else bo_MaxInterval b);
          nxt = \<lfloor>of_int current * mult\<rfloor>
      in if nxt > maxInterval then maxInterval else nxt)"

text \<open>\<open>r\<close> is the random number, at least 0 and below 1.\<close>

definition jitterDelay :: "int \<Rightarrow> rat \<Rightarrow> int" where
  "jitterDelay d r = \<lfloor>of_int d * (1 / 2 + r * (1 / 2))\<rfloor>"

definition run_backoff :: "Backoff \<Rightarrow> Backoff" where
  "run_backoff b = (if bo_InitialInterval b \<le> 0 then DefaultBackoff else b)"

section \<open>How a session ends (client_connect.go)\<close>

definition errDeadman :: go_err where
  "errDeadman = Errorf ''stream: receive timeout (keepalive dead-man switch)'' []"

definition errSendPump :: go_err where
  "errSendPump = Errorf ''stream: send pump failed'' []"

definition errTokenRotation :: go_err where
  "errTokenRotation = Errorf ''stream: token nearing expiry, rotating session'' []"

text \<open>\<open>errors.Is\<close> for a sentinel, \<open>errors.As\<close> for a handshake error.\<close>

definition err_is :: "go_err option \<Rightarrow> go_err \<Rightarrow> bool" where
  "err_is err target = (case err of None \<Rightarrow> False | Some e \<Rightarrow> target \<in> set (err_chain e))"

definition is_handshake :: "go_err option \<Rightarrow> bool" where
  "is_handshake err =
     (case err of None \<Rightarrow> False
      | Some e \<Rightarrow> list_ex (\<lambda>x. case x of HandshakeError _ \<Rightarrow> True | _ \<Rightarrow> False) (err_chain e))"

definition sessionCause :: "go_err option \<Rightarrow> string" where
  "sessionCause err =
     (if err = None \<or> err_is err Canceled then ''shutdown''
      else if is_handshake err then ''handshake_error''
      else if err_is err errDeadman then ''deadman''
      else if err_is err errTokenRotation then ''token_rotation''
      else if err_is err errSendPump then ''send_error''
      else ''recv_error'')"

section \<open>Opening a session (client_connect.go)\<close>

definition handshakeEventType :: string where
  "handshakeEventType = ''inari.agent.handshake.v1''"

record HandshakeRequest =
  hq_AgentVersion :: string
  hq_TenantId :: string
  hq_ContractVersion :: string
  hq_LastSeenStateChecksum :: string

record HandshakeResponse =
  hr_SessionId :: string
  hr_ResyncRequired :: bool
  hr_DesiredAgentVersion :: string

text \<open>A token source, and whether it also reports the expiry (\<open>None\<close>: the zero time).\<close>

datatype 'w TokenSource =
    PlainToken "'w \<Rightarrow> string res \<times> 'w"
  | ExpiringToken "'w \<Rightarrow> (string \<times> int option) res \<times> 'w"

record ('w, 'p) Gateway =
  gw_Connect :: "string \<Rightarrow> string \<Rightarrow> 'w \<Rightarrow> go_err option \<times> 'w"
  gw_Send :: "'p Event \<Rightarrow> 'w \<Rightarrow> go_err option \<times> 'w"
  gw_Receive :: "'w \<Rightarrow> 'p Event option res \<times> 'w"
  gw_packHandshake :: "HandshakeRequest \<Rightarrow> 'p res"
  gw_isHandshake :: "'p \<Rightarrow> bool"
  gw_decHandshake :: "'p \<Rightarrow> HandshakeResponse res"
  gw_now :: "'w \<Rightarrow> int"

text \<open>What \<open>session\<close> reads of the client, and its checksum function, if it has one.\<close>

record 'w client_config =
  cc_Address :: string
  cc_AgentVersion :: string
  cc_TenantID :: string
  cc_Token :: "'w TokenSource"
  cc_Checksum :: "('w \<Rightarrow> string) option"

definition token :: "'w TokenSource \<Rightarrow> 'w \<Rightarrow> (string \<times> int option) res \<times> 'w" where
  "token ts w =
     (case ts of
        ExpiringToken f \<Rightarrow> f w
      | PlainToken f \<Rightarrow> (case f w of (Inl err, w1) \<Rightarrow> (Inl err, w1) | (Inr tok, w1) \<Rightarrow> (Inr (tok, None), w1)))"

definition stream_checksumOf :: "('w \<Rightarrow> string) option \<Rightarrow> 'w \<Rightarrow> string" where
  "stream_checksumOf f w = (case f of None \<Rightarrow> [] | Some g \<Rightarrow> g w)"

text \<open>Division of Go's integers truncates toward zero.\<close>

definition tdiv :: "int \<Rightarrow> int \<Rightarrow> int" where
  "tdiv a b = sgn a * sgn b * (\<bar>a\<bar> div \<bar>b\<bar>)"

text \<open>How long the session may last before it is rotated; \<open>None\<close> for ever.\<close>

definition rotate_after :: "int \<Rightarrow> int option \<Rightarrow> int option" where
  "rotate_after now expiry =
     (case expiry of
        None \<Rightarrow> None
      | Some t \<Rightarrow>
          let ttl = t - now; margin = min (seconds 30) (tdiv ttl 4); d = ttl - margin
          in Some (if d > 0 then d else 0))"

text \<open>From the token to the accepted handshake; the result is the response and the rotation time.\<close>

definition open_session ::
  "('w, 'p) Gateway \<Rightarrow> 'w client_config \<Rightarrow> 'w \<Rightarrow> (HandshakeResponse \<times> int option) res \<times> 'w"
where
  "open_session G c w =
     (case token (cc_Token c) w of
        (Inl err, w1) \<Rightarrow> (Inl (HandshakeError (Wrapf ''stream: fetch token: %w'' [] err)), w1)
      | (Inr (tok, expiry), w1) \<Rightarrow>
      case gw_Connect G (cc_Address c) (''Bearer '' @ tok) w1 of
        (Some err, w2) \<Rightarrow> (Inl err, w2)
      | (None, w2) \<Rightarrow>
      case gw_packHandshake G \<lparr>hq_AgentVersion = cc_AgentVersion c, hq_TenantId = cc_TenantID c,
                               hq_ContractVersion = ''inari.agent.v1'',
                               hq_LastSeenStateChecksum = stream_checksumOf (cc_Checksum c) w2\<rparr> of
        Inl err \<Rightarrow> (Inl (HandshakeError (Wrapf ''stream: marshal handshake: %w'' [] err)), w2)
      | Inr payload \<Rightarrow>
      case gw_Send G \<lparr>ev_EventId = ''handshake-'' @ show_int (gw_now G w2), ev_ResourceId = [],
                      ev_Type = handshakeEventType, ev_Payload = Some payload\<rparr> w2 of
        (Some err, w3) \<Rightarrow> (Inl (HandshakeError (Wrapf ''stream: send handshake: %w'' [] err)), w3)
      | (None, w3) \<Rightarrow>
      case gw_Receive G w3 of
        (Inl err, w4) \<Rightarrow> (Inl (HandshakeError (Wrapf ''stream: receive handshake response: %w'' [] err)), w4)
      | (Inr first, w4) \<Rightarrow>
      case (case first of None \<Rightarrow> None | Some ev \<Rightarrow>
              (case ev_Payload ev of None \<Rightarrow> None | Some p \<Rightarrow> if gw_isHandshake G p then Some p else None)) of
        None \<Rightarrow> (Inl (HandshakeError (Errorf ''stream: expected handshake response as first server message'' [])), w4)
      | Some p \<Rightarrow>
      case gw_decHandshake G p of
        Inl err \<Rightarrow> (Inl (HandshakeError (Wrapf ''stream: decode handshake response: %w'' [] err)), w4)
      | Inr hr \<Rightarrow> (Inr (hr, rotate_after (gw_now G w4) expiry), w4))"

text \<open>The settings of the HTTP client for a gateway: whether it speaks h2c, whether it asks the environment for a proxy, and the keepalive.\<close>

record http_settings =
  hs_H2C :: bool
  hs_Proxy :: bool
  hs_ReadIdleTimeout :: int
  hs_PingTimeout :: int

definition DefaultHTTPClient :: "string \<Rightarrow> http_settings" where
  "DefaultHTTPClient address =
     (let h2c = HasPrefix address ''http://''
      in \<lparr>hs_H2C = h2c, hs_Proxy = (\<not> h2c), hs_ReadIdleTimeout = seconds 30, hs_PingTimeout = seconds 15\<rparr>)"

text \<open>The receive dead-man switch, \<open>0\<close> being the default.\<close>

definition recv_timeout :: "int \<Rightarrow> int" where
  "recv_timeout receiveTimeout = (if receiveTimeout \<le> 0 then 2 * seconds 60 else receiveTimeout)"

section \<open>The client (client_connect.go)\<close>

text \<open>An event on its way to the gateway, with the sequence number it was stamped with; 0 for none.\<close>

record 'p outbound =
  ob_Event :: "'p Event"
  ob_Sequence :: int

record 'p ConnectClient =
  cl_events :: "'p Event list"
  cl_sendCh :: "'p outbound list"
  cl_seq :: int
  cl_connected :: bool
  cl_callback :: bool
  log_notified :: "bool list"

definition events_cap :: nat where
  "events_cap = 64"

definition sendCh_cap :: nat where
  "sendCh_cap = 256"

definition NewConnectClient :: "'p ConnectClient" where
  "NewConnectClient =
     \<lparr>cl_events = [], cl_sendCh = [], cl_seq = 0, cl_connected = False, cl_callback = False, log_notified = []\<rparr>"

definition SetOnConnectedChange :: "'p ConnectClient \<Rightarrow> 'p ConnectClient" where
  "SetOnConnectedChange c = c\<lparr>cl_callback := True\<rparr>"

text \<open>The callback is called on a transition only; \<open>log_notified\<close> lists its arguments.\<close>

definition setConnected :: "bool \<Rightarrow> 'p ConnectClient \<Rightarrow> 'p ConnectClient" where
  "setConnected v c =
     (let changed = (cl_connected c \<noteq> v); c1 = c\<lparr>cl_connected := v\<rparr>
      in if changed \<and> cl_callback c then c1\<lparr>log_notified := log_notified c @ [v]\<rparr> else c1)"

text \<open>\<open>Send\<close> up to its \<open>select\<close>: the stamped event.\<close>

definition stamp :: "'p Event \<Rightarrow> 'p ConnectClient \<Rightarrow> 'p outbound \<times> 'p ConnectClient" where
  "stamp ev c = (let n = cl_seq c + 1 in (\<lparr>ob_Event = ev, ob_Sequence = n\<rparr>, c\<lparr>cl_seq := n\<rparr>))"

definition enqueue :: "'p outbound \<Rightarrow> 'p ConnectClient \<Rightarrow> 'p ConnectClient" where
  "enqueue e c = c\<lparr>cl_sendCh := cl_sendCh c @ [e]\<rparr>"

text \<open>The answer to a ping is dropped when the queue is full and carries no sequence number.\<close>

definition pong :: "(EventType \<Rightarrow> string) \<Rightarrow> 'p option \<Rightarrow> 'p Event \<Rightarrow> 'p outbound list" where
  "pong ets packed ping =
     (case packed of
        None \<Rightarrow> []
      | Some p \<Rightarrow> [\<lparr>ob_Event = \<lparr>ev_EventId = ''pong-'' @ ev_EventId ping, ev_ResourceId = [], ev_Type = ets EVENT_TYPE_PONG,
                                ev_Payload = Some p\<rparr>, ob_Sequence = 0\<rparr>])"

definition resync_event :: "(EventType \<Rightarrow> string) \<Rightarrow> HandshakeResponse \<Rightarrow> 'p Event list" where
  "resync_event ets hr =
     (if hr_ResyncRequired hr
      then [\<lparr>ev_EventId = ''resync-required-'' @ hr_SessionId hr, ev_ResourceId = [], ev_Type = ets EVENT_TYPE_RESYNC_REQUEST,
             ev_Payload = None\<rparr>]
      else [])"

text \<open>
  Where the supervising loop is: about to open a session, in the callback that announces one, in
  the delivery of the resync request that may follow, in the session's main loop, after a session
  that ended with an error, waiting for the next attempt, or returned. The goroutines of a session
  start with its main loop.
\<close>

datatype phase =
    Connecting | Notifying HandshakeResponse | Greeting | Established | Ended "go_err option" | Waiting int | Stopped

fun up :: "phase \<Rightarrow> bool" where
  "up (Notifying hr) = True"
| "up Greeting = True"
| "up Established = True"
| "up _ = False"

text \<open>
  \<open>rt_blocked\<close> are the callers of \<open>Send\<close> that wait for room in the queue, \<open>rt_hand\<close> the event the
  receive loop waits to deliver, \<open>rt_pump\<close> tells whether the send pump of the session runs.
  \<open>rt_stale\<close> and \<open>rt_stale_pumps\<close> are the receive loops (with their event) and pumps of earlier
  sessions that have not noticed their end yet.
\<close>

record 'p runtime =
  rt_client :: "'p ConnectClient"
  rt_phase :: phase
  rt_delay :: int
  rt_blocked :: "'p outbound list"
  rt_hand :: "'p Event list"
  rt_pump :: bool
  rt_stale :: "'p Event list"
  rt_stale_pumps :: nat
  log_enqueued :: "'p outbound list"
  log_drained :: "('p outbound \<times> bool) list"
  log_received :: "'p Event list"
  log_consumed :: "'p Event list"
  log_dropped :: "'p Event list"

definition rt_init :: "Backoff \<Rightarrow> 'p ConnectClient \<Rightarrow> 'p runtime" where
  "rt_init b c =
     \<lparr>rt_client = c, rt_phase = Connecting, rt_delay = bo_InitialInterval (run_backoff b), rt_blocked = [], rt_hand = [],
      rt_pump = False, rt_stale = [], rt_stale_pumps = 0, log_enqueued = [], log_drained = [], log_received = [],
      log_consumed = [], log_dropped = []\<rparr>"

text \<open>The end of a session: the goroutines it leaves behind become stale.\<close>

definition end_session :: "go_err option \<Rightarrow> 'p runtime \<Rightarrow> 'p runtime" where
  "end_session err r =
     r\<lparr>rt_client := setConnected False (rt_client r), rt_phase := Ended err, rt_stale := rt_stale r @ rt_hand r, rt_hand := [],
       rt_stale_pumps := rt_stale_pumps r + (if rt_pump r then 1 else 0), rt_pump := False\<rparr>"

definition add_pong :: "'p outbound list \<Rightarrow> 'p runtime \<Rightarrow> 'p runtime" where
  "add_pong ps r =
     (if length (cl_sendCh (rt_client r)) + length ps \<le> sendCh_cap
      then r\<lparr>rt_client := foldr enqueue ps (rt_client r), log_enqueued := log_enqueued r @ ps\<rparr> else r)"

text \<open>The errors the main loop of a session returns; a failed pump is seen by its closed channel.\<close>

definition session_error :: "bool \<Rightarrow> go_err \<Rightarrow> bool" where
  "session_error pump err \<longleftrightarrow>
     err \<in> {Canceled, DeadlineExceeded, errTokenRotation, errDeadman} \<or> (\<not> pump \<and> err = errSendPump)
     \<or> (case err of Wrapf f xs e \<Rightarrow> f = ''stream: receive: %w'' \<and> xs = [] | _ \<Rightarrow> False)"

inductive client_step :: "Backoff \<Rightarrow> (EventType \<Rightarrow> string) \<Rightarrow> 'p runtime \<Rightarrow> 'p runtime \<Rightarrow> bool"
  for b ets
where
  call_Send:
    "stamp ev (rt_client r) = (e, c) \<Longrightarrow> client_step b ets r (r\<lparr>rt_client := c, rt_blocked := rt_blocked r @ [e]\<rparr>)"
| Send_queued:
    "rt_blocked r = xs @ e # ys \<Longrightarrow> length (cl_sendCh (rt_client r)) < sendCh_cap \<Longrightarrow>
     client_step b ets r (r\<lparr>rt_client := enqueue e (rt_client r), rt_blocked := xs @ ys, log_enqueued := log_enqueued r @ [e]\<rparr>)"
| Send_cancelled:
    "rt_blocked r = xs @ e # ys \<Longrightarrow> client_step b ets r (r\<lparr>rt_blocked := xs @ ys\<rparr>)"
| open_failed:
    "rt_phase r = Connecting \<Longrightarrow> client_step b ets r (end_session (Some err) r)"
| accepted:
    "rt_phase r = Connecting \<Longrightarrow>
     client_step b ets r (r\<lparr>rt_client := setConnected True (rt_client r), rt_phase := Notifying hr\<rparr>)"
| announced:
    "rt_phase r = Notifying hr \<Longrightarrow>
     client_step b ets r (r\<lparr>rt_phase := Greeting, rt_hand := resync_event ets hr,
       log_received := log_received r @ resync_event ets hr\<rparr>)"
| greeting_cancelled:
    "rt_phase r = Greeting \<Longrightarrow> rt_hand r = [ev] \<Longrightarrow>
     client_step b ets r (r\<lparr>rt_hand := [], log_dropped := log_dropped r @ [ev]\<rparr>)"
| started:
    "rt_phase r = Greeting \<Longrightarrow> rt_hand r = [] \<Longrightarrow>
     client_step b ets r (r\<lparr>rt_phase := Established, rt_pump := True\<rparr>)"
| received:
    "rt_phase r = Established \<Longrightarrow> rt_hand r = [] \<Longrightarrow>
     client_step b ets r (r\<lparr>rt_hand := [ev], log_received := log_received r @ [ev]\<rparr>)"
| received_ping:
    "rt_phase r = Established \<Longrightarrow> rt_hand r = [] \<Longrightarrow> client_step b ets r (add_pong (pong ets packed ping) r)"
| delivered:
    "rt_hand r = [ev] \<Longrightarrow> length (cl_events (rt_client r)) < events_cap \<Longrightarrow>
     client_step b ets r (r\<lparr>rt_client := (rt_client r)\<lparr>cl_events := cl_events (rt_client r) @ [ev]\<rparr>, rt_hand := []\<rparr>)"
| stale_delivered:
    "rt_stale r = xs @ ev # ys \<Longrightarrow> length (cl_events (rt_client r)) < events_cap \<Longrightarrow>
     client_step b ets r (r\<lparr>rt_client := (rt_client r)\<lparr>cl_events := cl_events (rt_client r) @ [ev]\<rparr>, rt_stale := xs @ ys\<rparr>)"
| stale_dropped:
    "rt_stale r = xs @ ev # ys \<Longrightarrow> client_step b ets r (r\<lparr>rt_stale := xs @ ys, log_dropped := log_dropped r @ [ev]\<rparr>)"
| consumed:
    "cl_events (rt_client r) = ev # evs \<Longrightarrow>
     client_step b ets r (r\<lparr>rt_client := (rt_client r)\<lparr>cl_events := evs\<rparr>, log_consumed := log_consumed r @ [ev]\<rparr>)"
| pumped:
    "rt_pump r \<Longrightarrow> cl_sendCh (rt_client r) = e # es \<Longrightarrow>
     client_step b ets r (r\<lparr>rt_client := (rt_client r)\<lparr>cl_sendCh := es\<rparr>, log_drained := log_drained r @ [(e, True)]\<rparr>)"
| pump_failed:
    "rt_pump r \<Longrightarrow> cl_sendCh (rt_client r) = e # es \<Longrightarrow>
     client_step b ets r (r\<lparr>rt_client := (rt_client r)\<lparr>cl_sendCh := es\<rparr>, log_drained := log_drained r @ [(e, False)], rt_pump := False\<rparr>)"
| stale_pump_took:
    "rt_stale_pumps r = Suc n \<Longrightarrow> cl_sendCh (rt_client r) = e # es \<Longrightarrow>
     client_step b ets r (r\<lparr>rt_client := (rt_client r)\<lparr>cl_sendCh := es\<rparr>, log_drained := log_drained r @ [(e, False)], rt_stale_pumps := n\<rparr>)"
| stale_pump_left:
    "rt_stale_pumps r = Suc n \<Longrightarrow> client_step b ets r (r\<lparr>rt_stale_pumps := n\<rparr>)"
| session_ended:
    "rt_phase r = Established \<Longrightarrow> session_error (rt_pump r) err \<Longrightarrow> client_step b ets r (end_session (Some err) r)"
| rotated:
    "rt_phase r = Ended err \<Longrightarrow> err_is err errTokenRotation \<Longrightarrow>
     client_step b ets r (r\<lparr>rt_delay := bo_InitialInterval (run_backoff b), rt_phase := Connecting\<rparr>)"
| backed_off:
    "rt_phase r = Ended err \<Longrightarrow> \<not> err_is err errTokenRotation \<Longrightarrow> 0 \<le> rnd \<Longrightarrow> rnd < 1 \<Longrightarrow>
     client_step b ets r (r\<lparr>rt_phase := Waiting (jitterDelay (rt_delay r) rnd)\<rparr>)"
| waited:
    "rt_phase r = Waiting d \<Longrightarrow>
     client_step b ets r (r\<lparr>rt_delay := nextDelay (rt_delay r) (run_backoff b), rt_phase := Connecting\<rparr>)"
| stopped:
    "\<not> up (rt_phase r) \<Longrightarrow> client_step b ets r (r\<lparr>rt_phase := Stopped\<rparr>)"

section \<open>Invariants of the client\<close>

lemma setConnected_simps [simp]:
  "cl_connected (setConnected v c) = v" "cl_sendCh (setConnected v c) = cl_sendCh c" "cl_events (setConnected v c) = cl_events c"
  "cl_seq (setConnected v c) = cl_seq c" "cl_callback (setConnected v c) = cl_callback c"
  by (simp_all add: setConnected_def Let_def)

lemma pong_length: "length (pong ets packed ping) \<le> 1" "e \<in> set (pong ets packed ping) \<Longrightarrow> ob_Sequence e = 0"
  by (auto simp: pong_def split: option.splits)

lemma foldr_enqueue_pong:
  "foldr enqueue (pong ets packed ping) c = c\<lparr>cl_sendCh := cl_sendCh c @ pong ets packed ping\<rparr>"
  by (simp add: pong_def enqueue_def split: option.split)

text \<open>A property of the initial state kept by every step holds in every reachable state.\<close>

lemma client_invariant:
  assumes "(client_step b ets)\<^sup>*\<^sup>* r0 r" and "I r0" and "\<And>r r'. client_step b ets r r' \<Longrightarrow> I r \<Longrightarrow> I r'"
  shows "I r"
  using assms by (induction rule: rtranclp_induct) auto

definition queues_bounded :: "'p runtime \<Rightarrow> bool" where
  "queues_bounded r \<longleftrightarrow> length (cl_sendCh (rt_client r)) \<le> sendCh_cap \<and> length (cl_events (rt_client r)) \<le> events_cap"

lemma queues_bounded_step: "client_step b ets r r' \<Longrightarrow> queues_bounded r \<Longrightarrow> queues_bounded r'"
  by (erule client_step.cases)
    (auto simp: queues_bounded_def stamp_def enqueue_def end_session_def add_pong_def Let_def foldr_enqueue_pong)

definition phase_inv :: "'p runtime \<Rightarrow> bool" where
  "phase_inv r \<longleftrightarrow>
     (cl_connected (rt_client r) \<longleftrightarrow> up (rt_phase r)) \<and> (rt_phase r \<noteq> Established \<longrightarrow> \<not> rt_pump r)
     \<and> (rt_phase r \<noteq> Established \<and> rt_phase r \<noteq> Greeting \<longrightarrow> rt_hand r = []) \<and> length (rt_hand r) \<le> 1"

lemma phase_inv_step: "client_step b ets r r' \<Longrightarrow> phase_inv r \<Longrightarrow> phase_inv r'"
  by (erule client_step.cases)
    (auto simp: phase_inv_def stamp_def enqueue_def end_session_def add_pong_def Let_def foldr_enqueue_pong resync_event_def)

definition notified_inv :: "'p ConnectClient \<Rightarrow> bool" where
  "notified_inv c \<longleftrightarrow>
     cl_callback c \<and> (\<exists>n. log_notified c = map even [0..<n] \<and> (cl_connected c \<longleftrightarrow> odd n))"

lemma notified_inv_frame [simp]:
  "notified_inv (c\<lparr>cl_sendCh := es\<rparr>) = notified_inv c" "notified_inv (c\<lparr>cl_events := evs\<rparr>) = notified_inv c"
  "notified_inv (c\<lparr>cl_seq := n\<rparr>) = notified_inv c"
  by (simp_all add: notified_inv_def)

lemma notified_inv_setConnected [simp]:
  assumes "notified_inv c"
  shows "notified_inv (setConnected v c)"
proof -
  from assms obtain n where n: "cl_callback c" "log_notified c = map even [0..<n]" "cl_connected c \<longleftrightarrow> odd n"
    by (auto simp: notified_inv_def)
  show ?thesis
  proof (cases "cl_connected c = v")
    case True
    with n show ?thesis unfolding notified_inv_def by (intro conjI exI [of _ n]) (simp_all add: setConnected_def Let_def)
  next
    case False
    with n show ?thesis unfolding notified_inv_def by (intro conjI exI [of _ "Suc n"]) (auto simp: setConnected_def Let_def)
  qed
qed

lemma notified_inv_step: "client_step b ets r r' \<Longrightarrow> notified_inv (rt_client r) \<Longrightarrow> notified_inv (rt_client r')"
  by (erule client_step.cases)
    (auto simp: stamp_def enqueue_def end_session_def add_pong_def Let_def foldr_enqueue_pong)

text \<open>The sequence numbers that callers of \<open>Send\<close> hold or have put on the queue.\<close>

definition issued :: "'p runtime \<Rightarrow> int multiset" where
  "issued r = image_mset ob_Sequence (mset (rt_blocked r) + mset (log_enqueued r))"

definition outbound_inv :: "'p runtime \<Rightarrow> bool" where
  "outbound_inv r \<longleftrightarrow>
     log_enqueued r = map fst (log_drained r) @ cl_sendCh (rt_client r) \<and> 0 \<le> cl_seq (rt_client r)
     \<and> (\<forall>n. n \<in># issued r \<longrightarrow> n \<le> cl_seq (rt_client r)) \<and> (\<forall>n. n \<noteq> 0 \<longrightarrow> count (issued r) n \<le> 1)"

lemma issued_stamp:
  assumes "outbound_inv r" and "stamp ev (rt_client r) = (e, c)"
  shows "outbound_inv (r\<lparr>rt_client := c, rt_blocked := rt_blocked r @ [e]\<rparr>)"
proof -
  from assms(2) have c: "c = (rt_client r)\<lparr>cl_seq := cl_seq (rt_client r) + 1\<rparr>" "ob_Sequence e = cl_seq (rt_client r) + 1"
    by (auto simp: stamp_def Let_def)
  have "cl_seq (rt_client r) + 1 \<notin># issued r" using assms(1) by (force simp: outbound_inv_def)
  then have "count (issued r) (cl_seq (rt_client r) + 1) = 0" by (simp add: count_eq_zero_iff)
  moreover have "issued (r\<lparr>rt_client := c, rt_blocked := rt_blocked r @ [e]\<rparr>) = add_mset (cl_seq (rt_client r) + 1) (issued r)"
    using c by (simp add: issued_def)
  ultimately show ?thesis using assms(1) c by (auto simp: outbound_inv_def)
qed

text \<open>A step that issues no new sequence number.\<close>

lemma outbound_inv_mono:
  assumes "outbound_inv r" and "issued r' \<subseteq># issued r + replicate_mset k 0"
    and "log_enqueued r' = map fst (log_drained r') @ cl_sendCh (rt_client r')" and "cl_seq (rt_client r') = cl_seq (rt_client r)"
  shows "outbound_inv r'"
proof -
  have c: "count (issued r') n \<le> count (issued r) n" if "n \<noteq> 0" for n
    using mset_subset_eq_count [OF assms(2), of n] that by simp
  have m: "n \<in># issued r \<or> n = 0" if "n \<in># issued r'" for n
    using mset_subset_eqD [OF assms(2) that] by (auto split: if_splits)
  show ?thesis
    unfolding outbound_inv_def
  proof (intro conjI allI impI)
    show "0 \<le> cl_seq (rt_client r')" using assms(1,4) by (simp add: outbound_inv_def)
    fix n
    show "n \<in># issued r' \<Longrightarrow> n \<le> cl_seq (rt_client r')" using m [of n] assms(1,4) by (auto simp: outbound_inv_def)
    assume "n \<noteq> 0"
    then have "count (issued r) n \<le> 1" using assms(1) by (simp add: outbound_inv_def)
    with c [OF \<open>n \<noteq> 0\<close>] show "count (issued r') n \<le> 1" by simp
  qed (rule assms(3))
qed

lemmas outbound_inv_same = outbound_inv_mono [where k = 0, simplified]

lemma outbound_inv_log: "outbound_inv r \<Longrightarrow> log_enqueued r = map fst (log_drained r) @ cl_sendCh (rt_client r)"
  by (simp add: outbound_inv_def)

lemma outbound_inv_pong:
  assumes "outbound_inv r"
  shows "outbound_inv (add_pong (pong ets packed ping) r)"
proof (rule outbound_inv_mono [OF assms, where k = 1])
  show "issued (add_pong (pong ets packed ping) r) \<subseteq># issued r + replicate_mset 1 0"
    by (auto simp: issued_def add_pong_def pong_def split: option.split)
qed (use outbound_inv_log [OF assms] in \<open>auto simp: add_pong_def foldr_enqueue_pong\<close>)

lemma outbound_inv_queued:
  assumes "outbound_inv r" and "rt_blocked r = xs @ e # ys"
  shows "outbound_inv (r\<lparr>rt_client := enqueue e (rt_client r), rt_blocked := xs @ ys, log_enqueued := log_enqueued r @ [e]\<rparr>)"
  by (rule outbound_inv_same [OF assms(1)])
    (use assms(2) outbound_inv_log [OF assms(1)] in \<open>simp_all add: issued_def enqueue_def\<close>)

lemma outbound_inv_step:
  assumes "client_step b ets r r'" and inv: "outbound_inv r"
  shows "outbound_inv r'"
  using assms(1)
proof cases
  case (call_Send ev e c)
  then show ?thesis using inv by (simp add: issued_stamp)
next
  case (Send_queued xs e ys)
  then show ?thesis using inv by (simp add: outbound_inv_queued)
next
  case (Send_cancelled xs e ys)
  then show ?thesis
    by (intro outbound_inv_same [OF inv]) (simp_all add: issued_def outbound_inv_log [OF inv])
next
  case (received_ping packed ping)
  then show ?thesis using inv by (simp add: outbound_inv_pong)
qed (rule outbound_inv_same [OF inv]; use outbound_inv_log [OF inv] in \<open>simp_all add: issued_def end_session_def\<close>)+

text \<open>Every event received is accounted for.\<close>

definition inbound_inv :: "'p runtime \<Rightarrow> bool" where
  "inbound_inv r \<longleftrightarrow>
     mset (log_received r) =
       mset (log_consumed r) + mset (cl_events (rt_client r)) + mset (rt_hand r) + mset (rt_stale r) + mset (log_dropped r)"

lemma inbound_inv_step:
  assumes "client_step b ets r r'" and "phase_inv r" and "inbound_inv r"
  shows "inbound_inv r'"
  using assms(1)
proof cases
  case (received_ping packed ping)
  then show ?thesis using assms(3) by (auto simp: inbound_inv_def add_pong_def foldr_enqueue_pong)
qed (use assms(2,3) in \<open>auto simp: inbound_inv_def phase_inv_def stamp_def enqueue_def end_session_def Let_def\<close>)

lemma client_reachable:
  assumes "(client_step b ets)\<^sup>*\<^sup>* (rt_init b c) r" and "\<not> cl_connected c" and "cl_sendCh c = []" and "cl_events c = []" and "cl_seq c = 0"
  shows "phase_inv r" "queues_bounded r" "outbound_inv r" "inbound_inv r"
proof -
  have "phase_inv (rt_init b c)" "queues_bounded (rt_init b c)" "outbound_inv (rt_init b c)" "inbound_inv (rt_init b c)"
    using assms(2-) by (simp_all add: phase_inv_def queues_bounded_def outbound_inv_def inbound_inv_def issued_def rt_init_def)
  with assms(1) have "phase_inv r \<and> queues_bounded r \<and> outbound_inv r \<and> inbound_inv r"
    by (elim client_invariant) (blast intro: phase_inv_step queues_bounded_step outbound_inv_step inbound_inv_step)+
  then show "phase_inv r" "queues_bounded r" "outbound_inv r" "inbound_inv r" by simp_all
qed

section \<open>Delays\<close>

definition max_delay :: "Backoff \<Rightarrow> int" where
  "max_delay b = (if bo_MaxInterval b \<le> 0 then bo_MaxInterval DefaultBackoff else bo_MaxInterval b)"

lemma nextDelay_alt:
  "nextDelay d b = min \<lfloor>of_int d * (if bo_Multiplier b \<le> 1 then 2 else bo_Multiplier b)\<rfloor> (max_delay b)"
  by (simp add: nextDelay_def max_delay_def Let_def min_def)

lemma nextDelay_ge:
  assumes "0 \<le> d" and "d \<le> max_delay b"
  shows "d \<le> nextDelay d b"
proof -
  let ?m = "if bo_Multiplier b \<le> 1 then 2 else bo_Multiplier b"
  have "of_int d * 1 \<le> of_int d * ?m" using assms(1) by (intro mult_left_mono) auto
  then have "d \<le> \<lfloor>of_int d * ?m\<rfloor>" by (simp add: le_floor_iff)
  with assms(2) show ?thesis by (simp add: nextDelay_alt)
qed

lemma jitterDelay_range:
  assumes "0 \<le> d" and "0 \<le> r" and "r < 1"
  shows "d - 1 \<le> 2 * jitterDelay d r" "jitterDelay d r \<le> d"
proof -
  have "of_int d * (1 / 2) \<le> of_int d * (1 / 2 + r * (1 / 2))" using assms by (intro mult_left_mono) auto
  moreover have "of_int d * (1 / 2 + r * (1 / 2)) \<le> of_int d * 1" using assms by (intro mult_left_mono) auto
  ultimately have b: "of_int d / 2 \<le> of_int d * (1 / 2 + r * (1 / 2))" "of_int d * (1 / 2 + r * (1 / 2)) \<le> of_int d" by simp_all
  from b(2) show "jitterDelay d r \<le> d" unfolding jitterDelay_def by (simp add: floor_le_iff)
  have "of_int d / 2 < of_int (jitterDelay d r) + (1 :: rat)"
    using b(1) floor_correct [of "of_int d * (1 / 2 + r * (1 / 2))"] unfolding jitterDelay_def by linarith
  then have "rat_of_int d < rat_of_int (2 * jitterDelay d r + 2)" by simp
  then have "d < 2 * jitterDelay d r + 2" by (simp only: of_int_less_iff [where 'a = rat])
  then show "d - 1 \<le> 2 * jitterDelay d r" by simp
qed

definition delay_inv :: "Backoff \<Rightarrow> 'p runtime \<Rightarrow> bool" where
  "delay_inv b r \<longleftrightarrow>
     bo_InitialInterval (run_backoff b) \<le> rt_delay r \<and> rt_delay r \<le> max_delay (run_backoff b)
     \<and> (\<forall>d. rt_phase r = Waiting d \<longrightarrow> rt_delay r - 1 \<le> 2 * d \<and> d \<le> rt_delay r)"

lemma run_backoff_pos: "0 < bo_InitialInterval (run_backoff b)"
  by (simp add: run_backoff_def DefaultBackoff_def seconds_def)

lemma delay_inv_step:
  assumes "client_step b ets r r'" and "bo_InitialInterval (run_backoff b) \<le> max_delay (run_backoff b)" and inv: "delay_inv b r"
  shows "delay_inv b r'"
  using assms(1)
proof cases
  case (received_ping packed ping)
  then show ?thesis using inv by (simp add: delay_inv_def add_pong_def)
next
  case (backed_off err rnd)
  have "0 \<le> rt_delay r" using inv run_backoff_pos [of b] by (simp add: delay_inv_def)
  with backed_off inv jitterDelay_range [of "rt_delay r" rnd] show ?thesis by (simp add: delay_inv_def)
next
  case (waited d)
  have "rt_delay r \<le> nextDelay (rt_delay r) (run_backoff b)"
    using inv run_backoff_pos [of b] by (intro nextDelay_ge) (auto simp: delay_inv_def)
  with waited inv show ?thesis by (simp add: delay_inv_def nextDelay_alt)
qed (use assms(2) inv in \<open>auto simp: delay_inv_def end_session_def\<close>)

lemma nextDelay_doubles:
  assumes "bo_Multiplier b = 2" and "0 \<le> d" and "d \<le> max_delay b"
  shows "((\<lambda>d. nextDelay d b) ^^ k) d = min (d * 2 ^ k) (max_delay b)"
proof (induction k)
  case 0
  then show ?case using assms by simp
next
  case (Suc k)
  have "\<lfloor>rat_of_int x * 2\<rfloor> = 2 * x" for x by (metis floor_of_int mult.commute of_int_mult of_int_numeral)
  then have "nextDelay x b = min (2 * x) (max_delay b)" for x using assms(1) by (simp add: nextDelay_alt)
  moreover have "0 \<le> d * 2 ^ k" using assms(2) by simp
  ultimately show ?case using Suc assms by (simp add: min_def)
qed

text \<open>
  One round of the loop of \<open>Run\<close> after a session, as the three steps above take it: the wait (\<open>None\<close> for none) and
  the next delay; \<open>r\<close> is the random number.
\<close>

definition stream_next :: "Backoff \<Rightarrow> int \<Rightarrow> go_err option \<Rightarrow> rat \<Rightarrow> int option \<times> int" where
  "stream_next b delay err r =
     (if err_is err errTokenRotation then (None, bo_InitialInterval (run_backoff b))
      else (Some (jitterDelay delay r), nextDelay delay (run_backoff b)))"

lemma stream_next_steps:
  assumes "rt_phase r = Ended err" and "0 \<le> rnd" and "rnd < 1"
  shows "(client_step b ets)\<^sup>*\<^sup>* r (r\<lparr>rt_delay := snd (stream_next b (rt_delay r) err rnd), rt_phase := Connecting\<rparr>)"
proof (cases "err_is err errTokenRotation")
  case True
  with assms(1) rotated [of r err b ets] show ?thesis by (auto simp: stream_next_def)
next
  case False
  let ?r = "r\<lparr>rt_phase := Waiting (jitterDelay (rt_delay r) rnd)\<rparr>"
  have "client_step b ets r ?r" using assms(1) False assms(2,3) by (rule backed_off)
  moreover have "client_step b ets ?r (?r\<lparr>rt_delay := nextDelay (rt_delay ?r) (run_backoff b), rt_phase := Connecting\<rparr>)"
    by (rule waited) simp
  ultimately show ?thesis using False by (simp add: stream_next_def converse_rtranclp_into_rtranclp r_into_rtranclp)
qed

section \<open>Tokens (token_oauth2.go)\<close>

record oauth2_token =
  tk_AccessToken :: string
  tk_Expiry :: "int option"

text \<open>\<open>reuse\<close> is \<open>oauth2.ReuseTokenSourceWithExpiry\<close>; its cache is part of the world.\<close>

definition TokenWithExpiry ::
  "(('w \<Rightarrow> oauth2_token res \<times> 'w) \<Rightarrow> int \<Rightarrow> 'w \<Rightarrow> oauth2_token res \<times> 'w) \<Rightarrow> ('w \<Rightarrow> oauth2_token res \<times> 'w) \<Rightarrow>
   'w \<Rightarrow> (string \<times> int option) res \<times> 'w"
where
  "TokenWithExpiry reuse fetch w =
     (case reuse fetch (seconds 45) w of
        (Inl err, w1) \<Rightarrow> (Inl err, w1)
      | (Inr tok, w1) \<Rightarrow> (Inr (tk_AccessToken tok, tk_Expiry tok), w1))"

text \<open>
  What is documented of it: a token it does not fetch anew expires later than the given margin
  from now, or never.
\<close>

definition reuse_laws ::
  "('w \<Rightarrow> int) \<Rightarrow> (('w \<Rightarrow> oauth2_token res \<times> 'w) \<Rightarrow> int \<Rightarrow> 'w \<Rightarrow> oauth2_token res \<times> 'w) \<Rightarrow> bool"
where
  "reuse_laws now reuse \<longleftrightarrow>
     (\<forall>fetch margin w tok w'. reuse fetch margin w = (Inr tok, w') \<longrightarrow>
        (\<exists>v v'. fetch v = (Inr tok, v')  \<and> now w \<le> now v) \<or> (\<forall>t. tk_Expiry tok = Some t \<longrightarrow> now w + margin < t))"

lemma rotate_after_margin:
  assumes "rotate_after now (Some t) = Some d"
  shows "0 \<le> d" "now < t \<Longrightarrow> 0 < d \<and> d \<le> t - now" "t - (now + d) \<le> seconds 30"
  using assms by (auto simp: rotate_after_def tdiv_def seconds_def Let_def min_def sgn_if split: if_splits)

definition wire :: "'p runtime \<Rightarrow> 'p outbound list" where
  "wire r = map fst (filter snd (log_drained r))"

lemma wire_subseq: "subseq (wire r) (map fst (log_drained r))"
  unfolding wire_def by (rule subseq_map) (rule subseq_filter_left)

lemma wire_issued:
  assumes "outbound_inv r"
  shows "mset (map ob_Sequence (wire r)) \<subseteq># issued r"
proof -
  have "mset (wire r) \<subseteq># mset (map fst (log_drained r))"
    by (simp add: wire_def mset_filter image_mset_subseteq_mono)
  then have "mset (wire r) \<subseteq># mset (log_enqueued r)"
    using outbound_inv_log [OF assms] by (simp add: mset_subset_eq_add_left subset_mset.order_trans)
  then show ?thesis
    unfolding issued_def by (simp add: image_mset_subseteq_mono subset_mset.add_increasing)
qed

section \<open>Properties\<close>

text \<open>
  The connection signal is truthful: in every reachable state the client counts as connected
  exactly from the accepted handshake to the end of the session, and the callback that gates the commands was called
  with true and false in alternation, ending with the current value.
\<close>

theorem connection_signalled:
  assumes "(client_step b ets)\<^sup>*\<^sup>* (rt_init b (SetOnConnectedChange NewConnectClient)) r"
  shows "(cl_connected (rt_client r) \<longleftrightarrow> up (rt_phase r))
    \<and> (\<exists>n. log_notified (rt_client r) = map even [0..<n] \<and> (cl_connected (rt_client r) \<longleftrightarrow> odd n))"
proof -
  have "notified_inv (rt_client (rt_init b (SetOnConnectedChange (NewConnectClient :: 'a ConnectClient))))"
    by (simp add: notified_inv_def rt_init_def SetOnConnectedChange_def NewConnectClient_def)
  with assms have "notified_inv (rt_client r)"
    by (rule client_invariant [where I = "\<lambda>r. notified_inv (rt_client r)"]) (rule notified_inv_step)
  moreover have "phase_inv r"
    using assms by (rule client_reachable) (simp_all add: SetOnConnectedChange_def NewConnectClient_def)
  ultimately show ?thesis by (simp add: phase_inv_def notified_inv_def)
qed

text \<open>
  C22. The outbound queue neither reorders nor duplicates: what reached the wire is a subsequence
  of what was queued, everything queued was taken from the queue in order or is still in it, the
  queue stays within its capacity, and no sequence number is sent twice.
\<close>

theorem outbound_queue_faithful:
  assumes "(client_step b ets)\<^sup>*\<^sup>* (rt_init b NewConnectClient) r"
  shows "subseq (wire r) (log_enqueued r)
    \<and> log_enqueued r = map fst (log_drained r) @ cl_sendCh (rt_client r)
    \<and> length (cl_sendCh (rt_client r)) \<le> 256
    \<and> (\<forall>n. n \<noteq> 0 \<longrightarrow> count (mset (map ob_Sequence (wire r))) n \<le> 1)"
proof -
  have inv: "outbound_inv r" "queues_bounded r"
    using assms by (auto intro: client_reachable simp: NewConnectClient_def)
  have "count (mset (map ob_Sequence (wire r))) n \<le> 1" if "n \<noteq> 0" for n
  proof -
    have "count (mset (map ob_Sequence (wire r))) n \<le> count (issued r) n"
      by (rule mset_subset_eq_count [OF wire_issued [OF inv(1)]])
    also have "\<dots> \<le> 1" using inv(1) that by (simp add: outbound_inv_def)
    finally show ?thesis .
  qed
  moreover have "subseq (wire r) (log_enqueued r)"
    using wire_subseq [of r] outbound_inv_log [OF inv(1)] by (simp add: subseq_rev_drop_many)
  ultimately show ?thesis
    using inv(2) outbound_inv_log [OF inv(1)] by (simp add: queues_bounded_def sendCh_cap_def)
qed

text \<open>
  No inbound event vanishes in a live session: every event received was consumed, waits in
  the bounded channel, is held by a receive loop, or was dropped by the loop of a session that
  had already ended.
\<close>

theorem inbound_events_conserved:
  assumes "(client_step b ets)\<^sup>*\<^sup>* (rt_init b NewConnectClient) r"
  shows "mset (log_received r) =
      mset (log_consumed r) + mset (cl_events (rt_client r)) + mset (rt_hand r) + mset (rt_stale r) + mset (log_dropped r)
    \<and> length (cl_events (rt_client r)) \<le> 64 \<and> length (rt_hand r) \<le> 1"
proof -
  have "inbound_inv r" "queues_bounded r" "phase_inv r"
    using assms by (auto intro: client_reachable simp: NewConnectClient_def)
  then show ?thesis by (simp add: inbound_inv_def queues_bounded_def phase_inv_def events_cap_def)
qed

text \<open>
  Reconnects are paced: in every reachable state the delay lies between the initial and the
  maximal interval and a wait between half of the delay and the delay; with the default policy
  the delay after \<open>k\<close> failed sessions in a row is \<open>2 ^ k\<close> seconds, at most five minutes.
\<close>

theorem reconnect_delay_bounded:
  assumes "(client_step b ets)\<^sup>*\<^sup>* (rt_init b c) r" and "bo_InitialInterval (run_backoff b) \<le> max_delay (run_backoff b)"
  shows "bo_InitialInterval (run_backoff b) \<le> rt_delay r \<and> rt_delay r \<le> max_delay (run_backoff b)
    \<and> (\<forall>d. rt_phase r = Waiting d \<longrightarrow> rt_delay r - 1 \<le> 2 * d \<and> d \<le> rt_delay r)
    \<and> ((\<lambda>d. nextDelay d DefaultBackoff) ^^ k) (bo_InitialInterval DefaultBackoff) = min (seconds (2 ^ k)) (seconds 300)"
proof -
  have "delay_inv b (rt_init b c)" using assms(2) by (simp add: delay_inv_def rt_init_def)
  with assms(1) have "delay_inv b r"
    by (rule client_invariant) (blast intro: delay_inv_step assms(2))
  moreover have "((\<lambda>d. nextDelay d DefaultBackoff) ^^ k) (bo_InitialInterval DefaultBackoff) = min (seconds (2 ^ k)) (seconds 300)"
    by (subst nextDelay_doubles) (simp_all add: DefaultBackoff_def max_delay_def seconds_def min_def)
  ultimately show ?thesis by (simp add: delay_inv_def)
qed

text \<open>
  C24. A rotated session gets a fresh token: a session is rotated no later than its token
  expires, at most thirty seconds before, and the token source does not hand out the same token
  again from then on, since it requires forty-five seconds of remaining life.
\<close>

theorem rotation_gets_fresh_token:
  assumes "reuse_laws now reuse" and "rotate_after (now w) (Some t) = Some d" and "now w + d \<le> now v"
    and "TokenWithExpiry reuse fetch v = (Inr (tok, Some t'), v')" and "t' \<le> t"
  shows "(now w < t \<longrightarrow> 0 < d \<and> now w + d \<le> t) \<and> t - (now w + d) \<le> seconds 30
    \<and> (\<exists>u u'. fetch u = (Inr \<lparr>tk_AccessToken = tok, tk_Expiry = Some t'\<rparr>, u') \<and> now v \<le> now u)"
proof -
  have m: "now w < t \<Longrightarrow> 0 < d \<and> d \<le> t - now w" "t - (now w + d) \<le> seconds 30"
    using rotate_after_margin [OF assms(2)] by auto
  obtain tk where tk: "reuse fetch (seconds 45) v = (Inr tk, v')" "tk_AccessToken tk = tok" "tk_Expiry tk = Some t'"
    using assms(4) by (auto simp: TokenWithExpiry_def split: prod.splits sum.splits)
  then have eq: "tk = \<lparr>tk_AccessToken = tok, tk_Expiry = Some t'\<rparr>" by (cases tk) simp
  have "\<not> now v + seconds 45 < t'" using m(2) assms(3,5) by (simp add: seconds_def)
  with assms(1) tk have "\<exists>u u'. fetch u = (Inr tk, u') \<and> now v \<le> now u"
    unfolding reuse_laws_def by blast
  with m eq show ?thesis by auto
qed

text \<open>
  Failures are classified by where they happened: whatever error opening a session gives is
  reported as a handshake error or as a shutdown, unless it is the error of the connect call
  itself, which is passed on bare; and of the errors that end an established session, only
  a receive error whose chain says otherwise can be reported under another cause.
\<close>

theorem session_failure_classified:
  "(open_session G c w = (Inl err, w') \<longrightarrow>
      sessionCause (Some err) = (if Canceled \<in> set (err_chain err) then ''shutdown'' else ''handshake_error'')
      \<or> (\<exists>tok expiry w1. token (cc_Token c) w = (Inr (tok, expiry), w1) \<and> gw_Connect G (cc_Address c) (''Bearer '' @ tok) w1 = (Some err, w')))
   \<and> sessionCause (Some errDeadman) = ''deadman'' \<and> sessionCause (Some errTokenRotation) = ''token_rotation''
   \<and> sessionCause (Some errSendPump) = ''send_error'' \<and> sessionCause (Some Canceled) = ''shutdown''
   \<and> sessionCause (Some (Wrapf ''stream: receive: %w'' [] EOF)) = ''recv_error''"
proof (intro conjI impI)
  assume "open_session G c w = (Inl err, w')"
  then have "(\<exists>e. err = HandshakeError e)
      \<or> (\<exists>tok expiry w1. token (cc_Token c) w = (Inr (tok, expiry), w1) \<and> gw_Connect G (cc_Address c) (''Bearer '' @ tok) w1 = (Some err, w'))"
    unfolding open_session_def by (auto split: prod.splits sum.splits option.splits)
  then show "sessionCause (Some err) = (if Canceled \<in> set (err_chain err) then ''shutdown'' else ''handshake_error'')
      \<or> (\<exists>tok expiry w1. token (cc_Token c) w = (Inr (tok, expiry), w1) \<and> gw_Connect G (cc_Address c) (''Bearer '' @ tok) w1 = (Some err, w'))"
    by (auto simp: sessionCause_def err_is_def is_handshake_def)
qed (simp_all add: sessionCause_def err_is_def is_handshake_def errDeadman_def errTokenRotation_def errSendPump_def)

text \<open>
  The wire order need not follow the sequence numbers: \<open>Send\<close> takes a number before it waits
  for the queue, so two callers can put their events on the wire in the opposite order, and a
  caller that gives up leaves a number that no event carries.
\<close>

theorem sequence_order_lost:
  "\<exists>r. (client_step b ets)\<^sup>*\<^sup>* (rt_init b NewConnectClient) r
     \<and> map ob_Sequence (wire r) = [2, 1] \<and> map ob_Event (wire r) = [ev2, ev1] \<and> cl_seq (rt_client r) = 3 \<and> rt_blocked r = []"
proof -
  let ?e = "\<lambda>ev n. \<lparr>ob_Event = ev, ob_Sequence = n\<rparr>" and ?R = "client_step b ets"
  define r0 :: "'a runtime" where "r0 = rt_init b NewConnectClient"
  define r1 where "r1 = r0\<lparr>rt_client := (rt_client r0)\<lparr>cl_seq := 1\<rparr>, rt_blocked := [?e ev1 1]\<rparr>"
  define r2 where "r2 = r1\<lparr>rt_client := (rt_client r1)\<lparr>cl_seq := 2\<rparr>, rt_blocked := [?e ev1 1, ?e ev2 2]\<rparr>"
  define r3 where "r3 = r2\<lparr>rt_client := (rt_client r2)\<lparr>cl_seq := 3\<rparr>, rt_blocked := [?e ev1 1, ?e ev2 2, ?e ev2 3]\<rparr>"
  define r4 where "r4 = r3\<lparr>rt_client := enqueue (?e ev2 2) (rt_client r3), rt_blocked := [?e ev1 1, ?e ev2 3], log_enqueued := [?e ev2 2]\<rparr>"
  define r5 where "r5 = r4\<lparr>rt_client := enqueue (?e ev1 1) (rt_client r4), rt_blocked := [?e ev2 3], log_enqueued := [?e ev2 2, ?e ev1 1]\<rparr>"
  define r6 where "r6 = r5\<lparr>rt_blocked := []\<rparr>"
  define hr where "hr = \<lparr>hr_SessionId = [], hr_ResyncRequired = False, hr_DesiredAgentVersion = []\<rparr>"
  define ra where "ra = r6\<lparr>rt_client := setConnected True (rt_client r6), rt_phase := Notifying hr\<rparr>"
  define rb where "rb = ra\<lparr>rt_phase := Greeting, rt_hand := resync_event ets hr, log_received := log_received ra @ resync_event ets hr\<rparr>"
  define r7 where "r7 = rb\<lparr>rt_phase := Established, rt_pump := True\<rparr>"
  define r8 where "r8 = r7\<lparr>rt_client := (rt_client r7)\<lparr>cl_sendCh := [?e ev1 1]\<rparr>, log_drained := [(?e ev2 2, True)]\<rparr>"
  define r9 where "r9 = r8\<lparr>rt_client := (rt_client r8)\<lparr>cl_sendCh := []\<rparr>, log_drained := [(?e ev2 2, True), (?e ev1 1, True)]\<rparr>"
  note defs = r0_def r1_def r2_def r3_def r4_def r5_def r6_def ra_def rb_def r7_def r8_def r9_def rt_init_def NewConnectClient_def enqueue_def
    sendCh_cap_def
  have "?R r0 r1" using call_Send [of ev1 r0 "?e ev1 1" "(rt_client r0)\<lparr>cl_seq := 1\<rparr>" b ets] by (simp add: defs stamp_def)
  moreover have "?R r1 r2" using call_Send [of ev2 r1 "?e ev2 2" "(rt_client r1)\<lparr>cl_seq := 2\<rparr>" b ets] by (simp add: defs stamp_def)
  moreover have "?R r2 r3" using call_Send [of ev2 r2 "?e ev2 3" "(rt_client r2)\<lparr>cl_seq := 3\<rparr>" b ets] by (simp add: defs stamp_def)
  moreover have "?R r3 r4" using Send_queued [of r3 "[?e ev1 1]" "?e ev2 2" "[?e ev2 3]" b ets] by (simp add: defs)
  moreover have "?R r4 r5" using Send_queued [of r4 "[]" "?e ev1 1" "[?e ev2 3]" b ets] by (simp add: defs)
  moreover have "?R r5 r6" using Send_cancelled [of r5 "[]" "?e ev2 3" "[]" b ets] by (simp add: defs)
  moreover have "?R r6 ra" unfolding ra_def by (rule accepted) (simp add: defs)
  moreover have "?R ra rb" unfolding rb_def by (rule announced) (simp add: defs)
  moreover have "?R rb r7" unfolding r7_def by (rule started) (simp_all add: rb_def resync_event_def hr_def)
  moreover have "?R r7 r8" using pumped [of r7 "?e ev2 2" "[?e ev1 1]" b ets] by (simp add: defs)
  moreover have "?R r8 r9" using pumped [of r8 "?e ev1 1" "[]" b ets] by (simp add: defs)
  ultimately have "?R\<^sup>*\<^sup>* r0 r9" by (meson converse_rtranclp_into_rtranclp rtranclp.rtrancl_refl)
  then show ?thesis unfolding r0_def by (intro exI [of _ r9]) (simp add: defs wire_def)
qed

section \<open>Witnesses\<close>

definition sample_hr :: HandshakeResponse where
  "sample_hr = \<lparr>hr_SessionId = ''s1'', hr_ResyncRequired = True, hr_DesiredAgentVersion = []\<rparr>"

definition sample_ev :: "unit Event" where
  "sample_ev = \<lparr>ev_EventId = ''e1'', ev_ResourceId = [], ev_Type = ''t'', ev_Payload = None\<rparr>"

text \<open>A session that asks for a resync, one event sent in it.\<close>

definition sample_resync :: "unit Event list" where
  "sample_resync = resync_event (\<lambda>t. ''x'') sample_hr"

definition sample_r1 :: "unit ConnectClient \<Rightarrow> unit runtime" where
  "sample_r1 c = (rt_init DefaultBackoff c)\<lparr>rt_client := (setConnected True c)\<lparr>cl_events := sample_resync\<rparr>,
     rt_phase := Established, rt_pump := True, log_received := sample_resync\<rparr>"

definition sample_r4 :: "unit ConnectClient \<Rightarrow> unit runtime" where
  "sample_r4 c = (sample_r1 c)\<lparr>rt_client := (rt_client (sample_r1 c))\<lparr>cl_seq := cl_seq c + 1, cl_sendCh := []\<rparr>,
     log_enqueued := [\<lparr>ob_Event = sample_ev, ob_Sequence = cl_seq c + 1\<rparr>],
     log_drained := [(\<lparr>ob_Event = sample_ev, ob_Sequence = cl_seq c + 1\<rparr>, True)]\<rparr>"

lemma sample_session:
  assumes "cl_events c = []"
  shows "(client_step DefaultBackoff (\<lambda>t. ''x''))\<^sup>*\<^sup>* (rt_init DefaultBackoff c) (sample_r1 c)"
proof -
  let ?R = "client_step DefaultBackoff (\<lambda>t. ''x'') :: unit runtime \<Rightarrow> unit runtime \<Rightarrow> bool"
  define ra where "ra = (rt_init DefaultBackoff c)\<lparr>rt_client := setConnected True c, rt_phase := Notifying sample_hr\<rparr>"
  define rb where "rb = ra\<lparr>rt_phase := Greeting, rt_hand := sample_resync, log_received := sample_resync\<rparr>"
  define rc where "rc = rb\<lparr>rt_client := (rt_client rb)\<lparr>cl_events := sample_resync\<rparr>, rt_hand := []\<rparr>"
  note defs = ra_def rb_def rc_def rt_init_def sample_r1_def sample_resync_def resync_event_def sample_hr_def
  have "?R (rt_init DefaultBackoff c) ra"
    using accepted [of "rt_init DefaultBackoff c" DefaultBackoff "\<lambda>t. ''x''" sample_hr] by (simp add: defs)
  moreover have "?R ra rb" using announced [of ra sample_hr DefaultBackoff "\<lambda>t. ''x''"] by (simp add: defs)
  moreover have "?R rb rc"
    using delivered [of rb "hd sample_resync" DefaultBackoff "\<lambda>t. ''x''"] assms by (simp add: defs events_cap_def)
  moreover have "?R rc (sample_r1 c)" using started [of rc DefaultBackoff "\<lambda>t. ''x''"] by (simp add: defs)
  ultimately show ?thesis by (meson converse_rtranclp_into_rtranclp rtranclp.rtrancl_refl)
qed

lemma sample_run:
  assumes "cl_sendCh c = []" and "cl_events c = []"
  shows "(client_step DefaultBackoff (\<lambda>t. ''x''))\<^sup>*\<^sup>* (rt_init DefaultBackoff c) (sample_r4 c)"
proof -
  let ?e = "\<lparr>ob_Event = sample_ev, ob_Sequence = cl_seq c + 1\<rparr>"
    and ?R = "client_step DefaultBackoff (\<lambda>t. ''x'') :: unit runtime \<Rightarrow> unit runtime \<Rightarrow> bool"
  define r2 where "r2 = (sample_r1 c)\<lparr>rt_client := (rt_client (sample_r1 c))\<lparr>cl_seq := cl_seq c + 1\<rparr>, rt_blocked := [?e]\<rparr>"
  define r3 where "r3 = r2\<lparr>rt_client := enqueue ?e (rt_client r2), rt_blocked := [], log_enqueued := [?e]\<rparr>"
  note sample_session [OF assms(2)]
  moreover have "?R (sample_r1 c) r2"
    using call_Send [of sample_ev "sample_r1 c" ?e "(rt_client (sample_r1 c))\<lparr>cl_seq := cl_seq c + 1\<rparr>" DefaultBackoff "\<lambda>t. ''x''"]
    by (simp add: r2_def sample_r1_def stamp_def rt_init_def Let_def)
  moreover have "?R r2 r3"
    using Send_queued [of r2 "[]" ?e "[]" DefaultBackoff "\<lambda>t. ''x''"] assms
    by (simp add: r3_def r2_def sample_r1_def rt_init_def sendCh_cap_def)
  moreover have "?R r3 (sample_r4 c)"
    using pumped [of r3 ?e "[]" DefaultBackoff "\<lambda>t. ''x''"] assms
    by (simp add: r3_def r2_def sample_r1_def sample_r4_def rt_init_def enqueue_def)
  ultimately show ?thesis by (meson rtranclp.rtrancl_into_rtrancl)
qed

theorem connection_signalled_witness:
  "\<exists>n. log_notified (rt_client (sample_r4 (SetOnConnectedChange NewConnectClient))) = map even [0..<n] \<and> odd n"
  using connection_signalled [OF sample_run [of "SetOnConnectedChange NewConnectClient"]]
  by (simp add: SetOnConnectedChange_def NewConnectClient_def sample_r4_def sample_r1_def)

theorem outbound_queue_faithful_witness:
  "subseq (wire (sample_r4 NewConnectClient)) (log_enqueued (sample_r4 NewConnectClient))
   \<and> map ob_Sequence (wire (sample_r4 NewConnectClient)) = [1]"
  using outbound_queue_faithful [OF sample_run [of NewConnectClient]]
  by (simp add: NewConnectClient_def sample_r4_def sample_r1_def wire_def)

theorem inbound_events_conserved_witness:
  "mset (log_received (sample_r4 NewConnectClient)) = mset (cl_events (rt_client (sample_r4 NewConnectClient)))
   \<and> length (cl_events (rt_client (sample_r4 NewConnectClient))) = 1"
  using inbound_events_conserved [OF sample_run [of NewConnectClient]]
  by (simp add: NewConnectClient_def sample_r4_def sample_r1_def rt_init_def sample_resync_def resync_event_def sample_hr_def)

theorem reconnect_delay_bounded_witness:
  "rt_delay (sample_r4 NewConnectClient) = seconds 1
   \<and> ((\<lambda>d. nextDelay d DefaultBackoff) ^^ 9) (bo_InitialInterval DefaultBackoff) = seconds 300"
  using reconnect_delay_bounded [OF sample_run [of NewConnectClient], of 9]
  by (simp add: NewConnectClient_def sample_r4_def sample_r1_def rt_init_def run_backoff_def DefaultBackoff_def max_delay_def seconds_def)

theorem rotation_gets_fresh_token_witness:
  "let fetch = (\<lambda>w :: int. (Inr \<lparr>tk_AccessToken = ''tok'', tk_Expiry = Some (seconds 300)\<rparr> :: oauth2_token res, w))
   in rotate_after 0 (Some (seconds 300)) = Some (seconds 270)
    \<and> (\<exists>u u'. fetch u = (Inr \<lparr>tk_AccessToken = ''tok'', tk_Expiry = Some (seconds 300)\<rparr>, u') \<and> seconds 270 \<le> u)"
proof -
  let ?fetch = "\<lambda>w :: int. (Inr \<lparr>tk_AccessToken = ''tok'', tk_Expiry = Some (seconds 300)\<rparr> :: oauth2_token res, w)"
  have "rotate_after 0 (Some (seconds 300)) = Some (seconds 270)"
    by (simp add: rotate_after_def tdiv_def seconds_def)
  moreover have "reuse_laws (\<lambda>w. w) (\<lambda>fetch m w. fetch w)" by (auto simp: reuse_laws_def)
  moreover have "TokenWithExpiry (\<lambda>fetch m w. fetch w) ?fetch (seconds 270) = (Inr (''tok'', Some (seconds 300)), seconds 270)"
    by (simp add: TokenWithExpiry_def)
  ultimately show ?thesis
    using rotation_gets_fresh_token [of "\<lambda>w. w" "\<lambda>fetch m w. fetch w" 0 "seconds 300" "seconds 270" "seconds 270" ?fetch
        "''tok''" "seconds 300" "seconds 270"]
    by (simp add: Let_def seconds_def)
qed

theorem session_failure_classified_witness:
  "\<exists>err. open_session
      \<lparr>gw_Connect = (\<lambda>a h w. (None, w)), gw_Send = (\<lambda>e w. (None, w)), gw_Receive = (\<lambda>w. (Inr None, w)), gw_packHandshake = (\<lambda>q. Inr ()),
       gw_isHandshake = (\<lambda>p. True), gw_decHandshake = (\<lambda>p. Inr sample_hr), gw_now = (\<lambda>w. 0)\<rparr>
      \<lparr>cc_Address = ''https://gw'', cc_AgentVersion = ''v1'', cc_TenantID = ''t'', cc_Token = PlainToken (\<lambda>w. (Inr ''tok'', w)), cc_Checksum = None\<rparr> ()
      = (Inl err, ()) \<and> sessionCause (Some err) = ''handshake_error''"
proof -
  let ?G = "\<lparr>gw_Connect = (\<lambda>a h w. (None, w)), gw_Send = (\<lambda>e w. (None, w)), gw_Receive = (\<lambda>w. (Inr None, w)), gw_packHandshake = (\<lambda>q. Inr ()),
       gw_isHandshake = (\<lambda>p. True), gw_decHandshake = (\<lambda>p. Inr sample_hr), gw_now = (\<lambda>w. 0)\<rparr> :: (unit, unit) Gateway"
  let ?c = "\<lparr>cc_Address = ''https://gw'', cc_AgentVersion = ''v1'', cc_TenantID = ''t'', cc_Token = PlainToken (\<lambda>w. (Inr ''tok'', w)), cc_Checksum = None\<rparr>"
  let ?err = "HandshakeError (Errorf ''stream: expected handshake response as first server message'' [])"
  have "open_session ?G ?c () = (Inl ?err, ())" by (simp add: open_session_def token_def)
  then show ?thesis
    using session_failure_classified [of ?G ?c "()" ?err "()"] by (simp add: token_def)
qed

end
