(* ===== verification/Registration.thy ===== *)
theory Registration
  imports Command_Journal
begin

text \<open>
  Cluster registration: the exchange of the one-time bootstrap token for the cluster's identity
  (\<open>internal/registration\<close>), and how the agent keeps that identity over a restart (the first half
  of \<open>Start\<close> in \<open>internal/controller/agent_controller.go\<close>).

  The registration RPC, the Kubernetes API and \<open>wait.PollUntilContextTimeout\<close> are parameters.
  \<open>kube ns\<close> are the ConfigMap calls in namespace \<open>ns\<close>; a nil clientset is \<open>None\<close>.
\<close>

section \<open>Credentials (registrar.go)\<close>

definition ContractVersion :: string where
  "ContractVersion = ''inari.agent.v1''"

record SecretReference =
  sr_Store :: string
  sr_Name :: string
  sr_Namespace :: string
  sr_Key :: string

text \<open>\<open>cr_ExpiresHint\<close> is \<open>None\<close> for the zero time.\<close>

record Credentials =
  cr_TenantID :: string
  cr_ClusterID :: string
  cr_ClientID :: string
  cr_TokenURL :: string
  cr_ControlPlane :: string
  cr_SecretRef :: SecretReference
  cr_ExpiresHint :: "int option"
  cr_BaselineRepo :: string

section \<open>The exchange (registrar_connect.go)\<close>

record RegisterClusterRequest =
  rq_RegistrationToken :: string
  rq_AgentVersion :: string
  rq_ContractVersion :: string
  rq_ClusterLabels :: "string \<Rightarrow> string option"
  rq_KubernetesVersion :: string

record SecretDeliveryReference =
  sdr_EsoSecretStore :: string
  sdr_SecretName :: string
  sdr_SecretNamespace :: string
  sdr_SecretKey :: string

record RegisterClusterResponse =
  rs_ClusterId :: string
  rs_ClientId :: string
  rs_OidcIssuerUrl :: string
  rs_ClientSecretDelivery :: "SecretDeliveryReference option"
  rs_CredentialsExpireHint :: "int option"
  rs_BaselineRepo :: string

record 'w ConnectRegistrar =
  rg_Client :: "RegisterClusterRequest \<Rightarrow> 'w \<Rightarrow> RegisterClusterResponse res \<times> 'w"
  rg_AgentVersion :: string
  rg_TenantID :: string
  rg_ControlPlane :: string
  rg_ClusterLabels :: "string \<Rightarrow> string option"
  rg_KubernetesVersion :: string

text \<open>The getters of a delivery reference return the empty string on nil.\<close>

definition secret_ref_of :: "SecretDeliveryReference option \<Rightarrow> SecretReference" where
  "secret_ref_of delivery =
     (case delivery of
        None \<Rightarrow> \<lparr>sr_Store = [], sr_Name = [], sr_Namespace = [], sr_Key = []\<rparr>
      | Some d \<Rightarrow> \<lparr>sr_Store = sdr_EsoSecretStore d, sr_Name = sdr_SecretName d, sr_Namespace = sdr_SecretNamespace d,
                  sr_Key = sdr_SecretKey d\<rparr>)"

definition registrar_Register :: "'w ConnectRegistrar \<Rightarrow> string \<Rightarrow> 'w \<Rightarrow> Credentials res \<times> 'w" where
  "registrar_Register r bootstrapToken w =
     (if bootstrapToken = [] then (Inl (Errorf ''registration: bootstrap token is empty'' []), w)
      else case rg_Client r \<lparr>rq_RegistrationToken = bootstrapToken, rq_AgentVersion = rg_AgentVersion r,
                             rq_ContractVersion = ContractVersion, rq_ClusterLabels = rg_ClusterLabels r,
                             rq_KubernetesVersion = rg_KubernetesVersion r\<rparr> w of
        (Inl err, w1) \<Rightarrow> (Inl (Wrapf ''registration: exchange bootstrap token: %w'' [] err), w1)
      | (Inr msg, w1) \<Rightarrow>
          if rs_ClusterId msg = [] \<or> rs_ClientId msg = [] \<or> rs_OidcIssuerUrl msg = [] then
            (Inl (Errorf ''registration: incomplete response from control plane'' []), w1)
          else
            (Inr \<lparr>cr_TenantID = rg_TenantID r, cr_ClusterID = rs_ClusterId msg, cr_ClientID = rs_ClientId msg,
                  cr_TokenURL = TrimSuffix (rs_OidcIssuerUrl msg) ''/'' @ ''/protocol/openid-connect/token'',
                  cr_ControlPlane = rg_ControlPlane r, cr_SecretRef = secret_ref_of (rs_ClientSecretDelivery msg),
                  cr_ExpiresHint = rs_CredentialsExpireHint msg, cr_BaselineRepo = rs_BaselineRepo msg\<rparr>, w1))"

section \<open>The client secret (store.go)\<close>

text \<open>
  \<open>secrets ns n\<close> reads a Secret; \<open>poll interval timeout immediate cond\<close> is the polling loop. The
  variable the condition assigns is the second component of the state it runs on.
\<close>

record 'w KubeSecretReader =
  ksr_Client :: "string \<Rightarrow> string \<Rightarrow> 'w \<Rightarrow> (string \<Rightarrow> string option) res \<times> 'w"
  ksr_PollInterval :: int
  ksr_PollTimeout :: int

type_synonym 'w poller =
  "int \<Rightarrow> int \<Rightarrow> bool \<Rightarrow> ('w \<times> string \<Rightarrow> bool res \<times> ('w \<times> string)) \<Rightarrow> 'w \<times> string \<Rightarrow> go_err option \<times> ('w \<times> string)"

definition secret_ready ::
  "'w KubeSecretReader \<Rightarrow> SecretReference \<Rightarrow> 'w \<times> string \<Rightarrow> bool res \<times> ('w \<times> string)" where
  "secret_ready r ref = (\<lambda>(w, value).
     (case ksr_Client r (sr_Namespace ref) (sr_Name ref) w of
        (Inl err, w1) \<Rightarrow> if IsNotFound err then (Inr False, (w1, value)) else (Inl err, (w1, value))
      | (Inr secret, w1) \<Rightarrow>
          (case secret (sr_Key ref) of
             None \<Rightarrow> (Inl (Errorf ''registration: secret %s/%s has no key %q''
                        [AStr (sr_Namespace ref), AStr (sr_Name ref), AStr (sr_Key ref)]), (w1, value))
           | Some raw \<Rightarrow>
               if length raw = 0 then
                 (Inl (Errorf ''registration: secret %s/%s has no key %q''
                        [AStr (sr_Namespace ref), AStr (sr_Name ref), AStr (sr_Key ref)]), (w1, value))
               else (Inr True, (w1, raw)))))"

definition ReadSecret :: "'w poller \<Rightarrow> 'w KubeSecretReader \<Rightarrow> SecretReference \<Rightarrow> 'w \<Rightarrow> string res \<times> 'w" where
  "ReadSecret poll r ref w =
     (if sr_Name ref = [] \<or> sr_Namespace ref = [] \<or> sr_Key ref = [] then
        (Inl (Errorf ''registration: incomplete secret reference %+v''
                [AStr (sr_Store ref), AStr (sr_Name ref), AStr (sr_Namespace ref), AStr (sr_Key ref)]), w)
      else
        let interval = (if ksr_PollInterval r \<le> 0 then 2 * 1000000000 else ksr_PollInterval r);
            timeout = (if ksr_PollTimeout r \<le> 0 then 2 * 60 * 1000000000 else ksr_PollTimeout r)
        in case poll interval timeout True (secret_ready r ref) (w, []) of
             (Some err, (w1, _)) \<Rightarrow>
               (Inl (Wrapf ''registration: wait for ESO secret %s/%s: %w'' [AStr (sr_Namespace ref), AStr (sr_Name ref)] err), w1)
           | (None, (w1, value)) \<Rightarrow> (Inr value, w1))"

text \<open>
  The documented contract of the polling loop: it ends without an error only after the condition
  held, and with an error only when the condition failed or the deadline passed.
\<close>

definition poll_laws :: "'w poller \<Rightarrow> bool" where
  "poll_laws poll \<longleftrightarrow>
     (\<forall>i t b cond s s'. poll i t b cond s = (None, s') \<longrightarrow> (\<exists>s1. cond s1 = (Inr True, s'))) \<and>
     (\<forall>i t b cond s e s'. poll i t b cond s = (Some e, s') \<longrightarrow>
        (\<exists>s1. cond s1 = (Inl e, s')) \<or> e = DeadlineExceeded \<or> e = Canceled)"

section \<open>Persisted registration (agent_controller.go)\<close>

definition registrationConfigMap :: string where
  "registrationConfigMap = ''inari-agent-registration''"

definition defaultSystemNamespace :: string where
  "defaultSystemNamespace = ''inari-system''"

text \<open>What of the reconciler the registration changes, and the namespace override.\<close>

record AgentReconciler =
  ar_BootstrapToken :: string
  ar_SystemNamespace :: string
  ar_tokenForgotten :: bool

definition TokenForgotten :: "AgentReconciler \<Rightarrow> bool" where
  "TokenForgotten r = ar_tokenForgotten r"

definition hasBootstrapToken :: "AgentReconciler \<Rightarrow> bool" where
  "hasBootstrapToken r \<longleftrightarrow> ar_BootstrapToken r \<noteq> []"

text \<open>\<open>podNamespace\<close> is the value of \<open>POD_NAMESPACE\<close>, empty when it is not set.\<close>

definition systemNamespace :: "string \<Rightarrow> AgentReconciler \<Rightarrow> string" where
  "systemNamespace podNamespace r =
     (if ar_SystemNamespace r \<noteq> [] then ar_SystemNamespace r
      else if podNamespace \<noteq> [] then podNamespace else defaultSystemNamespace)"

text \<open>Indexing a Go map of strings: the empty string for a missing key.\<close>

definition data_get :: "(string, string) fmap \<Rightarrow> string \<Rightarrow> string" where
  "data_get d k = (case fmlookup d k of None \<Rightarrow> [] | Some v \<Rightarrow> v)"

definition creds_of_data :: "(string, string) fmap \<Rightarrow> Credentials" where
  "creds_of_data d =
     \<lparr>cr_TenantID = data_get d ''tenant-id'', cr_ClusterID = data_get d ''cluster-id'', cr_ClientID = data_get d ''client-id'',
      cr_TokenURL = data_get d ''token-url'', cr_ControlPlane = data_get d ''control-plane'',
      cr_SecretRef = \<lparr>sr_Store = data_get d ''secret-store'', sr_Name = data_get d ''secret-name'',
                      sr_Namespace = data_get d ''secret-namespace'', sr_Key = data_get d ''secret-key''\<rparr>,
      cr_ExpiresHint = None, cr_BaselineRepo = data_get d ''baseline-repo''\<rparr>"

definition data_of_creds :: "Credentials \<Rightarrow> (string, string) fmap" where
  "data_of_creds c =
     fmap_of_list
       [(''tenant-id'', cr_TenantID c), (''cluster-id'', cr_ClusterID c), (''client-id'', cr_ClientID c),
        (''token-url'', cr_TokenURL c), (''control-plane'', cr_ControlPlane c), (''secret-store'', sr_Store (cr_SecretRef c)),
        (''secret-name'', sr_Name (cr_SecretRef c)), (''secret-namespace'', sr_Namespace (cr_SecretRef c)),
        (''secret-key'', sr_Key (cr_SecretRef c)), (''baseline-repo'', cr_BaselineRepo c)]"

definition loadPersistedCredentials ::
  "(string \<Rightarrow> 'w ConfigMaps) option \<Rightarrow> string \<Rightarrow> AgentReconciler \<Rightarrow> 'w \<Rightarrow> Credentials option res \<times> 'w"
where
  "loadPersistedCredentials kube pod r w =
     (case kube of
        None \<Rightarrow> (Inr None, w)
      | Some K \<Rightarrow>
          (case cm_Get (K (systemNamespace pod r)) registrationConfigMap w of
             (Inl err, w1) \<Rightarrow> if IsNotFound err then (Inr None, w1) else (Inl err, w1)
           | (Inr cm, w1) \<Rightarrow>
               let creds = creds_of_data (data_of cm)
               in if cr_ClusterID creds = [] \<or> cr_ClientID creds = [] \<or> cr_TokenURL creds = [] then (Inr None, w1)
                  else (Inr (Some creds), w1)))"

definition persistCredentials ::
  "(string \<Rightarrow> 'w ConfigMaps) option \<Rightarrow> string \<Rightarrow> AgentReconciler \<Rightarrow> Credentials \<Rightarrow> 'w \<Rightarrow> go_err option \<times> 'w"
where
  "persistCredentials kube pod r creds w =
     (case kube of
        None \<Rightarrow> (None, w)
      | Some K \<Rightarrow>
          (case cm_Create (K (systemNamespace pod r))
                  \<lparr>cm_Name = registrationConfigMap, cm_Data = Some (data_of_creds creds), cm_Version = 0\<rparr> w of
             (None, w1) \<Rightarrow> (None, w1)
           | (Some err, w1) \<Rightarrow> if IsAlreadyExists err then (None, w1) else (Some err, w1)))"

text \<open>\<open>exchange\<close> is the \<open>Registrar\<close> interface; the token is forgotten whatever its answer.\<close>

definition register ::
  "(string \<Rightarrow> 'w \<Rightarrow> Credentials res \<times> 'w) \<Rightarrow> AgentReconciler \<Rightarrow> 'w \<Rightarrow> Credentials res \<times> AgentReconciler \<times> 'w"
where
  "register exchange r w =
     (case exchange (ar_BootstrapToken r) w of
        (res, w1) \<Rightarrow>
          let r1 = r\<lparr>ar_BootstrapToken := [], ar_tokenForgotten := True\<rparr>
          in (case res of
                Inl err \<Rightarrow> (Inl (Wrapf ''register: %w'' [] err), r1, w1)
              | Inr creds \<Rightarrow> (Inr creds, r1, w1)))"

text \<open>
  The first part of \<open>Start\<close>, up to the client secret: the credentials the agent runs with and
  the secret, \<open>Standalone\<close> when it only waits for its end.
\<close>

datatype identity = Standalone | Identity Credentials string

definition read_identity ::
  "(SecretReference \<Rightarrow> 'w \<Rightarrow> string res \<times> 'w) \<Rightarrow> Credentials \<Rightarrow> AgentReconciler \<Rightarrow> 'w \<Rightarrow> identity res \<times> AgentReconciler \<times> 'w"
where
  "read_identity readSecret creds r w =
     (case readSecret (cr_SecretRef creds) w of
        (Inl err, w1) \<Rightarrow> (Inl (Wrapf ''agent lifecycle: read client secret: %w'' [] err), r, w1)
      | (Inr clientSecret, w1) \<Rightarrow> (Inr (Identity creds clientSecret), r, w1))"

definition acquire_identity ::
  "(string \<Rightarrow> 'w ConfigMaps) option \<Rightarrow> string \<Rightarrow> (string \<Rightarrow> 'w \<Rightarrow> Credentials res \<times> 'w) option \<Rightarrow>
   (SecretReference \<Rightarrow> 'w \<Rightarrow> string res \<times> 'w) \<Rightarrow> AgentReconciler \<Rightarrow> 'w \<Rightarrow> identity res \<times> AgentReconciler \<times> 'w"
where
  "acquire_identity kube pod registrar readSecret r w =
     (case loadPersistedCredentials kube pod r w of
        (Inl err, w1) \<Rightarrow> (Inl (Wrapf ''agent lifecycle: load persisted credentials: %w'' [] err), r, w1)
      | (Inr (Some creds), w1) \<Rightarrow> read_identity readSecret creds r w1
      | (Inr None, w1) \<Rightarrow>
          (case registrar of
             None \<Rightarrow> (Inr Standalone, r, w1)
           | Some exchange \<Rightarrow>
               if \<not> hasBootstrapToken r then (Inr Standalone, r, w1)
               else (case register exchange r w1 of
                  (Inl err, r1, w2) \<Rightarrow> (Inl (Wrapf ''agent lifecycle: %w'' [] err), r1, w2)
                | (Inr creds, r1, w2) \<Rightarrow>
                    (case persistCredentials kube pod r1 creds w2 of
                       (Some err, w3) \<Rightarrow> (Inl (Wrapf ''agent lifecycle: persist credentials: %w'' [] err), r1, w3)
                     | (None, w3) \<Rightarrow> read_identity readSecret creds r1 w3))))"

section \<open>Laws and consequences\<close>

text \<open>
  \<open>cur w ns n\<close> is the committed data of ConfigMap \<open>n\<close> in \<open>ns\<close>. Beyond the laws of one namespace:
  a create succeeds only for a new name, and reports an existing name only if there is one.
\<close>

definition kube_laws ::
  "(string \<Rightarrow> 'w ConfigMaps) \<Rightarrow> ('w \<Rightarrow> string \<Rightarrow> string \<Rightarrow> (string, string) fmap option) \<Rightarrow> bool" where
  "kube_laws K cur \<longleftrightarrow>
     (\<forall>ns. configmap_laws (K ns) (\<lambda>w. cur w ns)) \<and>
     (\<forall>ns cm w w'. cm_Create (K ns) cm w = (None, w') \<longrightarrow> cur w ns (cm_Name cm) = None) \<and>
     (\<forall>ns cm w e w'. cm_Create (K ns) cm w = (Some e, w') \<and> IsAlreadyExists e \<longrightarrow> cur w ns (cm_Name cm) \<noteq> None)"

lemma kube_lawsD:
  assumes "kube_laws K cur"
  shows "cm_Get (K ns) n w = (Inr cm, w') \<Longrightarrow> cur w ns n = Some (data_of cm) \<and> cur w' ns = cur w ns"
    and "cm_Get (K ns) n w = (Inl e, w') \<Longrightarrow> cur w' ns = cur w ns \<and> (IsNotFound e \<longrightarrow> cur w ns n = None)"
    and "cm_Create (K ns) cm w = (None, w') \<Longrightarrow> cur w ns (cm_Name cm) = None \<and> cur w' ns = (cur w ns)(cm_Name cm \<mapsto> data_of cm)"
    and "cm_Create (K ns) cm w = (Some e, w') \<Longrightarrow> cur w' ns = cur w ns \<and> (IsAlreadyExists e \<longrightarrow> cur w ns (cm_Name cm) \<noteq> None)"
proof -
  have laws: "configmap_laws (K ns) (\<lambda>w. cur w ns)" using assms by (simp add: kube_laws_def)
  show "cm_Get (K ns) n w = (Inr cm, w') \<Longrightarrow> cur w ns n = Some (data_of cm) \<and> cur w' ns = cur w ns"
    and "cm_Get (K ns) n w = (Inl e, w') \<Longrightarrow> cur w' ns = cur w ns \<and> (IsNotFound e \<longrightarrow> cur w ns n = None)"
    using configmap_lawsD(1,2) [OF laws] by simp_all
  show "cm_Create (K ns) cm w = (None, w') \<Longrightarrow> cur w ns (cm_Name cm) = None \<and> cur w' ns = (cur w ns)(cm_Name cm \<mapsto> data_of cm)"
    and "cm_Create (K ns) cm w = (Some e, w') \<Longrightarrow> cur w' ns = cur w ns \<and> (IsAlreadyExists e \<longrightarrow> cur w ns (cm_Name cm) \<noteq> None)"
    using assms configmap_lawsD(3,4) [OF laws] by (simp_all add: kube_laws_def)
qed

definition creds_complete :: "Credentials \<Rightarrow> bool" where
  "creds_complete c \<longleftrightarrow> cr_ClusterID c \<noteq> [] \<and> cr_ClientID c \<noteq> [] \<and> cr_TokenURL c \<noteq> []"

lemma creds_roundtrip [simp]: "creds_of_data (data_of_creds c) = c\<lparr>cr_ExpiresHint := None\<rparr>"
  by (simp add: creds_of_data_def data_of_creds_def data_get_def fmlookup_of_list)

lemma registrar_Register_complete: "registrar_Register R t w = (Inr c, w') \<Longrightarrow> creds_complete c"
  by (auto simp: registrar_Register_def creds_complete_def split: if_splits prod.splits sum.splits)

lemma loaded_complete: "loadPersistedCredentials kube pod r w = (Inr (Some c), w') \<Longrightarrow> creds_complete c"
  by (auto simp: loadPersistedCredentials_def creds_complete_def Let_def split: option.splits prod.splits sum.splits if_splits)

lemma load_reads_current:
  assumes "kube_laws K cur" and "cm_Get (K (systemNamespace pod r)) registrationConfigMap w = (Inr cm, w')"
    and "cur w (systemNamespace pod r) registrationConfigMap = Some d"
  shows "loadPersistedCredentials (Some K) pod r w =
           (Inr (if creds_complete (creds_of_data d) then Some (creds_of_data d) else None), w')"
  using kube_lawsD(1) [OF assms(1,2)] assms(2,3)
  by (auto simp: loadPersistedCredentials_def creds_complete_def Let_def)

lemma load_keeps:
  assumes "kube_laws K cur" and "loadPersistedCredentials (Some K) pod r w = (res, w')"
  shows "cur w' (systemNamespace pod r) = cur w (systemNamespace pod r)"
  using assms(2) kube_lawsD(1,2) [OF assms(1), of "systemNamespace pod r" registrationConfigMap w]
  by (auto simp: loadPersistedCredentials_def Let_def split: prod.splits sum.splits if_splits)

lemma acquire_loaded:
  "loadPersistedCredentials kube pod r w = (Inr (Some c), w') \<Longrightarrow>
     acquire_identity kube pod registrar readSecret r w = read_identity readSecret c r w'"
  by (simp add: acquire_identity_def)

lemma acquire_tokenless:
  "\<not> hasBootstrapToken r \<Longrightarrow>
     acquire_identity kube pod (Some exchange) readSecret r w = acquire_identity kube pod None readSecret r w"
  by (simp add: acquire_identity_def split: prod.split sum.split option.split)

lemma registrar_world:
  assumes "registrar_Register R t w = (res, w')" and "\<forall>q v. cur (snd (rg_Client R q v)) = cur v"
  shows "cur w' = cur w"
proof (cases "t = []")
  case False
  let ?q = "\<lparr>rq_RegistrationToken = t, rq_AgentVersion = rg_AgentVersion R, rq_ContractVersion = ContractVersion,
    rq_ClusterLabels = rg_ClusterLabels R, rq_KubernetesVersion = rg_KubernetesVersion R\<rparr>"
  from False assms(1) have "w' = snd (rg_Client R ?q w)"
    by (auto simp: registrar_Register_def split: if_splits prod.splits sum.splits)
  with assms(2) show ?thesis by simp
qed (use assms(1) in \<open>simp add: registrar_Register_def\<close>)

text \<open>The run that registers: what it exchanged, and the persistence step.\<close>

lemma acquire_registers:
  assumes "acquire_identity kube pod (Some exchange) readSecret r w = (Inr (Identity creds sec), r1, w1)"
    and "loadPersistedCredentials kube pod r w = (Inr None, v)"
  obtains v1 v2 where "exchange (ar_BootstrapToken r) v = (Inr creds, v1)" and "r1 = r\<lparr>ar_BootstrapToken := [], ar_tokenForgotten := True\<rparr>"
    and "persistCredentials kube pod r1 creds v1 = (None, v2)" and "readSecret (cr_SecretRef creds) v2 = (Inr sec, w1)"
  using assms
  by (auto simp: acquire_identity_def register_def read_identity_def Let_def split: if_splits prod.splits sum.splits option.splits)


section \<open>Properties\<close>

text \<open>
  C11. A registration survives a restart: when an agent without a persisted registration has
  registered and obtained its identity, then every later start in the same namespace that can
  read the registration goes on with the very same credentials (less the expiry hint), whatever
  its token and whatever the control plane would answer: the exchange is not repeated.
\<close>

theorem registration_survives_restart:
  assumes "kube_laws K cur" and "\<forall>q v. cur (snd (rg_Client R q v)) = cur v"
    and "\<forall>ref v. cur (snd (readSecret ref v)) = cur v"
    and "cur w (systemNamespace pod r) registrationConfigMap = None"
    and "acquire_identity (Some K) pod (Some (registrar_Register R)) readSecret r w = (Inr (Identity creds sec), r1, w1)"
    and "cur v (systemNamespace pod r) = cur w1 (systemNamespace pod r)" and "ar_SystemNamespace r' = ar_SystemNamespace r"
    and "cm_Get (K (systemNamespace pod r)) registrationConfigMap v = (Inr cm, v')"
  shows "acquire_identity (Some K) pod registrar readSecret' r' v = read_identity readSecret' (creds\<lparr>cr_ExpiresHint := None\<rparr>) r' v'"
proof -
  let ?ns = "systemNamespace pod r"
  have ns: "systemNamespace pod r' = ?ns" "systemNamespace pod (r\<lparr>ar_BootstrapToken := [], ar_tokenForgotten := True\<rparr>) = ?ns"
    using assms(7) by (simp_all add: systemNamespace_def)
  obtain l u where load: "loadPersistedCredentials (Some K) pod r w = (l, u)" by fastforce
  have none: "l = Inr None"
    using load assms(4,5) kube_lawsD(1) [OF assms(1), of ?ns registrationConfigMap w]
    by (auto simp: loadPersistedCredentials_def acquire_identity_def split: prod.splits sum.splits if_splits)
  obtain u1 u2 where ex: "registrar_Register R (ar_BootstrapToken r) u = (Inr creds, u1)"
    and per: "persistCredentials (Some K) pod r1 creds u1 = (None, u2)" and sec: "readSecret (cr_SecretRef creds) u2 = (Inr sec, w1)"
    and r1: "r1 = r\<lparr>ar_BootstrapToken := [], ar_tokenForgotten := True\<rparr>"
    using acquire_registers [OF assms(5)] load none by metis
  have "cur u1 ?ns registrationConfigMap = None"
    using registrar_world [where cur = cur, OF ex assms(2)] load_keeps [OF assms(1) load] assms(4) by simp
  then have "cur u2 ?ns registrationConfigMap = Some (data_of_creds creds)"
    using per kube_lawsD(3,4) [OF assms(1), of ?ns "\<lparr>cm_Name = registrationConfigMap, cm_Data = Some (data_of_creds creds), cm_Version = 0\<rparr>" u1]
    by (auto simp: persistCredentials_def r1 ns data_of_def split: prod.splits option.splits if_splits)
  moreover have "cur w1 = cur u2" using assms(3)[rule_format, of "cr_SecretRef creds" u2] sec by simp
  ultimately have "cur v (systemNamespace pod r') registrationConfigMap = Some (data_of_creds creds)"
    using assms(6) ns(1) by simp
  then have "loadPersistedCredentials (Some K) pod r' v = (Inr (Some (creds\<lparr>cr_ExpiresHint := None\<rparr>)), v')"
    using load_reads_current [OF assms(1), of pod r' v cm v'] assms(8) ns(1) registrar_Register_complete [OF ex]
    by (simp add: creds_complete_def)
  then show ?thesis by (rule acquire_loaded)
qed


text \<open>
  C30. An identity is complete: the agent goes on past registration only with a cluster id, a client
  id and a token endpoint, with a complete reference to its secret, and with a client secret that
  is not empty and that the API returned under the key of that reference.
\<close>

theorem identity_complete:
  assumes "poll_laws poll"
    and "acquire_identity kube pod (Some (registrar_Register R)) (ReadSecret poll S) r w = (Inr (Identity creds sec), r1, w1)"
  shows "creds_complete creds \<and> sr_Name (cr_SecretRef creds) \<noteq> [] \<and> sr_Namespace (cr_SecretRef creds) \<noteq> [] \<and> sr_Key (cr_SecretRef creds) \<noteq> []
    \<and> sec \<noteq> [] \<and> (\<exists>v v' secret. ksr_Client S (sr_Namespace (cr_SecretRef creds)) (sr_Name (cr_SecretRef creds)) v = (Inr secret, v')
                     \<and> secret (sr_Key (cr_SecretRef creds)) = Some sec)"
proof -
  let ?ref = "cr_SecretRef creds"
  have "creds_complete creds \<and> (\<exists>u. ReadSecret poll S ?ref u = (Inr sec, w1))"
    using assms(2) loaded_complete [of kube pod r w] registrar_Register_complete [of R]
    by (auto simp: acquire_identity_def read_identity_def register_def Let_def split: prod.splits sum.splits option.splits if_splits)
  then obtain u where c: "creds_complete creds" and u: "ReadSecret poll S ?ref u = (Inr sec, w1)" by blast
  from u obtain i t where ref: "sr_Name ?ref \<noteq> []" "sr_Namespace ?ref \<noteq> []" "sr_Key ?ref \<noteq> []"
    and p: "poll i t True (secret_ready S ?ref) (u, []) = (None, (w1, sec))"
    by (auto simp: ReadSecret_def Let_def split: if_splits prod.splits option.splits)
  from assms(1) p obtain v val where "secret_ready S ?ref (v, val) = (Inr True, (w1, sec))"
    unfolding poll_laws_def by (metis surj_pair)
  with c ref show ?thesis
    by (auto simp: secret_ready_def split: prod.splits sum.splits option.splits if_splits)
qed

text \<open>
  An incomplete registration is never repaired: if the registration ConfigMap exists but lacks
  the cluster id, the client id or the token endpoint, the agent registers, spends its one-time token and runs, but
  the ConfigMap stays as it was, so that the next start finds no registration again.
\<close>

theorem incomplete_registration_kept:
  assumes "kube_laws K cur" and "\<forall>q v. cur (snd (rg_Client R q v)) = cur v" and "\<forall>ref v. cur (snd (readSecret ref v)) = cur v"
    and "cur w (systemNamespace pod r) registrationConfigMap = Some d" and "\<not> creds_complete (creds_of_data d)"
    and "acquire_identity (Some K) pod (Some (registrar_Register R)) readSecret r w = (Inr (Identity creds sec), r1, w1)"
  shows "ar_BootstrapToken r \<noteq> [] \<and> ar_BootstrapToken r1 = [] \<and> cur w1 (systemNamespace pod r) registrationConfigMap = Some d
    \<and> (\<forall>v r' cm v'. cur v (systemNamespace pod r) = cur w1 (systemNamespace pod r) \<longrightarrow> ar_SystemNamespace r' = ar_SystemNamespace r \<longrightarrow>
         cm_Get (K (systemNamespace pod r)) registrationConfigMap v = (Inr cm, v') \<longrightarrow>
         loadPersistedCredentials (Some K) pod r' v = (Inr None, v'))"
proof -
  let ?ns = "systemNamespace pod r"
  obtain l u where load: "loadPersistedCredentials (Some K) pod r w = (l, u)" by fastforce
  have none: "l = Inr None"
    using load assms(4-6) kube_lawsD(1,2) [OF assms(1), of ?ns registrationConfigMap w]
    by (auto simp: loadPersistedCredentials_def acquire_identity_def creds_complete_def Let_def split: prod.splits sum.splits if_splits)
  obtain u1 u2 where ex: "registrar_Register R (ar_BootstrapToken r) u = (Inr creds, u1)"
    and per: "persistCredentials (Some K) pod r1 creds u1 = (None, u2)" and sec: "readSecret (cr_SecretRef creds) u2 = (Inr sec, w1)"
    and r1: "r1 = r\<lparr>ar_BootstrapToken := [], ar_tokenForgotten := True\<rparr>"
    using acquire_registers [OF assms(6)] load none by metis
  have ns: "systemNamespace pod r1 = ?ns" by (simp add: r1 systemNamespace_def)
  have "cur u1 ?ns registrationConfigMap = Some d"
    using registrar_world [where cur = cur, OF ex assms(2)] load_keeps [OF assms(1) load] assms(4) by simp
  then have "cur u2 ?ns registrationConfigMap = Some d"
    using per kube_lawsD(3,4) [OF assms(1), of ?ns "\<lparr>cm_Name = registrationConfigMap, cm_Data = Some (data_of_creds creds), cm_Version = 0\<rparr>" u1]
    by (auto simp: persistCredentials_def ns split: prod.splits option.splits if_splits)
  moreover have "cur w1 = cur u2" using assms(3)[rule_format, of "cr_SecretRef creds" u2] sec by simp
  ultimately have w1: "cur w1 ?ns registrationConfigMap = Some d" by simp
  have "ar_BootstrapToken r \<noteq> []" using ex by (auto simp: registrar_Register_def)
  moreover have "loadPersistedCredentials (Some K) pod r' v = (Inr None, v')"
    if "cur v ?ns = cur w1 ?ns" "ar_SystemNamespace r' = ar_SystemNamespace r" "cm_Get (K ?ns) registrationConfigMap v = (Inr cm, v')" for v r' cm v'
  proof -
    have "systemNamespace pod r' = ?ns" using that(2) by (simp add: systemNamespace_def)
    then show ?thesis using load_reads_current [OF assms(1), of pod r' v cm v' d] that w1 assms(5) by simp
  qed
  ultimately show ?thesis using w1 by (simp add: r1)
qed


section \<open>Witnesses\<close>

text \<open>An API server with one store per namespace.\<close>

type_synonym kube_server = "string \<Rightarrow> cm_server"

definition in_ns :: "string \<Rightarrow> (cm_server \<Rightarrow> 'a \<times> cm_server) \<Rightarrow> kube_server \<Rightarrow> 'a \<times> kube_server" where
  "in_ns ns f w = (case f (w ns) of (x, s) \<Rightarrow> (x, w(ns := s)))"

definition mem_kube :: "string \<Rightarrow> kube_server ConfigMaps" where
  "mem_kube ns =
     \<lparr>cm_Get = (\<lambda>n. in_ns ns (cm_Get mem_configmaps n)), cm_Create = (\<lambda>cm. in_ns ns (cm_Create mem_configmaps cm)),
      cm_Update = (\<lambda>cm. in_ns ns (cm_Update mem_configmaps cm))\<rparr>"

definition kube_data :: "kube_server \<Rightarrow> string \<Rightarrow> string \<Rightarrow> (string, string) fmap option" where
  "kube_data w ns = mem_data (w ns)"

lemma mem_kube_laws: "kube_laws mem_kube kube_data"
  unfolding kube_laws_def
proof (intro conjI allI impI)
  fix ns
  show "configmap_laws (mem_kube ns) (\<lambda>w. kube_data w ns)"
    unfolding configmap_laws_def
    by (intro conjI allI impI)
      (auto simp: mem_kube_def in_ns_def kube_data_def dest: configmap_lawsD [OF mem_configmaps_laws] split: prod.splits)
next
  fix ns cm and w w' :: kube_server
  show "kube_data w ns (cm_Name cm) = None" if "cm_Create (mem_kube ns) cm w = (None, w')"
    using that by (auto simp: mem_kube_def in_ns_def kube_data_def mem_configmaps_def mem_data_def split: prod.splits option.splits)
  fix e
  show "kube_data w ns (cm_Name cm) \<noteq> None" if "cm_Create (mem_kube ns) cm w = (Some e, w') \<and> IsAlreadyExists e"
    using that by (auto simp: mem_kube_def in_ns_def kube_data_def mem_configmaps_def mem_data_def split: prod.splits option.splits)
qed

definition sample_registrar :: "kube_server ConnectRegistrar" where
  "sample_registrar =
     \<lparr>rg_Client = (\<lambda>q w. (Inr \<lparr>rs_ClusterId = ''c42'', rs_ClientId = ''cluster-c42'', rs_OidcIssuerUrl = ''https://kc/realms/inari/'',
                             rs_ClientSecretDelivery = Some \<lparr>sdr_EsoSecretStore = ''store'', sdr_SecretName = ''c42-oidc'',
                               sdr_SecretNamespace = ''agents'', sdr_SecretKey = ''client-secret''\<rparr>,
                             rs_CredentialsExpireHint = Some 9, rs_BaselineRepo = ''acme/state''\<rparr>, w)),
      rg_AgentVersion = ''0.1.0'', rg_TenantID = ''acme'', rg_ControlPlane = ''https://gw'', rg_ClusterLabels = Map.empty,
      rg_KubernetesVersion = ''v1.32.0''\<rparr>"

definition sample_creds :: Credentials where
  "sample_creds =
     \<lparr>cr_TenantID = ''acme'', cr_ClusterID = ''c42'', cr_ClientID = ''cluster-c42'',
      cr_TokenURL = ''https://kc/realms/inari/protocol/openid-connect/token'', cr_ControlPlane = ''https://gw'',
      cr_SecretRef = \<lparr>sr_Store = ''store'', sr_Name = ''c42-oidc'', sr_Namespace = ''agents'', sr_Key = ''client-secret''\<rparr>,
      cr_ExpiresHint = Some 9, cr_BaselineRepo = ''acme/state''\<rparr>"

text \<open>A poller that evaluates the condition once, and a secret store that has the secret.\<close>

definition poll_once :: "'w poller" where
  "poll_once i t b cond s =
     (case cond s of
        (Inl e, s1) \<Rightarrow> (Some e, s1) | (Inr True, s1) \<Rightarrow> (None, s1) | (Inr False, s1) \<Rightarrow> (Some DeadlineExceeded, s1))"

lemma poll_once_laws: "poll_laws poll_once"
  by (auto simp: poll_laws_def poll_once_def split: prod.splits sum.splits bool.splits)

definition sample_reader :: "kube_server KubeSecretReader" where
  "sample_reader = \<lparr>ksr_Client = (\<lambda>ns n w. (Inr [''client-secret'' \<mapsto> ''s3cr3t''], w)), ksr_PollInterval = 0, ksr_PollTimeout = 0\<rparr>"

lemma sample_read: "ReadSecret poll_once sample_reader (cr_SecretRef sample_creds) w = (Inr ''s3cr3t'', w)"
  by (simp add: ReadSecret_def poll_once_def secret_ready_def sample_reader_def sample_creds_def)

lemma sample_read_keeps: "kube_data (snd (ReadSecret poll_once sample_reader ref v)) = kube_data v"
  by (simp add: ReadSecret_def poll_once_def secret_ready_def sample_reader_def split: option.split)

lemma sample_exchange: "t \<noteq> [] \<Longrightarrow> registrar_Register sample_registrar t w = (Inr sample_creds, w)"
  by (simp add: registrar_Register_def sample_registrar_def sample_creds_def secret_ref_of_def TrimSuffix_def HasSuffix_def)

definition fresh_agent :: AgentReconciler where
  "fresh_agent = \<lparr>ar_BootstrapToken = ''tok'', ar_SystemNamespace = ''agents'', ar_tokenForgotten = False\<rparr>"

definition spent_agent :: AgentReconciler where
  "spent_agent = \<lparr>ar_BootstrapToken = [], ar_SystemNamespace = ''agents'', ar_tokenForgotten = True\<rparr>"

definition registered_world :: kube_server where
  "registered_world = (\<lambda>ns. Map.empty)(''agents'' := [''inari-agent-registration'' \<mapsto> (data_of_creds sample_creds, 1)])"

lemma fresh_ns [simp]: "systemNamespace pod fresh_agent = ''agents''" "systemNamespace pod spent_agent = ''agents''"
  by (simp_all add: systemNamespace_def fresh_agent_def spent_agent_def)

lemma sample_acquire:
  "acquire_identity (Some mem_kube) [] (Some (registrar_Register sample_registrar)) (ReadSecret poll_once sample_reader) fresh_agent (\<lambda>ns. Map.empty)
     = (Inr (Identity sample_creds ''s3cr3t''), spent_agent, registered_world)"
proof -
  have "loadPersistedCredentials (Some mem_kube) [] fresh_agent (\<lambda>ns. Map.empty) = (Inr None, \<lambda>ns. Map.empty)"
    by (simp add: loadPersistedCredentials_def mem_kube_def in_ns_def mem_configmaps_def IsNotFound_def fun_upd_idem_iff)
  moreover have "register (registrar_Register sample_registrar) fresh_agent w = (Inr sample_creds, spent_agent, w)" for w
    by (simp add: register_def sample_exchange fresh_agent_def spent_agent_def)
  moreover have "persistCredentials (Some mem_kube) [] spent_agent sample_creds (\<lambda>ns. Map.empty) = (None, registered_world)"
    by (simp add: persistCredentials_def mem_kube_def in_ns_def mem_configmaps_def registrationConfigMap_def data_of_def registered_world_def)
  ultimately show ?thesis
    by (simp add: acquire_identity_def read_identity_def sample_read hasBootstrapToken_def fresh_agent_def)
qed

lemma registered_Get: "\<exists>cm. cm_Get (mem_kube ''agents'') registrationConfigMap registered_world = (Inr cm, registered_world)"
  by (simp add: mem_kube_def in_ns_def mem_configmaps_def registered_world_def registrationConfigMap_def fun_upd_idem)

theorem registration_survives_restart_witness:
  "acquire_identity (Some mem_kube) [] None (ReadSecret poll_once sample_reader) spent_agent registered_world
     = (Inr (Identity (sample_creds\<lparr>cr_ExpiresHint := None\<rparr>) ''s3cr3t''), spent_agent, registered_world)"
proof -
  obtain cm where cm: "cm_Get (mem_kube ''agents'') registrationConfigMap registered_world = (Inr cm, registered_world)"
    using registered_Get by blast
  have rpc: "\<forall>q v. kube_data (snd (rg_Client sample_registrar q v)) = kube_data v" by (simp add: sample_registrar_def)
  have "acquire_identity (Some mem_kube) [] None (ReadSecret poll_once sample_reader) spent_agent registered_world
      = read_identity (ReadSecret poll_once sample_reader) (sample_creds\<lparr>cr_ExpiresHint := None\<rparr>) spent_agent registered_world"
    by (rule registration_survives_restart [OF mem_kube_laws rpc _ _ sample_acquire, where cm = cm])
      (simp_all add: sample_read_keeps kube_data_def mem_data_def cm, simp add: spent_agent_def fresh_agent_def)
  then show ?thesis by (simp add: read_identity_def sample_read)
qed


theorem identity_complete_witness:
  "creds_complete sample_creds \<and> (\<exists>v v' secret. ksr_Client sample_reader ''agents'' ''c42-oidc'' v = (Inr secret, v') \<and> secret ''client-secret'' = Some ''s3cr3t'')"
  using identity_complete [OF poll_once_laws sample_acquire] by (simp add: sample_creds_def)

definition half_registered :: kube_server where
  "half_registered = (\<lambda>ns. Map.empty)(''agents'' := [''inari-agent-registration'' \<mapsto> (fmupd ''cluster-id'' ''c1'' fmempty, 1)])"

theorem incomplete_registration_kept_witness:
  "loadPersistedCredentials (Some mem_kube) [] spent_agent half_registered = (Inr None, half_registered)"
proof -
  let ?d = "fmupd ''cluster-id'' ''c1'' fmempty :: (string, string) fmap"
  have ne: "?d \<noteq> fmempty" by (metis fmempty_lookup fmupd_lookup option.distinct(1))
  have get: "cm_Get (mem_kube ''agents'') registrationConfigMap half_registered
      = (Inr \<lparr>cm_Name = ''inari-agent-registration'', cm_Data = Some ?d, cm_Version = 1\<rparr>, half_registered)"
    using ne by (simp add: mem_kube_def in_ns_def mem_configmaps_def half_registered_def registrationConfigMap_def fun_upd_idem)
  have inc: "\<not> creds_complete (creds_of_data ?d)" by (simp add: creds_complete_def creds_of_data_def data_get_def)
  have load: "loadPersistedCredentials (Some mem_kube) [] fresh_agent half_registered = (Inr None, half_registered)"
    using inc by (simp add: loadPersistedCredentials_def get data_of_def creds_complete_def Let_def)
  have reg: "register (registrar_Register sample_registrar) fresh_agent half_registered = (Inr sample_creds, spent_agent, half_registered)"
    by (simp add: register_def sample_exchange fresh_agent_def spent_agent_def)
  have per: "persistCredentials (Some mem_kube) [] spent_agent sample_creds half_registered = (None, half_registered)"
    by (simp add: persistCredentials_def mem_kube_def in_ns_def mem_configmaps_def registrationConfigMap_def half_registered_def
        IsAlreadyExists_def fun_upd_idem)
  have run: "acquire_identity (Some mem_kube) [] (Some (registrar_Register sample_registrar)) (ReadSecret poll_once sample_reader) fresh_agent half_registered
      = (Inr (Identity sample_creds ''s3cr3t''), spent_agent, half_registered)"
    unfolding acquire_identity_def load by (simp add: reg per read_identity_def sample_read hasBootstrapToken_def) (simp add: fresh_agent_def)
  have rpc: "\<forall>q v. kube_data (snd (rg_Client sample_registrar q v)) = kube_data v" by (simp add: sample_registrar_def)
  have cur: "kube_data half_registered (systemNamespace [] fresh_agent) registrationConfigMap = Some ?d"
    by (simp add: kube_data_def mem_data_def half_registered_def registrationConfigMap_def)
  have read: "\<forall>ref v. kube_data (snd (ReadSecret poll_once sample_reader ref v)) = kube_data v" by (simp add: sample_read_keeps)
  have sys: "ar_SystemNamespace spent_agent = ar_SystemNamespace fresh_agent" by (simp add: spent_agent_def fresh_agent_def)
  show ?thesis
    using incomplete_registration_kept [OF mem_kube_laws rpc read cur inc run] get sys by simp
qed

end
