(* ===== verification/Agent_Controller.thy ===== *)
theory Agent_Controller
  imports Command_Handlers Aggregator Status_Streamer Addon_Scanner Stream_Client Registration
begin

text \<open>
  The agent's lifecycle (\<open>internal/controller\<close>) and its readiness (\<open>internal/health\<close>): the GitOps
  configuration of the dispatcher, the routing and answering of inbound events, and the agent as
  a whole, where the stream client, the command dispatcher, the readiness tracker, the status
  streamer, the addon scanner and the main loop of \<open>Start\<close> run together.

  The whole agent is the step relation \<open>agent_step\<close> on top of \<open>client_step\<close>. The callback
  \<open>Start\<close> composes from its parts is run by the goroutine that supervises the stream, inside
  \<open>setConnected\<close>; it is a list of parts, and the supervising goroutine goes on only when the
  list is empty. \<open>SetupWithManager\<close> and the logging are left out.
\<close>

section \<open>Readiness (health.go)\<close>

text \<open>\<open>tr_lastDisconnect\<close> is a time in nanoseconds, 0 before the first disconnect.\<close>

record StreamTracker =
  tr_grace :: int
  tr_armed :: bool
  tr_connected :: bool
  tr_lastDisconnect :: int

definition NewStreamTracker :: "int \<Rightarrow> StreamTracker" where
  "NewStreamTracker grace = \<lparr>tr_grace = grace, tr_armed = False, tr_connected = False, tr_lastDisconnect = 0\<rparr>"

definition tracker_SetConnected :: "int \<Rightarrow> bool \<Rightarrow> StreamTracker \<Rightarrow> StreamTracker" where
  "tracker_SetConnected now v t =
     (let t1 = t\<lparr>tr_armed := True, tr_connected := v\<rparr>
      in if \<not> v then t1\<lparr>tr_lastDisconnect := now\<rparr> else t1)"

definition Check :: "int \<Rightarrow> StreamTracker \<Rightarrow> go_err option" where
  "Check now t =
     (if \<not> tr_armed t \<or> tr_connected t then None
      else let since = now - tr_lastDisconnect t
           in if since < tr_grace t then None
              else Some (Errorf ''control-plane stream disconnected for %s (grace %s)''
                           [AInt (tdiv since (seconds 1) * seconds 1), AInt (tr_grace t)]))"

section \<open>GitOps configuration (gitops_config.go)\<close>

text \<open>What the handlers need beyond the configuration: coding, parsing, cluster-wide listing.\<close>

record ('p, 'w) gitops_env =
  ge_codec :: "'p Codec"
  ge_accessors :: Accessors
  ge_yaml :: "obj \<Rightarrow> string res"
  ge_json :: "obj \<Rightarrow> string res"
  ge_parse_url :: "string \<Rightarrow> go_err option"
  ge_Sscan :: "string \<Rightarrow> int \<times> bool"
  ge_manifest :: ManifestCodec
  ge_listDeployments :: "'w \<Rightarrow> Deployment list res \<times> 'w"
  ge_install :: "string \<Rightarrow> string \<Rightarrow> 'w \<Rightarrow> go_err option \<times> 'w"
  ge_NewFetcher :: "BundleRef \<Rightarrow> 'w \<Rightarrow> File list res \<times> 'w"
  ge_order :: "(string, string) fmap \<Rightarrow> string list"
  ge_encAck :: "CommandAck \<Rightarrow> string res"
  ge_decAck :: "string \<Rightarrow> CommandAck res"

record 'w GitOpsConfig =
  gop_Kube :: "string \<Rightarrow> 'w ConfigMaps"
  gop_Dyn :: "'w Dyn"
  gop_Git :: "'w Provider"
  gop_BoundStateRepo :: string
  gop_StateRepo :: string
  gop_StateRepoOrg :: string
  gop_Bundles :: "(BundleRef \<Rightarrow> 'w \<Rightarrow> File list res \<times> 'w) option"
  gop_RGDs :: "(string \<Rightarrow> 'w \<Rightarrow> obj res \<times> 'w) option"
  gop_ArgoCDMode :: string
  gop_ArgoCDNamespace :: string
  gop_ArgoCDManifests :: string
  gop_ArgoCDAPI :: "'w APIClient option"
  gop_StatusWatches :: "WatchResource list option"
  gop_AddonScanNamespaces :: "string list"
  gop_JournalNamespace :: string

definition stateRepo :: "'w GitOpsConfig \<Rightarrow> string \<Rightarrow> string" where
  "stateRepo c tenantID =
     (if gop_BoundStateRepo c \<noteq> [] then gop_BoundStateRepo c
      else if gop_StateRepo c \<noteq> [] then gop_StateRepo c
      else if gop_StateRepoOrg c \<noteq> [] \<and> tenantID \<noteq> [] then gop_StateRepoOrg c @ ''/'' @ tenantID @ ''-inari-state''
      else [])"

text \<open>A handler and a journal that act on the external world only.\<close>

definition ext_handler :: "('p, 'w) KindHandler \<Rightarrow> ('p, 'w GitOpsState) KindHandler" where
  "ext_handler h ev s = on_ext (h ev) s"

definition ext_journal :: "'w Journal \<Rightarrow> 'w GitOpsState Journal" where
  "ext_journal j = \<lparr>j_Load = on_ext (j_Load j), j_Record = (\<lambda>ack. on_ext (j_Record j ack))\<rparr>"

definition argocd_namespace :: "'w GitOpsConfig \<Rightarrow> string" where
  "argocd_namespace c = (if gop_ArgoCDNamespace c = [] then ''argocd'' else gop_ArgoCDNamespace c)"

definition lifecycle_of :: "('p, 'w) gitops_env \<Rightarrow> 'w GitOpsConfig \<Rightarrow> 'w \<Rightarrow> string res \<times> 'w" where
  "lifecycle_of E c =
     EnsureReady (ge_listDeployments E) (ge_install E)
       \<lparr>lc_Mode = gop_ArgoCDMode c, lc_Namespace = gop_ArgoCDNamespace c, lc_Manifests = gop_ArgoCDManifests c\<rparr>"

text \<open>The handlers \<open>configure\<close> registers, in its order.\<close>

definition register_handlers ::
  "('p, 'w) gitops_env \<Rightarrow> 'w GitOpsConfig \<Rightarrow> (string \<Rightarrow> 'w \<Rightarrow> (string \<times> int) res \<times> 'w) option \<Rightarrow>
   ('p, 'w GitOpsState) Dispatcher \<Rightarrow> ('p, 'w GitOpsState) Dispatcher"
where
  "register_handlers E c redeemer d =
     (let cd = ge_codec E; A = ge_accessors E; P = gop_Git c; gate = lifecycle_of E c; newClient = NewClient (gop_Dyn c);
          bundles = (case gop_Bundles c of Some f \<Rightarrow> f | None \<Rightarrow> ge_NewFetcher E);
          rgds = (case gop_RGDs c of Some f \<Rightarrow> f | None \<Rightarrow> GetRGD (gop_Dyn c));
          d1 = Register EVENT_TYPE_RENDER_RGD_INSTANCE (RenderRGDInstanceHandler cd A (ge_yaml E) rgds P) d;
          d2 = Register EVENT_TYPE_APPLY_BUNDLE (ApplyBundleHandler cd bundles P) d1;
          d3 = Register EVENT_TYPE_SECRET_STORE_APPLY (SecretStoreApplyHandler cd (ge_yaml E) P) d2;
          d4 = Register EVENT_TYPE_SECRET_STORE_DELETE (SecretStoreDeleteHandler cd P) d3;
          d5 = Register EVENT_TYPE_GITOPS_CONFIG_UPDATE (GitopsConfigUpdateHandler cd (gop_Kube c (gop_JournalNamespace c))) d4;
          d6 = Register EVENT_TYPE_REGISTER_ARGOCD_APP (ext_handler (RegisterArgoCDAppHandler cd A gate newClient)) d5;
          d7 = RegisterBridge RegisterArgoCDAppSetEventType (ext_handler (RegisterArgoCDAppSetHandler cd A (ge_manifest E) gate newClient)) d6;
          d8 = RegisterBridge RegisterArgoCDAppManifestEventType (ext_handler (RegisterArgoCDAppManifestHandler cd A (ge_manifest E) gate newClient)) d7
      in (case gop_ArgoCDAPI c of
            None \<Rightarrow> d8
          | Some api \<Rightarrow>
              Register EVENT_TYPE_INVOKE_ACTION
                (ext_handler (InvokeActionHandler cd A (ge_json E) (ge_parse_url E) (ge_Sscan E)
                   \<lparr>iad_API = api, iad_Dyn = gop_Dyn c, iad_Namespace = argocd_namespace c,
                    iad_ResolveNamespace = Some gate, iad_Redeemer = redeemer\<rparr>)) d8))"

text \<open>
  \<open>handler\<close> is \<open>None\<close> when it is not a \<open>*command.Dispatcher\<close>; \<open>ty\<close> is its \<open>%T\<close>. The result carries the
  state the handlers share, with the resolved state repository.
\<close>

definition configure ::
  "('p, 'w) gitops_env \<Rightarrow> 'w GitOpsConfig \<Rightarrow> ('p, 'w GitOpsState) Dispatcher option \<Rightarrow> string \<Rightarrow> string \<Rightarrow>
   (string \<Rightarrow> 'w \<Rightarrow> (string \<times> int) res \<times> 'w) option \<Rightarrow> 'w \<Rightarrow>
   (('p, 'w GitOpsState) Dispatcher \<times> 'w GitOpsState) res"
where
  "configure E c handler ty tenantID redeemer w =
     (case handler of
        None \<Rightarrow> Inl (Errorf ''gitops requires the command dispatcher, got %T'' [AStr ty])
      | Some d \<Rightarrow>
          let s = \<lparr>go_DefaultStateRepo = stateRepo c tenantID, go_ext = w\<rparr>;
              d1 = register_handlers E c redeemer d
          in if gop_JournalNamespace c \<noteq> [] then
               (case AttachJournal (ext_journal (ConfigMapJournal (gop_Kube c (gop_JournalNamespace c)) (ge_order E) (ge_encAck E) (ge_decAck E)
                                      ''inari-agent-command-journal'')) d1 s of
                  (Some err, _) \<Rightarrow> Inl err
                | (None, d2, s1) \<Rightarrow> Inr (d2, s1))
             else Inr (d1, s))"

text \<open>The arguments \<open>streamer\<close> builds the status streamer with.\<close>

definition streamer_args :: "'w GitOpsConfig \<Rightarrow> string \<times> WatchResource list" where
  "streamer_args c =
     (argocd_namespace c, (case gop_StatusWatches c of None \<Rightarrow> DefaultWatchResources | Some ws \<Rightarrow> ws))"

text \<open>\<open>meta\<close> tells whether there is a metadata client.\<close>

definition addonScanner :: "bool \<Rightarrow> 'w GitOpsConfig \<Rightarrow> Scanner option" where
  "addonScanner meta c =
     (if \<not> meta \<or> length (gop_AddonScanNamespaces c) = 0 then None
      else Some (NewScanner DefaultKnownAddons (gop_AddonScanNamespaces c)))"

section \<open>Inbound events (agent_controller.go)\<close>

text \<open>\<open>packAck\<close> is \<open>anypb.New\<close> on an ack; \<open>Send\<close> acts on the outbound world \<open>'o\<close>.\<close>

definition sendAck ::
  "'p Codec \<Rightarrow> (CommandAck \<Rightarrow> 'p res) \<Rightarrow> ('p Event \<Rightarrow> 'o \<Rightarrow> go_err option \<times> 'o) \<Rightarrow> string \<Rightarrow> CommandAck \<Rightarrow> EventType \<Rightarrow> 'o \<Rightarrow> 'o"
where
  "sendAck cd packAck Send cid ack ackType w =
     (case packAck ack of
        Inl err \<Rightarrow> w
      | Inr payload \<Rightarrow>
          snd (Send \<lparr>ev_EventId = ''ack-'' @ cid, ev_ResourceId = [], ev_Type = EventTypeString cd ackType, ev_Payload = Some payload\<rparr> w))"

definition handleCommand ::
  "'p Codec \<Rightarrow> (CommandAck \<Rightarrow> 'p res) \<Rightarrow> ('p Event \<Rightarrow> 'o \<Rightarrow> go_err option \<times> 'o) \<Rightarrow> 'p Event \<Rightarrow>
   ('p, 's) Dispatcher \<Rightarrow> 's \<Rightarrow> 'o \<Rightarrow> ('p, 's) Dispatcher \<times> 's \<times> 'o"
where
  "handleCommand cd packAck Send ev d s w =
     (case HandleEvent cd (Some ev) d s of
        (Inl err, d1, s1) \<Rightarrow>
          let cmdID = (case as_command_error err of
                         Some i \<Rightarrow> if i \<noteq> [] then i else ev_EventId ev
                       | None \<Rightarrow> ev_EventId ev)
          in (d1, s1, sendAck cd packAck Send cmdID
                \<lparr>ca_CommandId = cmdID, ca_Result = COMMAND_RESULT_FAILED, ca_Message = ErrText err\<rparr> EVENT_TYPE_COMMAND_NACK w)
      | (Inr ack, d1, s1) \<Rightarrow>
          let ackType = (if ca_Result ack = COMMAND_RESULT_FAILED then EVENT_TYPE_COMMAND_NACK else EVENT_TYPE_COMMAND_ACK)
          in (d1, s1, sendAck cd packAck Send (ca_CommandId ack) ack ackType w))"

text \<open>\<open>replay\<close> is \<open>ReplayFullState\<close> of the aggregator; its error is only logged.\<close>

definition dispatch ::
  "'p Codec \<Rightarrow> (CommandAck \<Rightarrow> 'p res) \<Rightarrow> ('p Event \<Rightarrow> 'o \<Rightarrow> go_err option \<times> 'o) \<Rightarrow> ('o \<Rightarrow> go_err option \<times> 'o) \<Rightarrow> 'p Event \<Rightarrow>
   ('p, 's) Dispatcher \<Rightarrow> 's \<Rightarrow> 'o \<Rightarrow> ('p, 's) Dispatcher \<times> 's \<times> 'o"
where
  "dispatch cd packAck Send replay ev d s w =
     (case EventTypeFromString cd (ev_Type ev) of
        EVENT_TYPE_RESYNC_REQUEST \<Rightarrow> (d, s, snd (replay w))
      | EVENT_TYPE_APPLY_BUNDLE \<Rightarrow> handleCommand cd packAck Send ev d s w
      | EVENT_TYPE_REGISTER_ARGOCD_APP \<Rightarrow> handleCommand cd packAck Send ev d s w
      | EVENT_TYPE_INVOKE_ACTION \<Rightarrow> handleCommand cd packAck Send ev d s w
      | EVENT_TYPE_RENDER_RGD_INSTANCE \<Rightarrow> handleCommand cd packAck Send ev d s w
      | EVENT_TYPE_GITOPS_CONFIG_UPDATE \<Rightarrow> handleCommand cd packAck Send ev d s w
      | _ \<Rightarrow> if IsBridgeCommandType (ev_Type ev) then handleCommand cd packAck Send ev d s w else (d, s, w))"

section \<open>The running agent (agent_controller.go)\<close>

text \<open>
  The parts of the connection callback that are left to run. \<open>PScannerSend\<close> is the \<open>Send\<close> inside
  \<open>Scanner.Reset\<close>: the event, and the checksum the scanner records when it is queued.
\<close>

datatype 'p callback_part =
    PReadiness bool | PGate bool | PStreamerReset | PScannerReset | PScannerSend "'p Event" string

text \<open>
  \<open>ag_calls\<close> is the rest of the callback that runs, \<open>ag_main\<close> the events the main loop has yet to
  send for the event it handles, \<open>ag_cancelled\<close> tells whether the agent's context is done, \<open>ag_now\<close>
  is the clock.
\<close>

record ('p, 's) agent =
  ag_rt :: "'p runtime"
  ag_disp :: "('p, 's) Dispatcher"
  ag_state :: 's
  ag_readiness :: "StreamTracker option"
  ag_streamer :: "Streamer option"
  ag_scanner :: "Scanner option"
  ag_calls :: "'p callback_part list"
  ag_main :: "'p Event list"
  ag_cancelled :: bool
  ag_now :: int

text \<open>
  What a step needs: the backoff policy, coding, what the scanner uses, and \<open>en_replay\<close>, the events
  a resync sends. The scanner runs on the list of the events it sends.
\<close>

record 'p agent_env =
  en_backoff :: Backoff
  en_codec :: "'p Codec"
  en_packAck :: "CommandAck \<Rightarrow> 'p res"
  en_scan :: "('p Event list, 'p) scan_env"
  en_replay :: "'p Event list"

definition outbox :: "'p Event \<Rightarrow> 'p Event list \<Rightarrow> go_err option \<times> 'p Event list" where
  "outbox e es = (None, es @ [e])"

text \<open>The composed callback: readiness wraps the gate, the resets follow it on a connect.\<close>

definition onConnectedChange :: "('p, 's) agent \<Rightarrow> bool \<Rightarrow> 'p callback_part list" where
  "onConnectedChange a v =
     (if ag_readiness a \<noteq> None then [PReadiness v] else []) @ [PGate v]
     @ (if ag_streamer a \<noteq> None \<and> v then [PStreamerReset] else [])
     @ (if ag_scanner a \<noteq> None \<and> v then [PScannerReset] else [])"

text \<open>The agent as \<open>Start\<close> leaves it when it starts the goroutines: gated and armed as disconnected.\<close>

definition agent_init ::
  "'p agent_env \<Rightarrow> ('p, 's) Dispatcher \<Rightarrow> 's \<Rightarrow> StreamTracker option \<Rightarrow> Streamer option \<Rightarrow> Scanner option \<Rightarrow> int \<Rightarrow> ('p, 's) agent"
where
  "agent_init E d s readiness streamer scanner now =
     \<lparr>ag_rt = rt_init (en_backoff E) (SetOnConnectedChange NewConnectClient), ag_disp = SetConnected False d, ag_state = s,
      ag_readiness = map_option (tracker_SetConnected now False) readiness, ag_streamer = streamer, ag_scanner = scanner,
      ag_calls = [], ag_main = [], ag_cancelled = False, ag_now = now\<rparr>"

text \<open>A call of \<open>Send\<close> that finds room in the queue.\<close>

definition send_now :: "'p Event \<Rightarrow> 'p runtime \<Rightarrow> 'p runtime" where
  "send_now ev r =
     (case stamp ev (rt_client r) of (e, c) \<Rightarrow> r\<lparr>rt_client := enqueue e c, log_enqueued := log_enqueued r @ [e]\<rparr>)"

definition has_room :: "'p runtime \<Rightarrow> bool" where
  "has_room r \<longleftrightarrow> length (cl_sendCh (rt_client r)) < sendCh_cap"

text \<open>\<open>Scanner.Reset\<close> up to its \<open>Send\<close>: the scanner, the event to send if any, and the checksum of it.\<close>

definition scanner_reset :: "('p Event list, 'p) scan_env \<Rightarrow> Scanner \<Rightarrow> Scanner \<times> 'p Event list \<times> string" where
  "scanner_reset E s =
     (case report (E\<lparr>se_Send := outbox\<rparr>) (clear_sum s) [] of (s1, es) \<Rightarrow> (clear_sum s, es, sc_lastSum s1))"

text \<open>
  \<^item> \<open>background\<close>: a step of another goroutine of the client, or of a caller of \<open>Send\<close>;
  \<^item> \<open>supervise\<close>: the supervising loop goes on, and runs the callback when the connection changes;
  \<^item> the parts of the callback, in order;
  \<^item> \<open>main_take\<close>, \<open>main_send\<close>: the main loop handles an event, then sends what came of it;
  \<^item> \<open>observed\<close>: the scanner's informers add an item; \<open>status_sent\<close>: the streamer records a checksum;
  \<^item> \<open>cancel\<close>, \<open>tick\<close>: the end of the context and the clock.
\<close>

inductive agent_step :: "'p agent_env \<Rightarrow> ('p, 's) agent \<Rightarrow> ('p, 's) agent \<Rightarrow> bool"
  for E
where
  background:
    "client_step (en_backoff E) (EventTypeString (en_codec E)) (ag_rt a) r \<Longrightarrow>
     rt_phase r = rt_phase (ag_rt a) \<Longrightarrow> log_consumed r = log_consumed (ag_rt a) \<Longrightarrow> agent_step E a (a\<lparr>ag_rt := r\<rparr>)"
| supervise:
    "ag_calls a = [] \<Longrightarrow> client_step (en_backoff E) (EventTypeString (en_codec E)) (ag_rt a) r \<Longrightarrow> rt_phase r \<noteq> rt_phase (ag_rt a) \<Longrightarrow>
     agent_step E a (a\<lparr>ag_rt := r,
       ag_calls := (if cl_connected (rt_client r) \<noteq> cl_connected (rt_client (ag_rt a))
                    then onConnectedChange a (cl_connected (rt_client r)) else [])\<rparr>)"
| part_readiness:
    "ag_calls a = PReadiness v # cs \<Longrightarrow>
     agent_step E a (a\<lparr>ag_readiness := map_option (tracker_SetConnected (ag_now a) v) (ag_readiness a), ag_calls := cs\<rparr>)"
| part_gate:
    "ag_calls a = PGate v # cs \<Longrightarrow> agent_step E a (a\<lparr>ag_disp := SetConnected v (ag_disp a), ag_calls := cs\<rparr>)"
| part_streamer:
    "ag_calls a = PStreamerReset # cs \<Longrightarrow> agent_step E a (a\<lparr>ag_streamer := map_option Reset (ag_streamer a), ag_calls := cs\<rparr>)"
| part_scanner:
    "ag_calls a = PScannerReset # cs \<Longrightarrow> ag_scanner a = Some s \<Longrightarrow> scanner_reset (en_scan E) s = (s1, es, chk) \<Longrightarrow>
     agent_step E a (a\<lparr>ag_scanner := Some s1, ag_calls := map (\<lambda>e. PScannerSend e chk) es @ cs\<rparr>)"
| part_scanner_sent:
    "ag_calls a = PScannerSend e chk # cs \<Longrightarrow> has_room (ag_rt a) \<Longrightarrow>
     agent_step E a (a\<lparr>ag_rt := send_now e (ag_rt a), ag_scanner := map_option (\<lambda>s. s\<lparr>sc_lastSum := chk\<rparr>) (ag_scanner a), ag_calls := cs\<rparr>)"
| part_scanner_cancelled:
    "ag_calls a = PScannerSend e chk # cs \<Longrightarrow> ag_cancelled a \<Longrightarrow> agent_step E a (a\<lparr>ag_calls := cs\<rparr>)"
| main_take:
    "ag_main a = [] \<Longrightarrow> cl_events (rt_client (ag_rt a)) = ev # evs \<Longrightarrow>
     dispatch (en_codec E) (en_packAck E) outbox (\<lambda>es. (None, es @ en_replay E)) ev (ag_disp a) (ag_state a) [] = (d, s, outs) \<Longrightarrow>
     agent_step E a (a\<lparr>ag_rt := (ag_rt a)\<lparr>rt_client := (rt_client (ag_rt a))\<lparr>cl_events := evs\<rparr>, log_consumed := log_consumed (ag_rt a) @ [ev]\<rparr>,
       ag_disp := d, ag_state := s, ag_main := outs\<rparr>)"
| main_send:
    "ag_main a = e # es \<Longrightarrow> has_room (ag_rt a) \<Longrightarrow> agent_step E a (a\<lparr>ag_rt := send_now e (ag_rt a), ag_main := es\<rparr>)"
| main_cancelled:
    "ag_main a = e # es \<Longrightarrow> ag_cancelled a \<Longrightarrow> agent_step E a (a\<lparr>ag_main := es\<rparr>)"
| observed:
    "ag_scanner a = Some s \<Longrightarrow> agent_step E a (a\<lparr>ag_scanner := Some (s\<lparr>sc_current := fmupd k it (sc_current s)\<rparr>)\<rparr>)"
| status_sent:
    "ag_streamer a = Some s \<Longrightarrow> agent_step E a (a\<lparr>ag_streamer := Some (emit_commit k chk s)\<rparr>)"
| cancel:
    "agent_step E a (a\<lparr>ag_cancelled := True\<rparr>)"
| tick:
    "ag_now a \<le> t \<Longrightarrow> agent_step E a (a\<lparr>ag_now := t\<rparr>)"

section \<open>Answers\<close>

text \<open>The event types the main loop hands to the dispatcher.\<close>

definition routed :: "'p Codec \<Rightarrow> 'p Event \<Rightarrow> bool" where
  "routed cd ev \<longleftrightarrow>
     EventTypeFromString cd (ev_Type ev) \<in>
       {EVENT_TYPE_APPLY_BUNDLE, EVENT_TYPE_REGISTER_ARGOCD_APP, EVENT_TYPE_INVOKE_ACTION, EVENT_TYPE_RENDER_RGD_INSTANCE,
        EVENT_TYPE_GITOPS_CONFIG_UPDATE}
     \<or> (EventTypeFromString cd (ev_Type ev) \<noteq> EVENT_TYPE_RESYNC_REQUEST \<and> IsBridgeCommandType (ev_Type ev))"

lemma dispatch_routed: "routed cd ev \<Longrightarrow> dispatch cd pk Send replay ev d s w = handleCommand cd pk Send ev d s w"
  by (auto simp: routed_def dispatch_def split: EventType.split)

lemma dispatch_dropped:
  "\<not> routed cd ev \<Longrightarrow> EventTypeFromString cd (ev_Type ev) \<noteq> EVENT_TYPE_RESYNC_REQUEST \<Longrightarrow>
     dispatch cd pk Send replay ev d s w = (d, s, w)"
  by (auto simp: routed_def dispatch_def split: EventType.split)

text \<open>Acks are kept under the id they carry.\<close>

definition acks_named :: "('p, 's) Dispatcher \<Rightarrow> bool" where
  "acks_named d \<longleftrightarrow> (\<forall>c ack. d_seen d c = Some ack \<longrightarrow> ca_CommandId ack = c)"

lemma event_id_not_Nil: "event_id cd evo = Some c \<Longrightarrow> c \<noteq> []"
  by (auto simp: event_id_def commandIDOf_def decoded_id_def bridgeCommandID_def requireID_def
      split: option.splits sum.splits EventType.splits if_splits)

lemma record_ack_named:
  "record_ack c ack d w = (r, d', w') \<Longrightarrow> ca_CommandId ack = c \<Longrightarrow> acks_named d \<Longrightarrow> acks_named d'"
  by (frule record_ack_seen) (auto simp: acks_named_def split: if_splits)

text \<open>The answer of the dispatcher to a command with an id.\<close>

lemma HandleEvent_named:
  assumes "event_id cd evo = Some c" and "acks_named d" and "HandleEvent cd evo d s = (r, d', s')"
  shows "acks_named d' \<and> (case r of Inl e \<Rightarrow> \<exists>e'. e = CommandError c e' | Inr ack \<Rightarrow> ca_CommandId ack = c)"
proof (cases rule: HandleEvent_cases [OF assms(1), of d s])
  case (1 ack)
  with assms show ?thesis by (auto simp: acks_named_def)
next
  case (4 ack w1)
  with assms(2,3) show ?thesis
    by (cases r) (auto dest: record_ack_named record_ack_error record_ack_ok)
qed (use assms in auto)

text \<open>Errors of the protobuf library are not command errors.\<close>

definition decode_errors_plain :: "'p Codec \<Rightarrow> bool" where
  "decode_errors_plain cd \<longleftrightarrow>
     (\<forall>p e. dec_ApplyBundle cd p = Inl e \<or> dec_RegisterArgoCDApp cd p = Inl e \<or> dec_InvokeAction cd p = Inl e
        \<or> dec_RenderRgdInstance cd p = Inl e \<or> dec_SecretStoreApply cd p = Inl e \<or> dec_SecretStoreDelete cd p = Inl e
        \<or> dec_GitopsConfigUpdate cd p = Inl e \<or> dec_Struct cd p = Inl e \<longrightarrow> as_command_error e = None)"

lemma as_command_error_Wrapf [simp]: "as_command_error (Wrapf f xs e) = as_command_error e"
  by (simp add: as_command_error_def)

lemma as_command_error_Errorf [simp]: "as_command_error (Errorf f xs) = None"
  by (simp add: as_command_error_def)

lemma commandIDOf_error: "decode_errors_plain cd \<Longrightarrow> commandIDOf cd ty p = Inl e \<Longrightarrow> as_command_error e = None"
  by (auto simp: decode_errors_plain_def commandIDOf_def decoded_id_def bridgeCommandID_def requireID_def
      split: sum.splits EventType.splits if_splits)

lemma HandleEvent_unnamed:
  assumes "event_id cd (Some ev) = None" and "decode_errors_plain cd"
  obtains e where "HandleEvent cd (Some ev) d s = (Inl e, d, s)" and "as_command_error e = None"
  using assms commandIDOf_error [OF assms(2)]
  by (auto simp: event_id_def HandleEvent_def split: option.splits sum.splits)


section \<open>Invariants of the running agent\<close>

lemma send_now_steps:
  assumes "has_room r"
  shows "(client_step b ets)\<^sup>*\<^sup>* r (send_now ev r)"
proof -
  obtain e c where st: "stamp ev (rt_client r) = (e, c)" by fastforce
  let ?r1 = "r\<lparr>rt_client := c, rt_blocked := rt_blocked r @ [e]\<rparr>"
  have "cl_sendCh c = cl_sendCh (rt_client r)" using st by (auto simp: stamp_def Let_def)
  then have "client_step b ets ?r1 (?r1\<lparr>rt_client := enqueue e c, rt_blocked := rt_blocked r @ [], log_enqueued := log_enqueued r @ [e]\<rparr>)"
    using Send_queued [of ?r1 "rt_blocked r" e "[]" b ets] assms by (simp add: has_room_def)
  moreover have "client_step b ets r ?r1" by (rule call_Send [OF st])
  moreover have "?r1\<lparr>rt_client := enqueue e c, rt_blocked := rt_blocked r @ [], log_enqueued := log_enqueued r @ [e]\<rparr> = send_now ev r"
    using st by (cases r) (simp add: send_now_def)
  ultimately show ?thesis by (metis converse_rtranclp_into_rtranclp r_into_rtranclp)
qed

text \<open>The stream client inside the agent takes no other steps than the client alone.\<close>

lemma agent_step_client:
  assumes "agent_step E a a'"
  shows "(client_step (en_backoff E) (EventTypeString (en_codec E)))\<^sup>*\<^sup>* (ag_rt a) (ag_rt a')"
  using assms
proof cases
  case (main_take ev evs d s outs)
  then show ?thesis using consumed [of "ag_rt a" ev evs] by auto
qed (auto simp: send_now_steps)

lemma agent_client:
  assumes "(agent_step E)\<^sup>*\<^sup>* a a'"
  shows "(client_step (en_backoff E) (EventTypeString (en_codec E)))\<^sup>*\<^sup>* (ag_rt a) (ag_rt a')"
  using assms by (induction rule: rtranclp_induct) (auto dest: agent_step_client)

lemma send_now_simps [simp]:
  "rt_phase (send_now ev r) = rt_phase r" "cl_connected (rt_client (send_now ev r)) = cl_connected (rt_client r)"
  "rt_pump (send_now ev r) = rt_pump r" "rt_stale_pumps (send_now ev r) = rt_stale_pumps r"
  by (simp_all add: send_now_def stamp_def enqueue_def Let_def)

lemma HandleEvent_connected: "HandleEvent cd evo d s = (r, d', s') \<Longrightarrow> d_connected d' = d_connected d"
  by (auto simp: HandleEvent_def record_ack_def Let_def split: option.splits sum.splits if_splits prod.splits)

lemma dispatch_connected: "dispatch cd pk Send replay ev d s w = (d', s', w') \<Longrightarrow> d_connected d' = d_connected d"
  by (auto simp: dispatch_def handleCommand_def Let_def dest: HandleEvent_connected
      split: EventType.splits if_splits prod.splits sum.splits)

text \<open>The gate and the readiness follow the connection, late by what is left of the callback.\<close>

definition connected :: "('p, 's) agent \<Rightarrow> bool" where
  "connected a = cl_connected (rt_client (ag_rt a))"

fun gate_calls :: "'p callback_part list \<Rightarrow> bool list" where
  "gate_calls [] = []"
| "gate_calls (PGate v # cs) = v # gate_calls cs"
| "gate_calls (_ # cs) = gate_calls cs"

fun readiness_calls :: "'p callback_part list \<Rightarrow> bool list" where
  "readiness_calls [] = []"
| "readiness_calls (PReadiness v # cs) = v # readiness_calls cs"
| "readiness_calls (_ # cs) = readiness_calls cs"

definition gate_inv :: "('p, 's) agent \<Rightarrow> bool" where
  "gate_inv a \<longleftrightarrow>
     gate_calls (ag_calls a) = (if d_connected (ag_disp a) = connected a then [] else [connected a])"

definition readiness_inv :: "('p, 's) agent \<Rightarrow> bool" where
  "readiness_inv a \<longleftrightarrow>
     (\<forall>t. ag_readiness a = Some t \<longrightarrow>
        tr_armed t \<and> readiness_calls (ag_calls a) = (if tr_connected t = connected a then [] else [connected a]))"

lemma sends_no_calls [simp]:
  "gate_calls (map (\<lambda>e. PScannerSend e chk) es @ cs) = gate_calls cs"
  "readiness_calls (map (\<lambda>e. PScannerSend e chk) es @ cs) = readiness_calls cs"
  by (induction es) simp_all

lemma onConnectedChange_calls [simp]:
  "gate_calls (onConnectedChange a v) = [v]"
  "readiness_calls (onConnectedChange a v) = (if ag_readiness a \<noteq> None then [v] else [])"
  by (simp_all add: onConnectedChange_def)

lemma gate_calls_in: "v \<in> set (gate_calls cs) \<longleftrightarrow> PGate v \<in> set cs"
  by (induction cs rule: gate_calls.induct) auto

lemma connected_same:
  assumes "phase_inv r" and "client_step b ets r r'" and "rt_phase r' = rt_phase r"
  shows "cl_connected (rt_client r') = cl_connected (rt_client r)"
  using assms phase_inv_step [OF assms(2,1)] by (simp add: phase_inv_def)

lemma gate_inv_step:
  assumes "agent_step E a a'" and "phase_inv (ag_rt a)" and "gate_inv a"
  shows "gate_inv a'"
  using assms(1)
proof cases
  case (background r)
  then have "connected a' = connected a" using connected_same [OF assms(2)] by (simp add: connected_def)
  with background assms(3) show ?thesis by (simp add: gate_inv_def)
next
  case (main_take ev evs d s outs)
  with assms(3) show ?thesis using dispatch_connected [OF main_take(4)] by (simp add: gate_inv_def connected_def)
qed (use assms(3) in \<open>auto simp: gate_inv_def connected_def SetConnected_def split: if_splits\<close>)

lemma readiness_inv_step:
  assumes "agent_step E a a'" and "phase_inv (ag_rt a)" and "readiness_inv a"
  shows "readiness_inv a'"
  using assms(1)
proof cases
  case (background r)
  then have "connected a' = connected a" using connected_same [OF assms(2)] by (simp add: connected_def)
  with background assms(3) show ?thesis by (simp add: readiness_inv_def)
next
  case (supervise r)
  show ?thesis
    unfolding readiness_inv_def
  proof (intro allI impI)
    fix t assume "ag_readiness a' = Some t"
    with supervise assms(3) show "tr_armed t \<and> readiness_calls (ag_calls a') = (if tr_connected t = connected a' then [] else [connected a'])"
      by (simp add: readiness_inv_def connected_def split: if_splits)
  qed
next
  case (part_readiness v cs)
  with assms(3) show ?thesis
    by (cases "ag_readiness a") (simp_all add: readiness_inv_def connected_def tracker_SetConnected_def Let_def split: if_splits)
qed (use assms(3) in \<open>simp_all add: readiness_inv_def connected_def\<close>)

lemma agent_reachable:
  assumes "(agent_step E)\<^sup>*\<^sup>* (agent_init E d s rd sr sc t0) a"
  shows "phase_inv (ag_rt a)" "gate_inv a" "readiness_inv a"
proof -
  let ?a0 = "agent_init E d s rd sr sc t0"
  have "phase_inv (ag_rt ?a0)" "gate_inv ?a0" "readiness_inv ?a0"
    by (auto simp: agent_init_def phase_inv_def gate_inv_def readiness_inv_def connected_def rt_init_def
        SetOnConnectedChange_def NewConnectClient_def SetConnected_def tracker_SetConnected_def Let_def)
  with assms have "phase_inv (ag_rt a) \<and> gate_inv a \<and> readiness_inv a"
  proof (induction rule: rtranclp_induct)
    case (step y z)
    have "phase_inv (ag_rt z)"
      using client_invariant [OF agent_step_client [OF step(2)], where I = phase_inv] step phase_inv_step by blast
    with step show ?case by (blast intro: gate_inv_step readiness_inv_step)
  qed simp
  then show "phase_inv (ag_rt a)" "gate_inv a" "readiness_inv a" by simp_all
qed


section \<open>A starved reconnect\<close>

text \<open>
  The supervising goroutine waits, inside the callback of a new session, for room in a full queue
  that nobody drains: the send pump of the session is not started yet and none is left over.
\<close>

definition starved :: "('p, 's) agent \<Rightarrow> bool" where
  "starved a \<longleftrightarrow>
     (\<exists>hr. rt_phase (ag_rt a) = Notifying hr) \<and> (\<exists>e chk cs. ag_calls a = PScannerSend e chk # cs)
     \<and> \<not> has_room (ag_rt a) \<and> rt_stale_pumps (ag_rt a) = 0 \<and> \<not> rt_pump (ag_rt a)"

lemma starved_client:
  assumes "client_step b ets r r'" and "rt_phase r' = rt_phase r" and "rt_phase r = Notifying hr" and "\<not> has_room r"
    and "rt_stale_pumps r = 0" and "\<not> rt_pump r"
  shows "cl_sendCh (rt_client r') = cl_sendCh (rt_client r) \<and> log_drained r' = log_drained r \<and> rt_stale_pumps r' = 0 \<and> \<not> rt_pump r'"
  using assms by cases (auto simp: has_room_def stamp_def end_session_def Let_def)

lemma starved_step:
  assumes "agent_step E a a'" and "starved a" and "\<not> ag_cancelled a"
  shows "ag_cancelled a' \<or> (starved a' \<and> log_drained (ag_rt a') = log_drained (ag_rt a))"
  using assms(1)
proof cases
  case (background r)
  with assms(2) starved_client [OF background(2,3)] show ?thesis
    by (auto simp: starved_def has_room_def)
qed (use assms(2,3) in \<open>auto simp: starved_def has_room_def\<close>)

lemma starved_forever:
  assumes "(agent_step E)\<^sup>*\<^sup>* a a'" and "starved a"
  shows "ag_cancelled a' \<or> (starved a' \<and> log_drained (ag_rt a') = log_drained (ag_rt a))"
  using assms(1)
proof (induction rule: rtranclp_induct)
  case (step y z)
  have "ag_cancelled y \<Longrightarrow> ag_cancelled z" using step(2) by cases auto
  with step starved_step [OF step(2)] show ?case by metis
qed (use assms(2) in simp)

lemma send_now_queue: "cl_sendCh (rt_client (send_now ev r)) = cl_sendCh (rt_client r) @ [\<lparr>ob_Event = ev, ob_Sequence = cl_seq (rt_client r) + 1\<rparr>]"
  by (simp add: send_now_def stamp_def enqueue_def Let_def)

lemma background_send:
  assumes "has_room (ag_rt a)"
  shows "(agent_step E)\<^sup>*\<^sup>* a (a\<lparr>ag_rt := send_now ev (ag_rt a)\<rparr>)"
proof -
  let ?R = "client_step (en_backoff E) (EventTypeString (en_codec E))"
  obtain e c where st: "stamp ev (rt_client (ag_rt a)) = (e, c)" by fastforce
  let ?r1 = "(ag_rt a)\<lparr>rt_client := c, rt_blocked := rt_blocked (ag_rt a) @ [e]\<rparr>"
  have "cl_sendCh c = cl_sendCh (rt_client (ag_rt a))" using st by (auto simp: stamp_def Let_def)
  then have "?R ?r1 (?r1\<lparr>rt_client := enqueue e c, rt_blocked := rt_blocked (ag_rt a) @ [], log_enqueued := log_enqueued (ag_rt a) @ [e]\<rparr>)"
    using Send_queued [of ?r1 "rt_blocked (ag_rt a)" e "[]"] assms by (simp add: has_room_def)
  also have "?r1\<lparr>rt_client := enqueue e c, rt_blocked := rt_blocked (ag_rt a) @ [], log_enqueued := log_enqueued (ag_rt a) @ [e]\<rparr> = send_now ev (ag_rt a)"
    using st by (cases "ag_rt a") (simp add: send_now_def)
  finally have "agent_step E (a\<lparr>ag_rt := ?r1\<rparr>) (a\<lparr>ag_rt := ?r1, ag_rt := send_now ev (ag_rt a)\<rparr>)"
    by (intro agent_step.background) (simp_all add: send_now_def stamp_def Let_def)
  moreover have "agent_step E a (a\<lparr>ag_rt := ?r1\<rparr>)"
    by (rule agent_step.background) (use call_Send [OF st] in simp_all)
  ultimately show ?thesis by (simp add: converse_rtranclp_into_rtranclp)
qed

lemma background_fill:
  assumes "cl_sendCh (rt_client (ag_rt a)) = []" and "n \<le> sendCh_cap"
  shows "(agent_step E)\<^sup>*\<^sup>* a (a\<lparr>ag_rt := (send_now ev ^^ n) (ag_rt a)\<rparr>)
    \<and> length (cl_sendCh (rt_client ((send_now ev ^^ n) (ag_rt a)))) = n"
  using assms(2)
proof (induction n)
  case (Suc n)
  let ?a = "a\<lparr>ag_rt := (send_now ev ^^ n) (ag_rt a)\<rparr>"
  have "has_room (ag_rt ?a)" using Suc by (simp add: has_room_def)
  from background_send [OF this, of E ev] Suc show ?case
    by (auto simp: send_now_queue intro: rtranclp_trans)
qed (use assms(1) in simp)

lemma fill_simps [simp]:
  "rt_phase ((send_now ev ^^ n) r) = rt_phase r" "cl_connected (rt_client ((send_now ev ^^ n) r)) = cl_connected (rt_client r)"
  "rt_pump ((send_now ev ^^ n) r) = rt_pump r" "rt_stale_pumps ((send_now ev ^^ n) r) = rt_stale_pumps r"
  by (induction n) simp_all

lemma starved_reachable:
  assumes "scanner_reset (en_scan E) sc = (s1, [e], chk)"
  shows "\<exists>a. (agent_step E)\<^sup>*\<^sup>* (agent_init E d s (Some tr) (Some sr) (Some sc) t0) a \<and> starved a
    \<and> d_connected (ag_disp a) \<and> (\<exists>t. ag_readiness a = Some t \<and> tr_connected t)"
proof -
  let ?a0 = "agent_init E d s (Some tr) (Some sr) (Some sc) t0" and ?S = "(agent_step E)\<^sup>*\<^sup>*"
  define r where "r = (send_now e ^^ sendCh_cap) (ag_rt ?a0)"
  define a1 where "a1 = ?a0\<lparr>ag_rt := r\<rparr>"
  define hr where "hr = \<lparr>hr_SessionId = [], hr_ResyncRequired = False, hr_DesiredAgentVersion = []\<rparr>"
  define a2 where "a2 = a1\<lparr>ag_rt := r\<lparr>rt_client := setConnected True (rt_client r), rt_phase := Notifying hr\<rparr>,
    ag_calls := [PReadiness True, PGate True, PStreamerReset, PScannerReset]\<rparr>"
  have init: "rt_phase (ag_rt ?a0) = Connecting" "\<not> cl_connected (rt_client (ag_rt ?a0))" "cl_sendCh (rt_client (ag_rt ?a0)) = []"
    "rt_stale_pumps (ag_rt ?a0) = 0" "\<not> rt_pump (ag_rt ?a0)"
    by (simp_all add: agent_init_def rt_init_def SetOnConnectedChange_def NewConnectClient_def)
  have fill: "?S ?a0 a1" "length (cl_sendCh (rt_client r)) = sendCh_cap"
    using background_fill [OF init(3), of sendCh_cap E e] by (simp_all add: r_def a1_def)
  have rphase: "rt_phase r = Connecting" "\<not> cl_connected (rt_client r)" "rt_stale_pumps r = 0" "\<not> rt_pump r"
    using init by (simp_all add: r_def)
  have "agent_step E a1 a2"
    using agent_step.supervise [of a1 E "r\<lparr>rt_client := setConnected True (rt_client r), rt_phase := Notifying hr\<rparr>"]
      accepted [of r "en_backoff E" "EventTypeString (en_codec E)" hr] rphase
    by (simp add: a1_def a2_def agent_init_def onConnectedChange_def)
  note fill(1) this
  moreover define a3 where "a3 = a2\<lparr>ag_readiness := map_option (tracker_SetConnected (ag_now a2) True) (ag_readiness a2),
    ag_calls := [PGate True, PStreamerReset, PScannerReset]\<rparr>"
  have "agent_step E a2 a3" unfolding a3_def by (rule agent_step.part_readiness) (simp add: a2_def)
  moreover define a4 where "a4 = a3\<lparr>ag_disp := SetConnected True (ag_disp a3), ag_calls := [PStreamerReset, PScannerReset]\<rparr>"
  have "agent_step E a3 a4" unfolding a4_def by (rule agent_step.part_gate) (simp add: a3_def)
  moreover define a5 where "a5 = a4\<lparr>ag_streamer := map_option Reset (ag_streamer a4), ag_calls := [PScannerReset]\<rparr>"
  have "agent_step E a4 a5" unfolding a5_def by (rule agent_step.part_streamer) (simp add: a4_def)
  moreover define a6 where "a6 = a5\<lparr>ag_scanner := Some s1, ag_calls := [PScannerSend e chk]\<rparr>"
  have "agent_step E a5 a6"
    using agent_step.part_scanner [OF _ _ assms, of a5 "[]"] by (simp add: a6_def a5_def a4_def a3_def a2_def a1_def agent_init_def)
  ultimately have "?S ?a0 a6" by (meson rtranclp.rtrancl_into_rtrancl)
  moreover have "starved a6"
    using fill(2) rphase by (simp add: starved_def has_room_def a6_def a5_def a4_def a3_def a2_def)
  moreover have "d_connected (ag_disp a6)" by (simp add: a6_def a5_def a4_def SetConnected_def)
  moreover have "\<exists>t. ag_readiness a6 = Some t \<and> tr_connected t"
    by (simp add: a6_def a5_def a4_def a3_def a2_def a1_def agent_init_def tracker_SetConnected_def)
  ultimately show ?thesis by blast
qed


section \<open>Properties\<close>



text \<open>
  C15. A reconnect can starve the agent for good: with a non-empty addon inventory there is a run of the
  agent that, after \<open>256\<close> events queued while the stream was down, reaches a new session whose
  callback waits for room in the queue; from then on, until the agent is shut down, no step ever
  sends an event or starts the session, while the gate is open and the readiness probe passes.
\<close>

theorem reconnect_starves_agent:
  assumes "scanner_reset (en_scan E) sc = (s1, [e], chk)"
  shows "\<exists>a. (agent_step E)\<^sup>*\<^sup>* (agent_init E d s (Some tr) (Some sr) (Some sc) t0) a
    \<and> d_connected (ag_disp a) \<and> (\<exists>t. ag_readiness a = Some t \<and> (\<forall>now. Check now t = None))
    \<and> (\<forall>a'. (agent_step E)\<^sup>*\<^sup>* a a' \<longrightarrow>
         ag_cancelled a' \<or> ((\<exists>hr. rt_phase (ag_rt a') = Notifying hr) \<and> log_drained (ag_rt a') = log_drained (ag_rt a)))"
proof -
  obtain a t where a: "(agent_step E)\<^sup>*\<^sup>* (agent_init E d s (Some tr) (Some sr) (Some sc) t0) a" "starved a" "d_connected (ag_disp a)"
    and t: "ag_readiness a = Some t" "tr_connected t"
    using starved_reachable [OF assms, of d s tr sr t0] by blast
  moreover have "\<forall>now. Check now t = None" using t(2) by (simp add: Check_def)
  moreover have "ag_cancelled a' \<or> ((\<exists>hr. rt_phase (ag_rt a') = Notifying hr) \<and> log_drained (ag_rt a') = log_drained (ag_rt a))"
    if "(agent_step E)\<^sup>*\<^sup>* a a'" for a'
    using starved_forever [OF that a(2)] by (auto simp: starved_def)
  ultimately show ?thesis by blast
qed


text \<open>
  C31. Secret-store commands never reach their handlers: \<open>configure\<close> registers handlers for them, but
  the main loop drops the events without running anything and without an answer.
\<close>

theorem secret_store_commands_dropped:
  assumes "configure E c (Some d0) ty tenant redeemer w = Inr (d, s)"
    and "EventTypeFromString (ge_codec E) (ev_Type ev) = t" and "t \<in> {EVENT_TYPE_SECRET_STORE_APPLY, EVENT_TYPE_SECRET_STORE_DELETE}"
    and "\<not> IsBridgeCommandType (ev_Type ev)"
  shows "(\<exists>h. find_handler (ge_codec E) d (ev_Type ev) = Some h) \<and> dispatch (ge_codec E) pk Send replay ev d s es = (d, s, es)"
proof
  obtain loaded j where "d_handlers d = d_handlers (register_handlers E c redeemer d0)"
    using assms(1) by (auto simp: configure_def AttachJournal_def Let_def split: if_splits prod.splits sum.splits)
  then show "\<exists>h. find_handler (ge_codec E) d (ev_Type ev) = Some h"
    using assms(2,3) by (auto simp: find_handler_def register_handlers_def Let_def Register_def RegisterBridge_def split: option.split)
  show "dispatch (ge_codec E) pk Send replay ev d s es = (d, s, es)"
    using assms(2-4) by (intro dispatch_dropped) (auto simp: routed_def)
qed


section \<open>Witnesses\<close>

definition ctl_scan :: "(string Event list, string) scan_env" where
  "ctl_scan =
     \<lparr>se_order = (\<lambda>w m. sorted_list_of_set (fset (fmdom m))), se_json = (\<lambda>xs. ''json''), se_H = (\<lambda>x. ''sum''), se_NewStruct = Inr,
      se_anyNew = (\<lambda>doc. Inr ''addons''), se_uuid = (\<lambda>w. ''u''), se_Send = outbox\<rparr>"

definition ctl_env :: "string agent_env" where
  "ctl_env =
     \<lparr>en_backoff = DefaultBackoff, en_codec = sample_codec, en_packAck = (\<lambda>ack. Inr (ca_CommandId ack)), en_scan = ctl_scan, en_replay = []\<rparr>"

definition ctl_agent :: "(string, nat) agent" where
  "ctl_agent = agent_init ctl_env NewDispatcher 0 (Some (NewStreamTracker (seconds 60))) (Some NewStreamer) None 0"

lemma sample_routed: "routed sample_codec (sample_event c)" "c \<noteq> [] \<Longrightarrow> event_id sample_codec (Some (sample_event c)) = Some c"
  by (simp_all add: routed_def sample_codec_def sample_event_def event_id_def commandIDOf_def decoded_id_def requireID_def)



definition stocked_scanner :: Scanner where
  "stocked_scanner = (NewScanner DefaultKnownAddons [''istio-system''])\<lparr>sc_current := fmupd ''istio-system/istiod'' sample_item fmempty\<rparr>"

lemma stocked_reset: "\<exists>s1 e chk. scanner_reset ctl_scan stocked_scanner = (s1, [e], chk)"
  by (simp add: scanner_reset_def report_def clear_sum_def stocked_scanner_def NewScanner_def ctl_scan_def report_items_def
      List.map_filter_simps send_report_def checksumOf_def outbox_def Let_def)

theorem reconnect_starves_agent_witness:
  "\<exists>a. (agent_step ctl_env)\<^sup>*\<^sup>*
         (agent_init ctl_env (NewDispatcher :: (string, nat) Dispatcher) 0 (Some (NewStreamTracker (seconds 60))) (Some NewStreamer) (Some stocked_scanner) 0) a
     \<and> d_connected (ag_disp a) \<and> (\<forall>a'. (agent_step ctl_env)\<^sup>*\<^sup>* a a' \<longrightarrow> ag_cancelled a' \<or> log_drained (ag_rt a') = log_drained (ag_rt a))"
proof -
  obtain s1 e chk where "scanner_reset (en_scan ctl_env) stocked_scanner = (s1, [e], chk)"
    using stocked_reset by (auto simp: ctl_env_def)
  from reconnect_starves_agent [OF this, of NewDispatcher 0 "NewStreamTracker (seconds 60)" NewStreamer 0] show ?thesis by blast
qed

definition ctl_config :: "kube_server GitOpsConfig" where
  "ctl_config =
     \<lparr>gop_Kube = mem_kube,
      gop_Dyn = \<lparr>dyn_Get = (\<lambda>r ns n w. (Inl EOF, w)), dyn_Create = (\<lambda>r ns ob w. (Some EOF, w)), dyn_Update = (\<lambda>r ns ob w. (Some EOF, w)),
                 dyn_Patch = (\<lambda>r ns n data w. (Some EOF, w))\<rparr>,
      gop_Git = \<lparr>CommitFiles = (\<lambda>t fs m w. (Inl EOF, w)), OpenPR = (\<lambda>t fs b ti bo w. (Inl EOF, w)), DeleteFiles = (\<lambda>t ps m w. (Inl EOF, w))\<rparr>,
      gop_BoundStateRepo = ''acme/state'', gop_StateRepo = ''acme/manual'', gop_StateRepoOrg = ''acme'', gop_Bundles = None, gop_RGDs = None,
      gop_ArgoCDMode = [], gop_ArgoCDNamespace = [], gop_ArgoCDManifests = [], gop_ArgoCDAPI = None, gop_StatusWatches = None,
      gop_AddonScanNamespaces = [], gop_JournalNamespace = ''agents''\<rparr>"

definition rebound_world :: kube_server where
  "rebound_world = registered_world(''agents'' := [''inari-agent-registration'' \<mapsto> (fmupd ''baseline-repo'' ''acme/new'' (data_of_creds sample_creds), 2)])"


definition secret_store_env :: "(string, kube_server) gitops_env" where
  "secret_store_env =
     \<lparr>ge_codec = sample_codec\<lparr>EventTypeFromString := (\<lambda>t. EVENT_TYPE_SECRET_STORE_APPLY)\<rparr>, ge_accessors = ref_accessors, ge_yaml = (\<lambda>ob. Inr []),
      ge_json = (\<lambda>ob. Inr []), ge_parse_url = (\<lambda>u. None), ge_Sscan = (\<lambda>t. (0, False)),
      ge_manifest = \<lparr>YAMLToJSON = Inr, UnmarshalObject = (\<lambda>t. Inr Map.empty)\<rparr>, ge_listDeployments = (\<lambda>w. (Inr [], w)), ge_install = (\<lambda>m ns w. (None, w)),
      ge_NewFetcher = (\<lambda>r w. (Inl EOF, w)), ge_order = sample_order, ge_encAck = sample_enc, ge_decAck = sample_dec\<rparr>"

theorem secret_store_commands_dropped_witness:
  "\<exists>d s. configure secret_store_env (ctl_config\<lparr>gop_JournalNamespace := []\<rparr>) (Some NewDispatcher) [] ''acme'' None registered_world = Inr (d, s)
     \<and> dispatch (ge_codec secret_store_env) (\<lambda>ack. Inr []) outbox (\<lambda>es. (None, es)) (sample_event ''c1'') d s [] = (d, s, [])"
proof -
  obtain d s where run: "configure secret_store_env (ctl_config\<lparr>gop_JournalNamespace := []\<rparr>) (Some NewDispatcher) [] ''acme'' None registered_world = Inr (d, s)"
    by (simp add: configure_def Let_def)
  have "EventTypeFromString (ge_codec secret_store_env) (ev_Type (sample_event ''c1'')) = EVENT_TYPE_SECRET_STORE_APPLY" by (simp add: secret_store_env_def)
  moreover have "\<not> IsBridgeCommandType (ev_Type (sample_event ''c1''))"
    by (simp add: IsBridgeCommandType_def RegisterArgoCDAppSetEventType_def RegisterArgoCDAppManifestEventType_def sample_event_def)
  ultimately show ?thesis
    using secret_store_commands_dropped [OF run, of "sample_event ''c1''" EVENT_TYPE_SECRET_STORE_APPLY "\<lambda>ack. Inr []" outbox "\<lambda>es. (None, es)" "[]"] run
    by auto
qed

end
