(* ===== verification/Tunnel_Relay.thy ===== *)
theory Tunnel_Relay
  imports Agent_Prelude "HOL-Library.Finite_Map"
begin

text \<open>
  The HTTP side of the kubectl tunnel (\<open>internal/tunnelagent/relay.go\<close>): how a request of the hub
  becomes a request to the tenant's API server, under the agent's own token.

  The network (dialing, TLS, the HTTP client, reading and writing messages) and the parser of
  URLs are parameters. Go iterates over the headers of a request in an unspecified order: it is the parameter \<open>order\<close>. The
  functions of \<open>net/http\<close> on header names are modelled here.
\<close>

section \<open>Header names (net/http)\<close>

text \<open>The bytes of a token, the ones a header name may contain.\<close>

definition is_token_char :: "char \<Rightarrow> bool" where
  "is_token_char c \<longleftrightarrow>
     is_digit c \<or> (CHR ''A'' \<le> c \<and> c \<le> CHR ''Z'') \<or> (CHR ''a'' \<le> c \<and> c \<le> CHR ''z'')
     \<or> c \<in> {CHR ''!'', CHR ''#'', CHR ''$'', CHR ''%'', CHR ''&'', CHR 0x27, CHR ''*'', CHR ''+'', CHR ''-'', CHR ''.'', CHR ''^'',
            CHR ''_'', CHR 0x60, CHR ''|'', CHR ''~''}"

text \<open>Upper case at the start and after a hyphen, lower case elsewhere.\<close>

fun canonical_from :: "bool \<Rightarrow> string \<Rightarrow> string" where
  "canonical_from upper [] = []"
| "canonical_from upper (c # cs) = (if upper then upper_char c else lower_char c) # canonical_from (c = CHR ''-'') cs"

definition CanonicalHeaderKey :: "string \<Rightarrow> string" where
  "CanonicalHeaderKey s = (if list_all is_token_char s then canonical_from True s else s)"

type_synonym header = "string \<Rightarrow> string list option"

definition header_Set :: "string \<Rightarrow> string \<Rightarrow> header \<Rightarrow> header" where
  "header_Set k v h = h(CanonicalHeaderKey k \<mapsto> [v])"

section \<open>Requests\<close>

record TunnelOpen =
  to_Method :: string
  to_Path :: string
  to_Headers :: "(string, string list) fmap"
  to_UpgradeExpected :: bool

record url =
  u_Scheme :: string
  u_Host :: string
  u_Hostname :: string
  u_Port :: string

record http_request =
  hq_Method :: string
  hq_URL :: url
  hq_Header :: header
  hq_Host :: string
  hq_Body :: bool

record http_response =
  hp_StatusCode :: int
  hp_Header :: header

text \<open>\<open>nw_NewRequest method target body\<close> is \<open>http.NewRequestWithContext\<close>: headers empty, host of the URL.\<close>

record 'w network =
  nw_Parse :: "string \<Rightarrow> url res"
  nw_NewRequest :: "string \<Rightarrow> string \<Rightarrow> bool \<Rightarrow> http_request res"
  nw_Do :: "http_request \<Rightarrow> 'w \<Rightarrow> http_response res \<times> 'w"
  nw_Dial :: "string \<Rightarrow> 'w \<Rightarrow> go_err option \<times> 'w"
  nw_Handshake :: "string \<Rightarrow> 'w \<Rightarrow> go_err option \<times> 'w"
  nw_Write :: "http_request \<Rightarrow> 'w \<Rightarrow> go_err option \<times> 'w"
  nw_ReadResponse :: "http_request \<Rightarrow> 'w \<Rightarrow> http_response res \<times> 'w"
  nw_Close :: "'w \<Rightarrow> 'w"

text \<open>\<open>rl_ServerName\<close> is the server name of the TLS configuration, empty when it has none.\<close>

record 'w Relay =
  rl_BaseURL :: string
  rl_BearerToken :: string
  rl_TokenFunc :: "('w \<Rightarrow> string) option"
  rl_ServerName :: string

text \<open>What the body of a result reads from, and whether the raw connection is open for writing.\<close>

datatype result_body = ResponseBody | RawConn | ClosingBody

record Result =
  rs_Status :: int
  rs_Header :: header
  rs_Body :: result_body
  rs_Upgraded :: bool

definition relay_token :: "'w Relay \<Rightarrow> 'w \<Rightarrow> string" where
  "relay_token r w = (case rl_TokenFunc r of None \<Rightarrow> rl_BearerToken r | Some f \<Rightarrow> f w)"

definition copy_header :: "(string, string list) fmap \<Rightarrow> string \<Rightarrow> header \<Rightarrow> header" where
  "copy_header hs k h = h(CanonicalHeaderKey k \<mapsto> (case fmlookup hs k of None \<Rightarrow> [] | Some vs \<Rightarrow> vs))"

definition applyHeaders ::
  "((string, string list) fmap \<Rightarrow> string list) \<Rightarrow> 'w Relay \<Rightarrow> TunnelOpen \<Rightarrow> 'w \<Rightarrow> http_request \<Rightarrow> http_request"
where
  "applyHeaders order r open w req =
     (let h1 = fold (copy_header (to_Headers open)) (order (to_Headers open)) (hq_Header req);
          h2 = header_Set ''Authorization'' (''Bearer '' @ relay_token r w) h1
      in req\<lparr>hq_Header := h2, hq_Host := (if hq_Host req = [] then u_Host (hq_URL req) else hq_Host req)\<rparr>)"

definition upgrade_addr :: "url \<Rightarrow> string" where
  "upgrade_addr u =
     (if u_Port u = [] then u_Host u @ (if u_Scheme u = ''https'' then '':443'' else '':80'') else u_Host u)"

text \<open>The TLS layer of an \<open>https\<close> URL; a failed handshake closes the connection.\<close>

definition secure_conn :: "'w network \<Rightarrow> 'w Relay \<Rightarrow> url \<Rightarrow> 'w \<Rightarrow> go_err option \<times> 'w" where
  "secure_conn N r u w =
     (if u_Scheme u = ''https'' then
        (case nw_Handshake N (if rl_ServerName r = [] then u_Hostname u else rl_ServerName r) w of
           (Some err, w1) \<Rightarrow> (Some (Wrapf ''tunnelagent: apiserver TLS handshake: %w'' [] err), nw_Close N w1)
         | (None, w1) \<Rightarrow> (None, w1))
      else (None, w))"

definition doUpgrade ::
  "'w network \<Rightarrow> ((string, string list) fmap \<Rightarrow> string list) \<Rightarrow> 'w Relay \<Rightarrow> string \<Rightarrow> TunnelOpen \<Rightarrow> 'w \<Rightarrow> Result res \<times> 'w"
where
  "doUpgrade N order r target open w =
     (case nw_Parse N target of
        Inl err \<Rightarrow> (Inl (Wrapf ''tunnelagent: parse request URL: %w'' [] err), w)
      | Inr u \<Rightarrow>
      case nw_Dial N (upgrade_addr u) w of
        (Some err, w1) \<Rightarrow> (Inl (Wrapf ''tunnelagent: dial apiserver: %w'' [] err), w1)
      | (None, w1) \<Rightarrow>
      case secure_conn N r u w1 of
        (Some err, w2) \<Rightarrow> (Inl err, w2)
      | (None, w2) \<Rightarrow>
      case nw_NewRequest N (to_Method open) target False of
        Inl err \<Rightarrow> (Inl (Wrapf ''tunnelagent: build upgrade request: %w'' [] err), nw_Close N w2)
      | Inr req \<Rightarrow>
      let req1 = applyHeaders order r open w2 req;
          req2 = req1\<lparr>hq_Header := header_Set ''Connection'' ''Upgrade'' (hq_Header req1)\<rparr>
      in case nw_Write N req2 w2 of
        (Some err, w3) \<Rightarrow> (Inl (Wrapf ''tunnelagent: write upgrade request: %w'' [] err), nw_Close N w3)
      | (None, w3) \<Rightarrow>
      case nw_ReadResponse N req2 w3 of
        (Inl err, w4) \<Rightarrow> (Inl (Wrapf ''tunnelagent: read upgrade response: %w'' [] err), nw_Close N w4)
      | (Inr resp, w4) \<Rightarrow>
          if hp_StatusCode resp = 101 then
            (Inr \<lparr>rs_Status = hp_StatusCode resp, rs_Header = hp_Header resp, rs_Body = RawConn, rs_Upgraded = True\<rparr>, w4)
          else
            (Inr \<lparr>rs_Status = hp_StatusCode resp, rs_Header = hp_Header resp, rs_Body = ClosingBody, rs_Upgraded = False\<rparr>, w4))"

text \<open>\<open>body\<close> tells whether the caller streams a request body.\<close>

definition relay_Do ::
  "'w network \<Rightarrow> ((string, string list) fmap \<Rightarrow> string list) \<Rightarrow> 'w Relay \<Rightarrow> TunnelOpen \<Rightarrow> bool \<Rightarrow> 'w \<Rightarrow> Result res \<times> 'w"
where
  "relay_Do N order r open body w =
     (let target = rl_BaseURL r @ to_Path open
      in case nw_Parse N target of
           Inl err \<Rightarrow> (Inl (Wrapf ''tunnelagent: parse request URL: %w'' [] err), w)
         | Inr _ \<Rightarrow>
             if to_UpgradeExpected open then doUpgrade N order r target open w
             else case nw_NewRequest N (to_Method open) target body of
               Inl err \<Rightarrow> (Inl (Wrapf ''tunnelagent: build request: %w'' [] err), w)
             | Inr req \<Rightarrow>
                 (case nw_Do N (applyHeaders order r open w req) w of
                    (Inl err, w1) \<Rightarrow> (Inl (Wrapf ''tunnelagent: apiserver request: %w'' [] err), w1)
                  | (Inr resp, w1) \<Rightarrow>
                      (Inr \<lparr>rs_Status = hp_StatusCode resp, rs_Header = hp_Header resp, rs_Body = ResponseBody, rs_Upgraded = False\<rparr>, w1)))"

section \<open>Folding of header names\<close>

definition lower_code :: "nat \<Rightarrow> nat" where
  "lower_code n = (if 65 \<le> n \<and> n \<le> 90 then n + 32 else n)"

definition upper_code :: "nat \<Rightarrow> nat" where
  "upper_code n = (if 97 \<le> n \<and> n \<le> 122 then n - 32 else n)"

lemma char_bound: "of_char c < (256 :: nat)"
  by (metis of_char_mod_256 mod_less_divisor zero_less_numeral)

lemma lower_char_code: "of_char (lower_char c) = lower_code (of_char c)"
  using char_bound [of c] by (simp add: lower_char_def lower_code_def less_eq_char_def)

lemma upper_char_code: "of_char (upper_char c) = upper_code (of_char c)"
  using char_bound [of c] by (auto simp: upper_char_def upper_code_def less_eq_char_def intro: mod_less)

lemma char_code_eq: "c = d \<longleftrightarrow> of_char c = (of_char d :: nat)"
  by simp

lemma lower_lower [simp]: "lower_char (lower_char c) = lower_char c" "lower_char (upper_char c) = lower_char c"
  unfolding char_code_eq lower_char_code upper_char_code by (auto simp: lower_code_def upper_code_def)

lemma ToLower_canonical_from: "ToLower (canonical_from b s) = ToLower s"
  by (induction b s rule: canonical_from.induct) (simp_all add: ToLower_def)

text \<open>The case of the bytes does not matter to the canonical form.\<close>

lemma token_code: "is_token_char c \<longleftrightarrow> of_char c \<in> ({48..57} \<union> {65..90} \<union> {97..122} \<union> {33, 35, 36, 37, 38, 39, 42, 43, 45, 46, 94, 95, 96, 124, 126} :: nat set)"
  unfolding is_token_char_def is_digit_def less_eq_char_def insert_iff empty_iff char_code_eq by auto

lemma token_lower: "lower_char c = lower_char d \<Longrightarrow> is_token_char c = is_token_char d"
  unfolding token_code char_code_eq lower_char_code by (auto simp: lower_code_def split: if_splits)

lemma upper_lower: "lower_char c = lower_char d \<Longrightarrow> upper_char c = upper_char d"
  unfolding char_code_eq lower_char_code upper_char_code by (auto simp: lower_code_def upper_code_def split: if_splits)

lemma hyphen_lower: "lower_char c = lower_char d \<Longrightarrow> (c = CHR ''-'') = (d = CHR ''-'')"
  unfolding char_code_eq lower_char_code by (auto simp: lower_code_def split: if_splits)

lemma canonical_fold: "ToLower s = ToLower t \<Longrightarrow> canonical_from b s = canonical_from b t"
proof (induction s arbitrary: t b)
  case (Cons c cs)
  then obtain d ds where "t = d # ds" "lower_char c = lower_char d" "ToLower cs = ToLower ds"
    by (cases t) (simp_all add: ToLower_def)
  then show ?case using Cons.IH [of ds] upper_lower [of c d] hyphen_lower [of c d] by simp
qed (simp add: ToLower_def)

lemma tokens_fold: "ToLower s = ToLower t \<Longrightarrow> list_all is_token_char s = list_all is_token_char t"
proof (induction s arbitrary: t)
  case (Cons c cs)
  then obtain d ds where "t = d # ds" "lower_char c = lower_char d" "ToLower cs = ToLower ds"
    by (cases t) (simp_all add: ToLower_def)
  then show ?case using Cons.IH [of ds] token_lower [of c d] by simp
qed (simp add: ToLower_def)

lemma CanonicalHeaderKey_fold:
  "EqualFold s t \<Longrightarrow> list_all is_token_char t \<Longrightarrow> CanonicalHeaderKey s = CanonicalHeaderKey t"
  using tokens_fold [of s t] canonical_fold [of s t True] by (simp add: EqualFold_def CanonicalHeaderKey_def)

lemma CanonicalHeaderKey_EqualFold: "EqualFold (CanonicalHeaderKey s) s"
  by (simp add: EqualFold_def CanonicalHeaderKey_def ToLower_canonical_from)


section \<open>The headers of a request\<close>

lemma copy_headers_keys:
  "fold (copy_header hs) ks h k = (if \<exists>x \<in> set ks. CanonicalHeaderKey x = k
     then Some (case fmlookup hs (last (filter (\<lambda>x. CanonicalHeaderKey x = k) ks)) of None \<Rightarrow> [] | Some vs \<Rightarrow> vs) else h k)"
  by (induction ks arbitrary: h) (auto simp: copy_header_def filter_empty_conv)

lemma canonical_constants:
  "list_all is_token_char ''Authorization''" "CanonicalHeaderKey ''Authorization'' = ''Authorization''"
  "CanonicalHeaderKey ''Connection'' = ''Connection''"
  by code_simp+

text \<open>Every name in the header that is a spelling of \<open>Authorization\<close> is its canonical one.\<close>

lemma applyHeaders_authorization:
  assumes "hq_Header (applyHeaders order r open w req) k = Some vs" and "EqualFold k ''Authorization''"
    and "hq_Header req = Map.empty"
  shows "k = ''Authorization'' \<and> vs = [''Bearer '' @ relay_token r w]"
proof (cases "k = ''Authorization''")
  case True
  with assms(1) show ?thesis by (simp add: applyHeaders_def header_Set_def canonical_constants Let_def)
next
  case False
  with assms obtain x where x: "x \<in> set (order (to_Headers open))" "CanonicalHeaderKey x = k"
    by (auto simp: applyHeaders_def header_Set_def canonical_constants copy_headers_keys Let_def split: if_splits)
  then have "EqualFold x ''Authorization''"
    using CanonicalHeaderKey_EqualFold [of x] assms(2) by (simp add: EqualFold_def)
  then have "CanonicalHeaderKey x = ''Authorization''"
    using CanonicalHeaderKey_fold [OF _ canonical_constants(1)] canonical_constants(2) by metis
  with x False show ?thesis by simp
qed


lemma applyHeaders_own: "hq_Header (applyHeaders order r open w req) ''Authorization'' = Some [''Bearer '' @ relay_token r w]"
  by (simp add: applyHeaders_def header_Set_def canonical_constants Let_def)

section \<open>Properties\<close>

text \<open>A request under the agent's own token and no other.\<close>

definition own_authorization :: "'w Relay \<Rightarrow> 'w \<Rightarrow> http_request \<Rightarrow> bool" where
  "own_authorization r w req \<longleftrightarrow>
     hq_Header req ''Authorization'' = Some [''Bearer '' @ relay_token r w]
     \<and> (\<forall>k. EqualFold k ''Authorization'' \<longrightarrow> k \<noteq> ''Authorization'' \<longrightarrow> hq_Header req k = None)"

definition same_when_own :: "'w Relay \<Rightarrow> 'w network \<Rightarrow> 'w network \<Rightarrow> bool" where
  "same_when_own r N N' \<longleftrightarrow>
     (\<forall>req w. own_authorization r w req \<longrightarrow> nw_Do N req w = nw_Do N' req w \<and> nw_Write N req w = nw_Write N' req w)
     \<and> nw_Parse N' = nw_Parse N \<and> nw_NewRequest N' = nw_NewRequest N \<and> nw_Dial N' = nw_Dial N \<and> nw_Handshake N' = nw_Handshake N
     \<and> nw_ReadResponse N' = nw_ReadResponse N \<and> nw_Close N' = nw_Close N"

text \<open>A new request has no headers yet.\<close>

definition new_request_laws :: "'w network \<Rightarrow> bool" where
  "new_request_laws N \<longleftrightarrow> (\<forall>m t b req. nw_NewRequest N m t b = Inr req \<longrightarrow> hq_Header req = Map.empty)"

lemma applied_own:
  assumes "hq_Header req = Map.empty"
  shows "own_authorization r w (applyHeaders order r open w req)"
  using applyHeaders_authorization [OF _ _ assms] applyHeaders_own unfolding own_authorization_def by (metis option.exhaust)

lemma upgraded_own:
  assumes "own_authorization r w req"
  shows "own_authorization r w (req\<lparr>hq_Header := header_Set ''Connection'' ''Upgrade'' (hq_Header req)\<rparr>)"
proof -
  have "\<not> EqualFold ''Connection'' ''Authorization''" by code_simp
  with assms show ?thesis by (auto simp: own_authorization_def header_Set_def canonical_constants)
qed

text \<open>
  C13. The hub cannot choose the identity of a request: whatever headers it sends, in whatever spelling
  and order, every request that leaves the agent carries exactly one authorization header, with the agent's own
  token. What the network would do with any other request has no influence on the outcome.
\<close>

theorem hub_cannot_authorize:
  assumes "new_request_laws N" and "same_when_own r N N'"
  shows "relay_Do N order r open body w = relay_Do N' order r open body w"
proof -
  let ?t = "rl_BaseURL r @ to_Path open"
  have same: "nw_Parse N' = nw_Parse N" "nw_NewRequest N' = nw_NewRequest N" "nw_Dial N' = nw_Dial N" "nw_Handshake N' = nw_Handshake N"
    "nw_ReadResponse N' = nw_ReadResponse N" "nw_Close N' = nw_Close N"
    using assms(2) by (simp_all add: same_when_own_def)
  have sent: "nw_Do N req u = nw_Do N' req u" "nw_Write N req u = nw_Write N' req u" if "own_authorization r u req" for req u
    using assms(2) that by (simp_all add: same_when_own_def)
  have own: "own_authorization r u (applyHeaders order r open u req)" if "nw_NewRequest N m t b = Inr req" for m t b req u
    using assms(1) that by (intro applied_own) (simp add: new_request_laws_def)
  have "doUpgrade N order r ?t open w = doUpgrade N' order r ?t open w"
    unfolding doUpgrade_def same secure_conn_def Let_def
    by (intro sum.case_cong prod.case_cong option.case_cong refl) (auto simp: sent own upgraded_own split: sum.split prod.split option.split)
  then show ?thesis
    unfolding relay_Do_def same Let_def by (auto simp: sent own split: sum.split prod.split)
qed

text \<open>The network calls as far as the number of open connections goes.\<close>

definition conn_laws :: "'w network \<Rightarrow> ('w \<Rightarrow> int) \<Rightarrow> bool" where
  "conn_laws N conns \<longleftrightarrow>
     (\<forall>a w. conns (snd (nw_Dial N a w)) = conns w + (if fst (nw_Dial N a w) = None then 1 else 0))
     \<and> (\<forall>w. conns (nw_Close N w) = conns w - 1) \<and> (\<forall>n w. conns (snd (nw_Handshake N n w)) = conns w)
     \<and> (\<forall>q w. conns (snd (nw_Write N q w)) = conns w) \<and> (\<forall>q w. conns (snd (nw_ReadResponse N q w)) = conns w)"

lemma conn_lawsD:
  assumes "conn_laws N conns"
  shows "nw_Dial N a w = (None, w') \<Longrightarrow> conns w' = conns w + 1" "nw_Dial N a w = (Some e, w') \<Longrightarrow> conns w' = conns w"
    "conns (nw_Close N w) = conns w - 1" "nw_Handshake N n w = (x, w') \<Longrightarrow> conns w' = conns w"
    "nw_Write N q w = (x, w') \<Longrightarrow> conns w' = conns w" "nw_ReadResponse N q w = (y, w') \<Longrightarrow> conns w' = conns w"
proof -
  have "conns (snd (nw_Dial N a w)) = conns w + (if fst (nw_Dial N a w) = None then 1 else 0)"
    using assms by (simp add: conn_laws_def)
  then show "nw_Dial N a w = (None, w') \<Longrightarrow> conns w' = conns w + 1" "nw_Dial N a w = (Some e, w') \<Longrightarrow> conns w' = conns w" by simp_all
  show "conns (nw_Close N w) = conns w - 1" using assms by (simp add: conn_laws_def)
  have "conns (snd (nw_Handshake N n w)) = conns w" "conns (snd (nw_Write N q w)) = conns w" "conns (snd (nw_ReadResponse N q w)) = conns w"
    using assms by (simp_all add: conn_laws_def)
  then show "nw_Handshake N n w = (x, w') \<Longrightarrow> conns w' = conns w" "nw_Write N q w = (x, w') \<Longrightarrow> conns w' = conns w"
    "nw_ReadResponse N q w = (y, w') \<Longrightarrow> conns w' = conns w" by simp_all
qed

lemma secure_conn_count:
  assumes "conn_laws N conns" and "secure_conn N r u w = (x, w')"
  shows "conns w' = conns w - (if x = None then 0 else 1)"
  using assms(2) by (auto simp: secure_conn_def conn_lawsD(3) [OF assms(1)] dest: conn_lawsD(4) [OF assms(1)]
      split: if_splits prod.splits option.splits)

text \<open>
  Connections to the API server are not leaked: a failed upgrade leaves as many open as before, a
  successful one exactly one more, and the result hands out the raw connection exactly when the
  server switched protocols.
\<close>

theorem upgrade_connection_accounted:
  assumes "conn_laws N conns" and "to_UpgradeExpected open" and "relay_Do N order r open body w = (res, w')"
  shows "case res of
      Inl e \<Rightarrow> conns w' = conns w
    | Inr x \<Rightarrow> conns w' = conns w + 1 \<and> (rs_Upgraded x \<longleftrightarrow> rs_Status x = 101) \<and> (rs_Upgraded x \<longleftrightarrow> rs_Body x = RawConn)"
  using assms(2,3) unfolding relay_Do_def doUpgrade_def Let_def
  by (auto simp: conn_lawsD(3) [OF assms(1)] split: sum.splits prod.splits option.splits if_splits
      dest!: conn_lawsD(1,2,5,6) [OF assms(1)] secure_conn_count [OF assms(1)])


section \<open>Witnesses\<close>

definition sample_url :: url where
  "sample_url = \<lparr>u_Scheme = ''https'', u_Host = ''kube'', u_Hostname = ''kube'', u_Port = []\<rparr>"

text \<open>A network that counts its connections; the server refuses the upgrade.\<close>

definition sample_net :: "int network" where
  "sample_net =
     \<lparr>nw_Parse = (\<lambda>t. Inr sample_url),
      nw_NewRequest = (\<lambda>m t b. Inr \<lparr>hq_Method = m, hq_URL = sample_url, hq_Header = Map.empty, hq_Host = ''kube'', hq_Body = b\<rparr>),
      nw_Do = (\<lambda>q w. (Inr \<lparr>hp_StatusCode = 200, hp_Header = hq_Header q\<rparr>, w)), nw_Dial = (\<lambda>a w. (None, w + 1)),
      nw_Handshake = (\<lambda>n w. (None, w)), nw_Write = (\<lambda>q w. (None, w)),
      nw_ReadResponse = (\<lambda>q w. (Inl EOF, w)), nw_Close = (\<lambda>w. w - 1)\<rparr>"

definition strict_net :: "'w Relay \<Rightarrow> 'w network \<Rightarrow> 'w network" where
  "strict_net r N =
     N\<lparr>nw_Do := (\<lambda>q w. if hq_Header q ''Authorization'' = Some [''Bearer '' @ relay_token r w] then nw_Do N q w else (Inl EOF, w)),
       nw_Write := (\<lambda>q w. if hq_Header q ''Authorization'' = Some [''Bearer '' @ relay_token r w] then nw_Write N q w else (Some EOF, w))\<rparr>"

definition sample_relay :: "int Relay" where
  "sample_relay = \<lparr>rl_BaseURL = ''https://kube'', rl_BearerToken = ''sa'', rl_TokenFunc = None, rl_ServerName = []\<rparr>"

definition sneaky_open :: "bool \<Rightarrow> TunnelOpen" where
  "sneaky_open up = \<lparr>to_Method = ''GET'', to_Path = ''/api'', to_Headers = fmupd ''aUTHORIZATION'' [''Bearer admin''] fmempty, to_UpgradeExpected = up\<rparr>"

definition sneaky_order :: "(string, string list) fmap \<Rightarrow> string list" where
  "sneaky_order hs = [''aUTHORIZATION'']"

theorem hub_cannot_authorize_witness:
  "relay_Do sample_net sneaky_order sample_relay (sneaky_open False) False 0 =
   relay_Do (strict_net sample_relay sample_net) sneaky_order sample_relay (sneaky_open False) False 0
   \<and> (\<exists>x. fst (relay_Do sample_net sneaky_order sample_relay (sneaky_open False) False 0) = Inr x \<and> rs_Header x ''Authorization'' = Some [''Bearer sa''])"
proof
  have "new_request_laws sample_net" by (simp add: new_request_laws_def sample_net_def)
  moreover have "same_when_own sample_relay sample_net (strict_net sample_relay sample_net)"
    by (simp add: same_when_own_def strict_net_def own_authorization_def)
  ultimately show "relay_Do sample_net sneaky_order sample_relay (sneaky_open False) False 0 =
     relay_Do (strict_net sample_relay sample_net) sneaky_order sample_relay (sneaky_open False) False 0"
    by (rule hub_cannot_authorize)
  show "\<exists>x. fst (relay_Do sample_net sneaky_order sample_relay (sneaky_open False) False 0) = Inr x \<and> rs_Header x ''Authorization'' = Some [''Bearer sa'']"
    by (simp add: relay_Do_def sample_net_def sneaky_open_def applyHeaders_own) (simp add: relay_token_def sample_relay_def)
qed

theorem upgrade_connection_accounted_witness:
  "\<exists>e. relay_Do sample_net sneaky_order sample_relay (sneaky_open True) False 7 = (Inl e, 7)"
proof -
  obtain e w' where run: "relay_Do sample_net sneaky_order sample_relay (sneaky_open True) False 7 = (Inl e, w')"
    by (simp add: relay_Do_def doUpgrade_def secure_conn_def sample_net_def sneaky_open_def Let_def)
  have "conn_laws sample_net (\<lambda>w. w)" by (simp add: conn_laws_def sample_net_def)
  from upgrade_connection_accounted [OF this _ run] run show ?thesis by (simp add: sneaky_open_def)
qed

end
