(* ===== verification/Tunnel_Agent.thy ===== *)
theory Tunnel_Agent
  imports Tunnel_Relay Stream_Client
begin

text \<open>
  The kubectl tunnel (\<open>internal/tunnelagent/handler.go\<close>, \<open>client.go\<close>): connections multiplexed over one
  stream to the hub. Every connection has a goroutine that runs it and one that pumps its inbound
  frames; the receive loop of the session hands messages to the handler, the send pump drains the
  session's queue, and the end of a session resets all connections.

  All of them interleave in the step relation \<open>tunnel_step\<close>. Connections are numbered in the order
  they are opened; \<open>tn_reg\<close> is the handler's registry. Fields whose names start with \<open>log_\<close> only
  record what happened. What the relay answers, what the API server's body holds and how reads
  split it are left open.
\<close>

section \<open>Messages and limits (handler.go)\<close>

record TunnelFrame =
  tf_Data :: string
  tf_HalfClose :: bool

text \<open>An open result has a status with headers, or an error.\<close>

datatype tunnel_payload =
    POpen "TunnelOpen option"
  | PFrame "TunnelFrame option"
  | PClose string
  | POpenResult int header
  | POpenError go_err
  | PPing
  | PUnset

record TunnelMessage =
  tm_ConnectionId :: string
  tm_Payload :: tunnel_payload

definition DefaultFrameSize :: int where
  "DefaultFrameSize = 32 * 1024"

definition DefaultMaxConnBytes :: int where
  "DefaultMaxConnBytes = 2 ^ 30"

definition DefaultMaxConnLifetime :: int where
  "DefaultMaxConnLifetime = seconds (60 * 60)"

record handler_config =
  hc_FrameSize :: int
  hc_MaxConnBytes :: int
  hc_MaxConnLifetime :: int

definition frame_size :: "handler_config \<Rightarrow> int" where
  "frame_size c = (if hc_FrameSize c \<le> 0 then DefaultFrameSize else hc_FrameSize c)"

definition max_bytes :: "handler_config \<Rightarrow> int" where
  "max_bytes c = (if hc_MaxConnBytes c \<le> 0 then DefaultMaxConnBytes else hc_MaxConnBytes c)"

definition conn_lifetime :: "handler_config \<Rightarrow> int" where
  "conn_lifetime c = (if hc_MaxConnLifetime c \<le> 0 then DefaultMaxConnLifetime else hc_MaxConnLifetime c)"

definition methodAllowsBody :: "string \<Rightarrow> bool" where
  "methodAllowsBody m \<longleftrightarrow> m = ''POST'' \<or> m = ''PUT'' \<or> m = ''PATCH'' \<or> m = ''DELETE''"

definition headerMap :: "header \<Rightarrow> header" where
  "headerMap h = (\<lambda>k. case h k of None \<Rightarrow> None | Some vs \<Rightarrow> Some vs)"

section \<open>The writer of a connection (handler.go)\<close>

datatype write_target = Discarded | BodyPipe | RawSocket

text \<open>\<open>cw_bodyEOF\<close> and \<open>cw_rawEOF\<close>: the write side was closed.\<close>

record connWriter =
  cw_w :: write_target
  cw_pipe :: bool
  cw_pipeClosed :: bool
  cw_rawEOF :: bool

definition new_writer :: "string \<Rightarrow> connWriter" where
  "new_writer m =
     (if methodAllowsBody m then \<lparr>cw_w = BodyPipe, cw_pipe = True, cw_pipeClosed = False, cw_rawEOF = False\<rparr>
      else \<lparr>cw_w = Discarded, cw_pipe = False, cw_pipeClosed = False, cw_rawEOF = False\<rparr>)"

definition closePipeLocked :: "connWriter \<Rightarrow> connWriter" where
  "closePipeLocked cw = (if \<not> cw_pipeClosed cw \<and> cw_pipe cw then cw\<lparr>cw_pipeClosed := True\<rparr> else cw)"

definition upgradeTo :: "connWriter \<Rightarrow> connWriter" where
  "upgradeTo cw = (closePipeLocked cw)\<lparr>cw_w := RawSocket\<rparr>"

definition halfClose :: "connWriter \<Rightarrow> connWriter" where
  "halfClose cw =
     (let cw1 = closePipeLocked cw in if cw_w cw1 = RawSocket then cw1\<lparr>cw_rawEOF := True\<rparr> else cw1)"

section \<open>Connections (handler.go)\<close>

text \<open>\<open>runConn\<close>: in \<open>Relay.Do\<close>, in the outbound pump, in its deferred calls, returned.\<close>

datatype conn_pc = Opening | Pumping | Finishing | Finished

text \<open>
  \<open>cs_cause\<close> is \<open>ctx.Err()\<close>, \<open>cs_rest\<close> what the body has yet to give. \<open>log_written\<close> are the bytes of the
  inbound frames written, \<open>log_frames\<close> the outbound frames, \<open>log_body\<close> the whole body, \<open>log_close\<close>
  the reason of the final close, \<open>log_refused\<close> the pumps the cap has stopped.
\<close>

record connState =
  cs_id :: string
  cs_in :: "TunnelFrame list"
  cs_cause :: "go_err option"
  cs_done :: bool
  cs_bytes :: int
  cs_pc :: conn_pc
  cs_pump :: bool
  cs_writer :: connWriter
  cs_rest :: string
  log_written :: string
  log_frames :: "string list"
  log_body :: string
  log_close :: "string option"
  log_refused :: nat

definition new_conn :: "string \<Rightarrow> TunnelOpen \<Rightarrow> connState" where
  "new_conn i opn =
     \<lparr>cs_id = i, cs_in = [], cs_cause = None, cs_done = False, cs_bytes = 0, cs_pc = Opening, cs_pump = True,
      cs_writer = new_writer (to_Method opn), cs_rest = [], log_written = [], log_frames = [], log_body = [], log_close = None,
      log_refused = 0\<rparr>"

definition cancel_conn :: "connState \<Rightarrow> connState" where
  "cancel_conn cs = (if cs_cause cs = None then cs\<lparr>cs_cause := Some Canceled\<rparr> else cs)"

text \<open>The counter is an \<open>int64\<close>.\<close>

definition wrap64 :: "int \<Rightarrow> int" where
  "wrap64 x = (x + 2 ^ 63) mod 2 ^ 64 - 2 ^ 63"

text \<open>Whether the bytes are granted; a refusal cancels the connection.\<close>

definition chargeBytes :: "handler_config \<Rightarrow> connState \<Rightarrow> int \<Rightarrow> bool \<times> connState" where
  "chargeBytes c cs n =
     (let cs1 = cs\<lparr>cs_bytes := wrap64 (cs_bytes cs + n)\<rparr>
      in if cs_bytes cs1 \<le> max_bytes c then (True, cs1) else (False, (cancel_conn cs1)\<lparr>log_refused := log_refused cs + 1\<rparr>))"

definition close_reason :: "go_err option \<Rightarrow> go_err \<Rightarrow> string" where
  "close_reason cause err =
     (if EOF \<in> set (err_chain err) then ''complete''
      else case cause of
        Some e \<Rightarrow> if DeadlineExceeded \<in> set (err_chain e) then ''max-lifetime-exceeded'' else []
      | None \<Rightarrow> ''read-error'')"

section \<open>The handler and its session (handler.go, client.go)\<close>

datatype session_phase = TDown | TLive | TEnding "nat list"

text \<open>
  \<open>tn_send\<close>: a sender is installed, which puts messages on \<open>tn_queue\<close>. \<open>tn_recv\<close>, \<open>tn_pump\<close>: the receive loop and
  the send pump of the session run. \<open>tn_late\<close> are messages that receive loops of closed sessions
  still have to hand over. \<open>log_lost\<close> are messages dropped, \<open>log_quiet\<close> tells whether the receive loop was over when
  the reset began.
\<close>

record tunnel =
  tn_conns :: "connState list"
  tn_reg :: "string \<Rightarrow> nat option"
  tn_send :: bool
  tn_queue :: "TunnelMessage list"
  tn_phase :: session_phase
  tn_recv :: bool
  tn_pump :: bool
  tn_late :: "TunnelMessage list"
  log_wire :: "TunnelMessage list"
  log_lost :: "TunnelMessage list"
  log_quiet :: bool

definition tunnel_init :: tunnel where
  "tunnel_init =
     \<lparr>tn_conns = [], tn_reg = Map.empty, tn_send = False, tn_queue = [], tn_phase = TDown, tn_recv = False, tn_pump = False,
      tn_late = [], log_wire = [], log_lost = [], log_quiet = True\<rparr>"

definition queue_cap :: nat where
  "queue_cap = 256"

definition frames_cap :: nat where
  "frames_cap = 64"

text \<open>\<open>send\<close>: nothing without a sender; the sender of a session drops a message when its queue is full.\<close>

definition tunnel_send :: "TunnelMessage \<Rightarrow> tunnel \<Rightarrow> tunnel" where
  "tunnel_send m t =
     (if tn_send t \<and> length (tn_queue t) < queue_cap then t\<lparr>tn_queue := tn_queue t @ [m]\<rparr> else t\<lparr>log_lost := log_lost t @ [m]\<rparr>)"

definition conn_at :: "tunnel \<Rightarrow> nat \<Rightarrow> connState" where
  "conn_at t i = tn_conns t ! i"

definition set_conn :: "nat \<Rightarrow> connState \<Rightarrow> tunnel \<Rightarrow> tunnel" where
  "set_conn i cs t = t\<lparr>tn_conns := (tn_conns t)[i := cs]\<rparr>"

definition message :: "connState \<Rightarrow> tunnel_payload \<Rightarrow> TunnelMessage" where
  "message cs p = \<lparr>tm_ConnectionId = cs_id cs, tm_Payload = p\<rparr>"

definition openConn :: "string \<Rightarrow> TunnelOpen option \<Rightarrow> tunnel \<Rightarrow> tunnel" where
  "openConn i opn t =
     (case opn of
        None \<Rightarrow> t
      | Some op \<Rightarrow>
          if i = [] then t
          else if tn_reg t i \<noteq> None then t
          else t\<lparr>tn_conns := tn_conns t @ [new_conn i op], tn_reg := (tn_reg t)(i \<mapsto> length (tn_conns t))\<rparr>)"

definition deliverFrame :: "string \<Rightarrow> TunnelFrame option \<Rightarrow> tunnel \<Rightarrow> tunnel" where
  "deliverFrame i f t =
     (case (tn_reg t i, f) of
        (Some n, Some fr) \<Rightarrow>
          let cs = conn_at t n
          in if cs_done cs then t
             else if length (cs_in cs) < frames_cap then set_conn n (cs\<lparr>cs_in := cs_in cs @ [fr]\<rparr>) t
             else set_conn n (cancel_conn cs) (tunnel_send (message cs (PClose ''inbound-overflow'')) t)
      | _ \<Rightarrow> t)"

definition closeFromHub :: "string \<Rightarrow> tunnel \<Rightarrow> tunnel" where
  "closeFromHub i t = (case tn_reg t i of None \<Rightarrow> t | Some n \<Rightarrow> set_conn n (cancel_conn (conn_at t n)) t)"

definition handle :: "TunnelMessage \<Rightarrow> tunnel \<Rightarrow> tunnel" where
  "handle m t =
     (case tm_Payload m of
        POpen op \<Rightarrow> openConn (tm_ConnectionId m) op t
      | PFrame f \<Rightarrow> deliverFrame (tm_ConnectionId m) f t
      | PClose r \<Rightarrow> closeFromHub (tm_ConnectionId m) t
      | _ \<Rightarrow> t)"

definition ActiveConns :: "tunnel \<Rightarrow> nat" where
  "ActiveConns t = card (dom (tn_reg t))"

text \<open>The end of \<open>runConn\<close>: cancel, leave the registry, close \<open>done\<close>.\<close>

definition unregister :: "nat \<Rightarrow> tunnel \<Rightarrow> tunnel" where
  "unregister n t =
     (let cs = cancel_conn (conn_at t n)
      in (set_conn n (cs\<lparr>cs_done := True, cs_pc := Finished\<rparr>) t)\<lparr>tn_reg := (tn_reg t)(cs_id cs := None)\<rparr>)"

text \<open>A failed relay, a response head, and one read of the outbound pump with data.\<close>

definition relay_failed :: "nat \<Rightarrow> go_err \<Rightarrow> tunnel \<Rightarrow> tunnel" where
  "relay_failed n err t =
     (let cs = conn_at t n
      in set_conn n (cs\<lparr>cs_pc := Finishing, log_close := Some ''open-failed''\<rparr>)
           (tunnel_send (message cs (PClose ''open-failed'')) (tunnel_send (message cs (POpenError err)) t)))"

definition relay_opened :: "nat \<Rightarrow> Result \<Rightarrow> string \<Rightarrow> tunnel \<Rightarrow> tunnel" where
  "relay_opened n res body t =
     (let cs = conn_at t n
      in set_conn n (cs\<lparr>cs_pc := Pumping, cs_rest := body, log_body := body,
                        cs_writer := (if rs_Upgraded res then upgradeTo (cs_writer cs) else cs_writer cs)\<rparr>)
           (tunnel_send (message cs (POpenResult (rs_Status res) (headerMap (rs_Header res)))) t))"

definition outbound_data :: "handler_config \<Rightarrow> nat \<Rightarrow> string \<Rightarrow> tunnel \<Rightarrow> tunnel" where
  "outbound_data c n data t =
     (let cs = (conn_at t n)\<lparr>cs_rest := drop (length data) (cs_rest (conn_at t n))\<rparr>
      in case chargeBytes c cs (int (length data)) of
           (False, cs1) \<Rightarrow> set_conn n (cs1\<lparr>cs_pc := Finishing\<rparr>) (tunnel_send (message cs (PClose ''byte-cap-exceeded'')) t)
         | (True, cs1) \<Rightarrow>
             set_conn n (cs1\<lparr>log_frames := log_frames cs @ [data]\<rparr>)
               (tunnel_send (message cs (PFrame (Some \<lparr>tf_Data = data, tf_HalfClose = False\<rparr>))) t))"

definition outbound_end :: "nat \<Rightarrow> go_err \<Rightarrow> tunnel \<Rightarrow> tunnel" where
  "outbound_end n err t =
     (let cs = conn_at t n; reason = close_reason (cs_cause cs) err
      in if reason \<noteq> [] then
           set_conn n (cs\<lparr>cs_pc := Finishing, log_close := Some reason\<rparr>) (tunnel_send (message cs (PClose reason)) t)
         else set_conn n (cs\<lparr>cs_pc := Finishing\<rparr>) t)"

text \<open>One frame of the inbound pump; \<open>ok\<close> tells whether the write succeeds.\<close>

definition inbound_frame :: "handler_config \<Rightarrow> nat \<Rightarrow> bool \<Rightarrow> tunnel \<Rightarrow> tunnel" where
  "inbound_frame c n ok t =
     (let cs = conn_at t n; f = hd (cs_in cs); cs0 = cs\<lparr>cs_in := tl (cs_in cs)\<rparr>;
          finish = (\<lambda>cs t. if tf_HalfClose f then set_conn n (cs\<lparr>cs_writer := halfClose (cs_writer cs), cs_pump := False\<rparr>) t
                           else set_conn n cs t)
      in if tf_Data f \<noteq> [] then
           (case chargeBytes c cs0 (int (length (tf_Data f))) of
              (False, cs1) \<Rightarrow>
                set_conn n (cs1\<lparr>cs_writer := closePipeLocked (cs_writer cs1), cs_pump := False\<rparr>)
                  (tunnel_send (message cs (PClose ''byte-cap-exceeded'')) t)
            | (True, cs1) \<Rightarrow>
                if \<not> ok then set_conn n (cs1\<lparr>cs_pump := False\<rparr>) t
                else finish (cs1\<lparr>log_written := log_written cs1 @ tf_Data f\<rparr>) t)
         else finish cs0 t)"

definition registered :: "tunnel \<Rightarrow> nat list" where
  "registered t = filter (\<lambda>n. tn_reg t (cs_id (conn_at t n)) = Some n) [0..<length (tn_conns t)]"

text \<open>The size limit of protobuf bounds the data of a frame.\<close>

definition message_ok :: "TunnelMessage \<Rightarrow> bool" where
  "message_ok m = (case tm_Payload m of PFrame (Some f) \<Rightarrow> int (length (tf_Data f)) \<le> 2 ^ 31 | _ \<Rightarrow> True)"

inductive tunnel_step :: "handler_config \<Rightarrow> tunnel \<Rightarrow> tunnel \<Rightarrow> bool"
  for c
where
  session_opened:
    "tn_phase t = TDown \<Longrightarrow>
     tunnel_step c t (t\<lparr>tn_phase := TLive, tn_send := True, tn_queue := [], tn_recv := True, tn_pump := True\<rparr>)"
| received:
    "tn_recv t \<Longrightarrow> message_ok m \<Longrightarrow> tunnel_step c t (handle m t)"
| received_late:
    "tn_late t = xs @ m # ys \<Longrightarrow> message_ok m \<Longrightarrow> tunnel_step c t (handle m (t\<lparr>tn_late := xs @ ys\<rparr>))"
| receive_failed:
    "tn_recv t \<Longrightarrow> tunnel_step c t (t\<lparr>tn_recv := False\<rparr>)"
| pumped:
    "tn_pump t \<Longrightarrow> tn_queue t = m # ms \<Longrightarrow> tunnel_step c t (t\<lparr>tn_queue := ms, log_wire := log_wire t @ [m]\<rparr>)"
| pump_failed:
    "tn_pump t \<Longrightarrow> tn_queue t = m # ms \<Longrightarrow> tunnel_step c t (t\<lparr>tn_queue := ms, log_lost := log_lost t @ [m], tn_pump := False\<rparr>)"
| pinged:
    "tn_phase t \<noteq> TDown \<Longrightarrow> length (tn_queue t) < queue_cap \<Longrightarrow>
     tunnel_step c t (t\<lparr>tn_queue := tn_queue t @ [\<lparr>tm_ConnectionId = [], tm_Payload = PPing\<rparr>]\<rparr>)"
| session_ends:
    "tn_phase t = TLive \<Longrightarrow> tunnel_step c t (t\<lparr>tn_send := False, tn_phase := TEnding (registered t), log_quiet := (\<not> tn_recv t \<and> tn_late t = [])\<rparr>)"
| reset_cancels:
    "tn_phase t = TEnding (n # ns) \<Longrightarrow> tunnel_step c t (set_conn n (cancel_conn (conn_at t n)) t)"
| reset_waited:
    "tn_phase t = TEnding (n # ns) \<Longrightarrow> cs_done (conn_at t n) \<Longrightarrow> tunnel_step c t (t\<lparr>tn_phase := TEnding ns\<rparr>)"
| session_closed:
    "tn_phase t = TEnding [] \<Longrightarrow> late = [] \<or> (tn_recv t \<and> (\<exists>m. late = [m])) \<Longrightarrow>
     tunnel_step c t (t\<lparr>tn_phase := TDown, tn_recv := False, tn_pump := False, tn_late := tn_late t @ late\<rparr>)"
| relay_fails:
    "n < length (tn_conns t) \<Longrightarrow> cs_pc (conn_at t n) = Opening \<Longrightarrow> tunnel_step c t (relay_failed n err t)"
| relay_answers:
    "n < length (tn_conns t) \<Longrightarrow> cs_pc (conn_at t n) = Opening \<Longrightarrow> tunnel_step c t (relay_opened n res body t)"
| body_read:
    "n < length (tn_conns t) \<Longrightarrow> cs_pc (conn_at t n) = Pumping \<Longrightarrow> data \<noteq> [] \<Longrightarrow> int (length data) \<le> frame_size c \<Longrightarrow>
     prefix data (cs_rest (conn_at t n)) \<Longrightarrow> tunnel_step c t (outbound_data c n data t)"
| body_ended:
    "n < length (tn_conns t) \<Longrightarrow> cs_pc (conn_at t n) = Pumping \<Longrightarrow> (EOF \<in> set (err_chain err) \<longrightarrow> cs_rest (conn_at t n) = []) \<Longrightarrow>
     tunnel_step c t (outbound_end n err t)"
| conn_returned:
    "n < length (tn_conns t) \<Longrightarrow> cs_pc (conn_at t n) = Finishing \<Longrightarrow> tunnel_step c t (unregister n t)"
| frame_taken:
    "n < length (tn_conns t) \<Longrightarrow> cs_pump (conn_at t n) \<Longrightarrow> cs_in (conn_at t n) \<noteq> [] \<Longrightarrow> tunnel_step c t (inbound_frame c n ok t)"
| frames_stopped:
    "n < length (tn_conns t) \<Longrightarrow> cs_pump (conn_at t n) \<Longrightarrow> cs_cause (conn_at t n) \<noteq> None \<Longrightarrow>
     tunnel_step c t (set_conn n ((conn_at t n)\<lparr>cs_pump := False, cs_writer := closePipeLocked (cs_writer (conn_at t n))\<rparr>) t)"
| lifetime_over:
    "n < length (tn_conns t) \<Longrightarrow> cs_cause (conn_at t n) = None \<Longrightarrow>
     tunnel_step c t (set_conn n ((conn_at t n)\<lparr>cs_cause := Some DeadlineExceeded\<rparr>) t)"

section \<open>The session of the tunnel client (client.go)\<close>

text \<open>\<open>connect\<close> is the Connect call, \<open>set_auth\<close> sets the header of its request.\<close>

definition tunnel_session ::
  "('w \<Rightarrow> go_err option \<times> 'w) \<Rightarrow> (string \<Rightarrow> 'w \<Rightarrow> 'w) \<Rightarrow> ('w \<Rightarrow> int) \<Rightarrow> 'w TokenSource \<Rightarrow> 'w \<Rightarrow> int option res \<times> 'w"
where
  "tunnel_session connect set_auth now ts w =
     (case token ts w of
        (Inl err, w1) \<Rightarrow> (Inl (Wrapf ''tunnelagent: fetch token: %w'' [] err), w1)
      | (Inr (tok, expiry), w1) \<Rightarrow>
          (case connect w1 of
             (Some err, w2) \<Rightarrow> (Inl err, w2)
           | (None, w2) \<Rightarrow> let w3 = set_auth (''Bearer '' @ tok) w2 in (Inr (rotate_after (now w3) expiry), w3)))"

definition tunnel_errTokenRotation :: go_err where
  "tunnel_errTokenRotation = Errorf ''tunnelagent: token nearing expiry, rotating session'' []"

definition tunnel_nextDelay :: "int \<Rightarrow> Backoff \<Rightarrow> int" where
  "tunnel_nextDelay current b =
     (let mult = (if bo_Multiplier b \<le> 1 then 2 else bo_Multiplier b);
          maxInterval = (if bo_MaxInterval b \<le> 0 then bo_MaxInterval DefaultBackoff else bo_MaxInterval b);
          nxt = \<lfloor>of_int current * mult\<rfloor>
      in if nxt > maxInterval then maxInterval else nxt)"

text \<open>The copy of the stream client's function agrees with it.\<close>

lemma tunnel_nextDelay_eq [simp]: "tunnel_nextDelay = nextDelay"
  by (intro ext) (simp add: tunnel_nextDelay_def nextDelay_def)

text \<open>What \<open>Run\<close> does after a session: the wait (\<open>None\<close> for none) and the next delay; \<open>r\<close> is the random number.\<close>

definition tunnel_next :: "Backoff \<Rightarrow> int \<Rightarrow> go_err option \<Rightarrow> rat \<Rightarrow> int option \<times> int" where
  "tunnel_next b delay err r =
     (if err_is err tunnel_errTokenRotation then (None, bo_InitialInterval (run_backoff b))
      else (Some (jitterDelay delay r), tunnel_nextDelay delay (run_backoff b)))"

section \<open>Invariants of a connection\<close>

lemma cancel_conn_simps [simp]:
  "cs_id (cancel_conn cs) = cs_id cs" "cs_in (cancel_conn cs) = cs_in cs" "cs_bytes (cancel_conn cs) = cs_bytes cs"
  "cs_pc (cancel_conn cs) = cs_pc cs" "cs_pump (cancel_conn cs) = cs_pump cs" "cs_done (cancel_conn cs) = cs_done cs"
  "cs_rest (cancel_conn cs) = cs_rest cs" "log_written (cancel_conn cs) = log_written cs" "log_frames (cancel_conn cs) = log_frames cs"
  "log_body (cancel_conn cs) = log_body cs" "log_close (cancel_conn cs) = log_close cs" "log_refused (cancel_conn cs) = log_refused cs"
  by (simp_all add: cancel_conn_def)

lemma tunnel_send_simps [simp]:
  "tn_conns (tunnel_send m t) = tn_conns t" "tn_reg (tunnel_send m t) = tn_reg t" "tn_phase (tunnel_send m t) = tn_phase t"
  "tn_recv (tunnel_send m t) = tn_recv t" "tn_late (tunnel_send m t) = tn_late t" "log_quiet (tunnel_send m t) = log_quiet t"
  "tn_pump (tunnel_send m t) = tn_pump t" "tn_send (tunnel_send m t) = tn_send t" "log_wire (tunnel_send m t) = log_wire t"
  "conn_at (tunnel_send m t) n = conn_at t n"
  by (simp_all add: tunnel_send_def conn_at_def)

lemma set_conn_simps [simp]:
  "tn_conns (set_conn n cs t) = (tn_conns t)[n := cs]" "tn_reg (set_conn n cs t) = tn_reg t" "tn_phase (set_conn n cs t) = tn_phase t"
  "tn_recv (set_conn n cs t) = tn_recv t" "tn_late (set_conn n cs t) = tn_late t" "log_quiet (set_conn n cs t) = log_quiet t"
  "tn_pump (set_conn n cs t) = tn_pump t" "tn_send (set_conn n cs t) = tn_send t" "log_wire (set_conn n cs t) = log_wire t"
  "tn_queue (set_conn n cs t) = tn_queue t"
  by (simp_all add: set_conn_def)

lemma wrap64_small: "- (2 ^ 63) \<le> x \<Longrightarrow> x < 2 ^ 63 \<Longrightarrow> wrap64 x = x"
  by (simp add: wrap64_def)

definition limits_ok :: "handler_config \<Rightarrow> bool" where
  "limits_ok c \<longleftrightarrow> max_bytes c \<le> 2 ^ 62 \<and> frame_size c \<le> 2 ^ 31"

definition relayed :: "connState \<Rightarrow> int" where
  "relayed cs = int (length (log_written cs)) + int (length (concat (log_frames cs)))"

definition stopped_pumps :: "connState \<Rightarrow> nat" where
  "stopped_pumps cs = (if cs_pump cs then 0 else 1) + (if cs_pc cs \<in> {Finishing, Finished} then 1 else 0)"

definition bytes_inv :: "handler_config \<Rightarrow> connState \<Rightarrow> bool" where
  "bytes_inv c cs \<longleftrightarrow>
     (\<forall>f \<in> set (cs_in cs). int (length (tf_Data f)) \<le> 2 ^ 31) \<and> relayed cs \<le> cs_bytes cs \<and> relayed cs \<le> max_bytes c
     \<and> cs_bytes cs \<le> max_bytes c + 2 ^ 31 * int (log_refused cs) \<and> log_refused cs \<le> stopped_pumps cs"

lemma relayed_nonneg: "0 \<le> relayed cs"
  by (simp add: relayed_def)

lemma chargeBytes_exact:
  assumes "limits_ok c" and "bytes_inv c cs" and "log_refused cs \<le> 1" and "0 \<le> n" and "n \<le> 2 ^ 31"
  shows "chargeBytes c cs n =
    (if cs_bytes cs + n \<le> max_bytes c then (True, cs\<lparr>cs_bytes := cs_bytes cs + n\<rparr>)
     else (False, (cancel_conn (cs\<lparr>cs_bytes := cs_bytes cs + n\<rparr>))\<lparr>log_refused := log_refused cs + 1\<rparr>))"
proof -
  have "int (log_refused cs) \<le> 1" using assms(3) by simp
  then have "cs_bytes cs \<le> 2 ^ 62 + 2 ^ 31" "0 \<le> cs_bytes cs"
    using assms(1,2) relayed_nonneg [of cs] by (auto simp: limits_ok_def bytes_inv_def)
  then have "wrap64 (cs_bytes cs + n) = cs_bytes cs + n" using assms(4,5) by (intro wrap64_small) simp_all
  then show ?thesis by (simp add: chargeBytes_def Let_def)
qed

text \<open>A pump that still runs has not been refused, so that the counter does not wrap.\<close>

lemma running_refused:
  assumes "bytes_inv c cs" and "cs_pump cs \<or> cs_pc cs = Pumping"
  shows "log_refused cs \<le> 1"
  using assms by (auto simp: bytes_inv_def stopped_pumps_def split: if_splits)

lemma bytes_inv_outbound:
  assumes "limits_ok c" and "bytes_inv c cs" and "cs_pc cs = Pumping" and "int (length data) \<le> frame_size c"
    and "chargeBytes c (cs\<lparr>cs_rest := r\<rparr>) (int (length data)) = (ok, cs1)"
  shows "bytes_inv c (if ok then cs1\<lparr>log_frames := log_frames cs @ [data]\<rparr> else cs1\<lparr>cs_pc := Finishing\<rparr>)"
proof -
  have inv: "bytes_inv c (cs\<lparr>cs_rest := r\<rparr>)" using assms(2) by (simp add: bytes_inv_def relayed_def stopped_pumps_def)
  have n: "int (length data) \<le> 2 ^ 31" using assms(1,4) by (simp add: limits_ok_def)
  have ref: "log_refused cs \<le> 1" using running_refused [OF assms(2)] assms(3) by simp
  note eq = chargeBytes_exact [OF assms(1) inv _ _ n, simplified ref, simplified]
  show ?thesis
  proof (cases "cs_bytes cs + int (length data) \<le> max_bytes c")
    case True
    with eq assms(5) ref have "ok" "cs1 = cs\<lparr>cs_rest := r, cs_bytes := cs_bytes cs + int (length data)\<rparr>" by auto
    then show ?thesis using assms(2) True by (simp add: bytes_inv_def relayed_def stopped_pumps_def)
  next
    case False
    with eq assms(5) ref have "\<not> ok"
      "cs1 = (cancel_conn (cs\<lparr>cs_rest := r, cs_bytes := cs_bytes cs + int (length data)\<rparr>))\<lparr>log_refused := log_refused cs + 1\<rparr>" by auto
    moreover have "cs_bytes cs + int (length data) \<le> max_bytes c + 2 ^ 31 * (int (log_refused cs) + 1)"
      using assms(2) n by (simp add: bytes_inv_def algebra_simps)
    ultimately show ?thesis using assms(2,3) by (simp add: bytes_inv_def relayed_def stopped_pumps_def split: if_splits)
  qed
qed


section \<open>One connection at a time\<close>

definition stop_pump :: "bool \<Rightarrow> connWriter \<Rightarrow> connState \<Rightarrow> connState" where
  "stop_pump b w cs = (if b then cs\<lparr>cs_writer := w, cs_pump := False\<rparr> else cs)"

text \<open>What a step of the tunnel can do to one connection.\<close>

inductive conn_step :: "handler_config \<Rightarrow> connState \<Rightarrow> connState \<Rightarrow> bool"
  for c
where
  c_same: "conn_step c cs cs"
| c_frame: "int (length (tf_Data f)) \<le> 2 ^ 31 \<Longrightarrow> conn_step c cs (cs\<lparr>cs_in := cs_in cs @ [f]\<rparr>)"
| c_cancel: "conn_step c cs (cancel_conn cs)"
| c_failed: "cs_pc cs = Opening \<Longrightarrow> conn_step c cs (cs\<lparr>cs_pc := Finishing, log_close := Some ''open-failed''\<rparr>)"
| c_opened: "cs_pc cs = Opening \<Longrightarrow> conn_step c cs (cs\<lparr>cs_pc := Pumping, cs_rest := body, log_body := body, cs_writer := w\<rparr>)"
| c_data: "cs_pc cs = Pumping \<Longrightarrow> data \<noteq> [] \<Longrightarrow> int (length data) \<le> frame_size c \<Longrightarrow> prefix data (cs_rest cs) \<Longrightarrow>
    chargeBytes c (cs\<lparr>cs_rest := drop (length data) (cs_rest cs)\<rparr>) (int (length data)) = (ok, cs1) \<Longrightarrow>
    conn_step c cs (if ok then cs1\<lparr>log_frames := log_frames cs @ [data]\<rparr> else cs1\<lparr>cs_pc := Finishing\<rparr>)"
| c_end: "cs_pc cs = Pumping \<Longrightarrow> (EOF \<in> set (err_chain err) \<longrightarrow> cs_rest cs = []) \<Longrightarrow> reason = close_reason (cs_cause cs) err \<Longrightarrow>
    conn_step c cs (cs\<lparr>cs_pc := Finishing, log_close := (if reason \<noteq> [] then Some reason else log_close cs)\<rparr>)"
| c_return: "cs_pc cs = Finishing \<Longrightarrow> conn_step c cs ((cancel_conn cs)\<lparr>cs_done := True, cs_pc := Finished\<rparr>)"
| c_skip: "cs_pump cs \<Longrightarrow> cs_in cs = f # fs \<Longrightarrow> conn_step c cs (stop_pump b w (cs\<lparr>cs_in := fs\<rparr>))"
| c_write: "cs_pump cs \<Longrightarrow> cs_in cs = f # fs \<Longrightarrow> tf_Data f \<noteq> [] \<Longrightarrow>
    chargeBytes c (cs\<lparr>cs_in := fs\<rparr>) (int (length (tf_Data f))) = (ok, cs1) \<Longrightarrow> prefix d (tf_Data f) \<Longrightarrow>
    conn_step c cs (if ok then stop_pump b w (cs1\<lparr>log_written := log_written cs1 @ d\<rparr>)
                    else cs1\<lparr>cs_writer := w, cs_pump := False\<rparr>)"
| c_stopped: "conn_step c cs (cs\<lparr>cs_pump := False, cs_writer := w\<rparr>)"
| c_lifetime: "conn_step c cs (cs\<lparr>cs_cause := Some DeadlineExceeded\<rparr>)"

lemma conn_at_set: "n < length (tn_conns t) \<Longrightarrow> conn_at (set_conn n cs t) m = (if m = n then cs else conn_at t m)"
  by (auto simp: conn_at_def set_conn_def nth_list_update)

lemma inbound_conn_step:
  assumes "cs_pump (conn_at t n)" and "cs_in (conn_at t n) \<noteq> []" and "n < length (tn_conns t)"
  shows "\<exists>cs' t'. inbound_frame c n ok t = set_conn n cs' t' \<and> conn_step c (conn_at t n) cs' \<and> tn_conns t' = tn_conns t
    \<and> tn_reg t' = tn_reg t"
proof -
  let ?cs = "conn_at t n"
  obtain f fs where f: "cs_in ?cs = f # fs" using assms(2) by (cases "cs_in ?cs") auto
  show ?thesis
  proof (cases "tf_Data f = []")
    case True
    have "conn_step c ?cs (stop_pump b w (?cs\<lparr>cs_in := fs\<rparr>))" for b w by (rule c_skip [OF assms(1) f])
    from this [of True "halfClose (cs_writer ?cs)"] this [of False] True f show ?thesis
      by (auto simp: inbound_frame_def stop_pump_def Let_def)
  next
    case False
    obtain k cs1 where ch: "chargeBytes c (?cs\<lparr>cs_in := fs\<rparr>) (int (length (tf_Data f))) = (k, cs1)" by fastforce
    have step: "conn_step c ?cs (if k then stop_pump b w (cs1\<lparr>log_written := log_written cs1 @ d\<rparr>)
        else cs1\<lparr>cs_writer := w, cs_pump := False\<rparr>)" if "prefix d (tf_Data f)" for d w b
      by (rule c_write [OF assms(1) f False ch that])
    show ?thesis
    proof (cases k)
      case True
      with step [of "[]" True "cs_writer cs1"] step [of "tf_Data f" True "halfClose (cs_writer cs1)"] step [of "tf_Data f" False]
      have "conn_step c ?cs (cs1\<lparr>cs_pump := False\<rparr>)" "conn_step c ?cs (cs1\<lparr>log_written := log_written cs1 @ tf_Data f\<rparr>)"
        "conn_step c ?cs (cs1\<lparr>log_written := log_written cs1 @ tf_Data f, cs_writer := halfClose (cs_writer cs1), cs_pump := False\<rparr>)"
        by (simp_all add: stop_pump_def)
      with True False f ch show ?thesis by (auto simp: inbound_frame_def Let_def)
    next
      case no: False
      with step [where d = "[]" and w = "closePipeLocked (cs_writer cs1)"] False f ch show ?thesis
        by (auto simp: inbound_frame_def Let_def intro!: exI [of _ "tunnel_send _ t"])
    qed
  qed
qed


text \<open>The registry holds exactly the connections that have not returned, each under its id.\<close>

definition reg_inv :: "tunnel \<Rightarrow> bool" where
  "reg_inv t \<longleftrightarrow>
     (\<forall>i n. tn_reg t i = Some n \<longrightarrow> n < length (tn_conns t) \<and> cs_id (conn_at t n) = i \<and> cs_pc (conn_at t n) \<noteq> Finished)
     \<and> (\<forall>n < length (tn_conns t). (cs_pc (conn_at t n) \<noteq> Finished \<longrightarrow> tn_reg t (cs_id (conn_at t n)) = Some n)
          \<and> (cs_done (conn_at t n) \<longleftrightarrow> cs_pc (conn_at t n) = Finished))"

lemma reg_inv_frame [simp]:
  "reg_inv (tunnel_send m t) = reg_inv t" "reg_inv (t\<lparr>tn_late := l\<rparr>) = reg_inv t" "reg_inv (t\<lparr>tn_recv := b\<rparr>) = reg_inv t"
  "reg_inv (t\<lparr>tn_queue := q\<rparr>) = reg_inv t" "reg_inv (t\<lparr>log_wire := q\<rparr>) = reg_inv t" "reg_inv (t\<lparr>log_lost := q\<rparr>) = reg_inv t"
  "reg_inv (t\<lparr>tn_pump := b\<rparr>) = reg_inv t" "reg_inv (t\<lparr>tn_send := b\<rparr>) = reg_inv t" "reg_inv (t\<lparr>tn_phase := ph\<rparr>) = reg_inv t"
  "reg_inv (t\<lparr>log_quiet := b\<rparr>) = reg_inv t"
  by (simp_all add: reg_inv_def conn_at_def)

lemma reg_inv_set:
  assumes "reg_inv t" and "cs_id cs = cs_id (conn_at t n)" and "(cs_pc cs = Finished) = (cs_pc (conn_at t n) = Finished)"
    and "cs_done cs = cs_done (conn_at t n)"
  shows "reg_inv (set_conn n cs t)"
proof (cases "n < length (tn_conns t)")
  case True
  with assms show ?thesis unfolding reg_inv_def by (auto simp: conn_at_set split: if_splits)
next
  case False
  then have "set_conn n cs t = t" by (simp add: set_conn_def list_update_beyond)
  with assms(1) show ?thesis by simp
qed

lemma reg_invD:
  assumes "reg_inv t" and "tn_reg t i = Some n"
  shows "n < length (tn_conns t)" "cs_id (conn_at t n) = i" "cs_pc (conn_at t n) \<noteq> Finished" "\<not> cs_done (conn_at t n)"
  using assms by (auto simp: reg_inv_def)

lemma reg_inv_open:
  assumes "reg_inv t"
  shows "reg_inv (openConn i opn t)"
proof (cases "opn = None \<or> i = [] \<or> tn_reg t i \<noteq> None")
  case True
  with assms show ?thesis by (auto simp: openConn_def split: option.split)
next
  case False
  then obtain op where op: "opn = Some op" "tn_reg t i = None" "i \<noteq> []" by auto
  let ?t = "t\<lparr>tn_conns := tn_conns t @ [new_conn i op], tn_reg := (tn_reg t)(i \<mapsto> length (tn_conns t))\<rparr>"
  have at: "conn_at ?t n = (if n = length (tn_conns t) then new_conn i op else conn_at t n)" if "n \<le> length (tn_conns t)" for n
    using that by (auto simp: conn_at_def nth_append)
  have new: "cs_id (new_conn i op) = i" "cs_pc (new_conn i op) = Opening" "\<not> cs_done (new_conn i op)" by (simp_all add: new_conn_def)
  have "reg_inv ?t"
    unfolding reg_inv_def
  proof (intro conjI allI impI)
    fix j n assume "tn_reg ?t j = Some n"
    then have "j = i \<and> n = length (tn_conns t) \<or> j \<noteq> i \<and> tn_reg t j = Some n" by (auto split: if_splits)
    then show "n < length (tn_conns ?t)" "cs_id (conn_at ?t n) = j" "cs_pc (conn_at ?t n) \<noteq> Finished"
      using reg_invD [OF assms, of j n] at [of n] new by auto
  next
    fix n assume n: "n < length (tn_conns ?t)"
    then have *: "n = length (tn_conns t) \<or> n < length (tn_conns t)" by auto
    show "tn_reg ?t (cs_id (conn_at ?t n)) = Some n" if "cs_pc (conn_at ?t n) \<noteq> Finished"
      using * assms at [of n] new that op(2) by (auto simp: reg_inv_def)
    show "cs_done (conn_at ?t n) \<longleftrightarrow> cs_pc (conn_at ?t n) = Finished"
      using * assms at [of n] new by (auto simp: reg_inv_def)
  qed
  with op show ?thesis by (simp add: openConn_def)
qed

lemma reg_inv_handle:
  assumes "reg_inv t"
  shows "reg_inv (handle m t)"
  using assms
  by (auto simp: handle_def deliverFrame_def closeFromHub_def Let_def reg_inv_open reg_inv_set
      split: tunnel_payload.split option.split)

lemma reg_inv_unregister:
  assumes "reg_inv t" and "n < length (tn_conns t)" and "cs_pc (conn_at t n) = Finishing"
  shows "reg_inv (unregister n t)"
proof -
  let ?i = "cs_id (conn_at t n)"
  have own: "tn_reg t ?i = Some n" using assms by (auto simp: reg_inv_def)
  let ?cs = "(cancel_conn (conn_at t n))\<lparr>cs_done := True, cs_pc := Finished\<rparr>"
  have eq: "unregister n t = (set_conn n ?cs t)\<lparr>tn_reg := (tn_reg t)(?i := None)\<rparr>" by (simp add: unregister_def Let_def)
  have at: "conn_at (unregister n t) m = (if m = n then ?cs else conn_at t m)" for m
    using conn_at_set [OF assms(2)] by (simp add: eq conn_at_def)
  have reg: "tn_reg (unregister n t) = (tn_reg t)(?i := None)" "length (tn_conns (unregister n t)) = length (tn_conns t)" by (simp_all add: eq)
  show ?thesis
    unfolding reg_inv_def reg
  proof (intro conjI allI impI)
    fix j m assume "((tn_reg t)(?i := None)) j = Some m"
    then have "j \<noteq> ?i" "tn_reg t j = Some m" by (auto split: if_splits)
    then show "m < length (tn_conns t)" "cs_id (conn_at (unregister n t) m) = j" "cs_pc (conn_at (unregister n t) m) \<noteq> Finished"
      using reg_invD [OF assms(1), of j m] at [of m] by auto
  next
    fix m assume m: "m < length (tn_conns t)"
    show "((tn_reg t)(?i := None)) (cs_id (conn_at (unregister n t) m)) = Some m" if "cs_pc (conn_at (unregister n t) m) \<noteq> Finished"
    proof -
      have "m \<noteq> n" "cs_pc (conn_at t m) \<noteq> Finished" using that at [of m] by (auto split: if_splits)
      then have "tn_reg t (cs_id (conn_at t m)) = Some m" using assms(1) m by (auto simp: reg_inv_def)
      with \<open>m \<noteq> n\<close> own show ?thesis using at [of m] by auto
    qed
    show "cs_done (conn_at (unregister n t) m) \<longleftrightarrow> cs_pc (conn_at (unregister n t) m) = Finished"
      using assms(1) m at [of m] by (auto simp: reg_inv_def)
  qed
qed

lemma reg_inv_step:
  assumes "tunnel_step c t t'" and "reg_inv t"
  shows "reg_inv t'"
  using assms(1)
proof cases
  case (frame_taken n ok)
  then show ?thesis
    using assms(2) by (auto simp: inbound_frame_def chargeBytes_def reg_inv_set Let_def)
qed (use assms(2) in \<open>auto simp: reg_inv_handle reg_inv_unregister relay_failed_def relay_opened_def outbound_data_def outbound_end_def Let_def
      chargeBytes_def reg_inv_set split: prod.splits if_splits\<close>)


text \<open>A property of new connections that every change of a connection keeps.\<close>

definition all_conns :: "(connState \<Rightarrow> bool) \<Rightarrow> tunnel \<Rightarrow> bool" where
  "all_conns P t \<longleftrightarrow> (\<forall>cs \<in> set (tn_conns t). P cs)"

lemma all_conns_frame [simp]:
  "all_conns P (tunnel_send m t) = all_conns P t" "all_conns P (t\<lparr>tn_late := l\<rparr>) = all_conns P t" "all_conns P (t\<lparr>tn_recv := b\<rparr>) = all_conns P t"
  "all_conns P (t\<lparr>tn_queue := q\<rparr>) = all_conns P t" "all_conns P (t\<lparr>log_wire := q\<rparr>) = all_conns P t" "all_conns P (t\<lparr>log_lost := q\<rparr>) = all_conns P t"
  "all_conns P (t\<lparr>tn_pump := b\<rparr>) = all_conns P t" "all_conns P (t\<lparr>tn_send := b\<rparr>) = all_conns P t" "all_conns P (t\<lparr>tn_phase := ph\<rparr>) = all_conns P t"
  "all_conns P (t\<lparr>log_quiet := b\<rparr>) = all_conns P t" "all_conns P (t\<lparr>tn_reg := r\<rparr>) = all_conns P t"
  by (simp_all add: all_conns_def)

lemma all_conns_set:
  assumes "all_conns P t" and "n < length (tn_conns t) \<Longrightarrow> P (conn_at t n) \<Longrightarrow> P cs"
  shows "all_conns P (set_conn n cs t)"
proof (cases "n < length (tn_conns t)")
  case True
  then have "P (conn_at t n)" using assms(1) by (auto simp: all_conns_def conn_at_def)
  with assms True show ?thesis by (auto simp: all_conns_def dest: set_update_subset_insert [THEN subsetD])
next
  case False
  with assms(1) show ?thesis by (simp add: set_conn_def list_update_beyond)
qed

definition kept :: "handler_config \<Rightarrow> (connState \<Rightarrow> bool) \<Rightarrow> bool" where
  "kept c P \<longleftrightarrow> (\<forall>i op. P (new_conn i op)) \<and> (\<forall>cs cs'. conn_step c cs cs' \<longrightarrow> P cs \<longrightarrow> P cs')"

lemma all_conns_conn_step:
  assumes "kept c P" and "all_conns P t" and "conn_step c (conn_at t n) cs"
  shows "all_conns P (set_conn n cs t)"
  using assms(2) by (rule all_conns_set) (use assms(1,3) in \<open>auto simp: kept_def\<close>)

lemma all_conns_handle:
  assumes step: "kept c P" and "all_conns P t" and "message_ok m"
  shows "all_conns P (handle m t)"
proof (cases "tm_Payload m")
  case (POpen op)
  with assms(1,2) show ?thesis by (auto simp: handle_def openConn_def all_conns_def kept_def split: option.split)
next
  case (PClose r)
  with assms(2) show ?thesis
    by (auto simp: handle_def closeFromHub_def split: option.split intro!: all_conns_conn_step [OF step _ c_cancel])
next
  case (PFrame f)
  have "all_conns P (deliverFrame (tm_ConnectionId m) f t)"
  proof (cases "(tn_reg t (tm_ConnectionId m), f)")
    case (Pair no fo)
    show ?thesis
    proof (cases no; cases fo)
      fix n fr assume "no = Some n" "fo = Some fr"
      moreover from this Pair PFrame assms(3) have "int (length (tf_Data fr)) \<le> 2 ^ 31" by (simp add: message_ok_def)
      ultimately show ?thesis
        using Pair assms(2) all_conns_conn_step [OF step assms(2) c_frame, of fr n]
          all_conns_conn_step [OF step _ c_cancel, of "tunnel_send (message (conn_at t n) (PClose ''inbound-overflow'')) t" n]
        by (auto simp: deliverFrame_def Let_def)
    qed (use Pair assms(2) in \<open>auto simp: deliverFrame_def\<close>)
  qed
  with PFrame show ?thesis by (simp add: handle_def)
qed (use assms(2) in \<open>simp_all add: handle_def\<close>)

lemma all_conns_step:
  assumes "tunnel_step c t t'" and "all_conns P t" and step: "kept c P"
  shows "all_conns P t'"
  using assms(1)
proof cases
  case (received m)
  with all_conns_handle [OF step assms(2)] show ?thesis by simp
next
  case (received_late xs m ys)
  with all_conns_handle [OF step, of "t\<lparr>tn_late := xs @ ys\<rparr>" m] assms(2) show ?thesis by simp
next
  case (reset_cancels n ns)
  with all_conns_conn_step [OF step assms(2) c_cancel] show ?thesis by simp
next
  case (relay_fails n err)
  then show ?thesis
    using assms(2) by (auto simp: relay_failed_def Let_def intro!: all_conns_conn_step [OF step] c_failed)
next
  case (relay_answers n res body)
  let ?w = "if rs_Upgraded res then upgradeTo (cs_writer (conn_at t n)) else cs_writer (conn_at t n)"
  let ?t = "tunnel_send (message (conn_at t n) (POpenResult (rs_Status res) (headerMap (rs_Header res)))) t"
  have "conn_step c (conn_at ?t n) ((conn_at t n)\<lparr>cs_pc := Pumping, cs_rest := body, log_body := body, cs_writer := ?w\<rparr>)"
    unfolding tunnel_send_simps using relay_answers(3) by (rule c_opened)
  moreover have "all_conns P ?t" using assms(2) by simp
  ultimately show ?thesis unfolding relay_answers(1) relay_opened_def Let_def by (intro all_conns_conn_step [OF step])
next
  case (body_read n data)
  obtain ok cs1 where ch: "chargeBytes c ((conn_at t n)\<lparr>cs_rest := drop (length data) (cs_rest (conn_at t n))\<rparr>) (int (length data)) = (ok, cs1)"
    by fastforce
  from c_data [OF body_read(3-6) ch] have s: "conn_step c (conn_at t n)
      (if ok then cs1\<lparr>log_frames := log_frames (conn_at t n) @ [data]\<rparr> else cs1\<lparr>cs_pc := Finishing\<rparr>)" .
  show ?thesis
    using assms(2) s ch body_read(1) by (cases ok) (auto simp: outbound_data_def Let_def intro!: all_conns_conn_step [OF step])
next
  case (body_ended n err)
  have s: "conn_step c (conn_at t n) ((conn_at t n)\<lparr>cs_pc := Finishing,
      log_close := (if close_reason (cs_cause (conn_at t n)) err \<noteq> [] then Some (close_reason (cs_cause (conn_at t n)) err) else log_close (conn_at t n))\<rparr>)"
    using body_ended by (intro c_end) auto
  show ?thesis
    using assms(2) s body_ended(1) by (auto simp: outbound_end_def Let_def intro!: all_conns_conn_step [OF step])
next
  case (conn_returned n)
  with all_conns_conn_step [OF step assms(2) c_return] show ?thesis by (simp add: unregister_def Let_def)
next
  case (frame_taken n ok)
  obtain cs' t1 where t1: "t' = set_conn n cs' t1" "conn_step c (conn_at t n) cs'" "tn_conns t1 = tn_conns t"
    using inbound_conn_step [OF frame_taken(3,4,2)] frame_taken(1) by blast
  then have "all_conns P t1" "conn_at t1 n = conn_at t n" using assms(2) by (simp_all add: all_conns_def conn_at_def)
  with all_conns_conn_step [OF step this(1)] t1 show ?thesis by simp
next
  case (frames_stopped n)
  with all_conns_conn_step [OF step assms(2) c_stopped] show ?thesis by simp
next
  case (lifetime_over n)
  with all_conns_conn_step [OF step assms(2) c_lifetime] show ?thesis by simp
qed (use assms(2) in simp_all)


section \<open>What a connection relays\<close>

text \<open>The frames are the body in order; a connection that reports completion has relayed all of it.\<close>

definition body_inv :: "handler_config \<Rightarrow> connState \<Rightarrow> bool" where
  "body_inv c cs \<longleftrightarrow>
     (cs_pc cs = Opening \<longrightarrow> log_frames cs = []) \<and> (cs_pc cs = Pumping \<longrightarrow> concat (log_frames cs) @ cs_rest cs = log_body cs)
     \<and> (cs_pc cs \<in> {Opening, Pumping} \<longrightarrow> log_close cs = None) \<and> prefix (concat (log_frames cs)) (log_body cs)
     \<and> (log_close cs = Some ''complete'' \<longrightarrow> concat (log_frames cs) = log_body cs)
     \<and> (\<forall>f \<in> set (log_frames cs). f \<noteq> [] \<and> int (length f) \<le> frame_size c)"

lemma chargeBytes_frame:
  "chargeBytes c cs n = (ok, cs1) \<Longrightarrow>
     cs_pc cs1 = cs_pc cs \<and> log_frames cs1 = log_frames cs \<and> cs_rest cs1 = cs_rest cs \<and> log_body cs1 = log_body cs \<and> log_close cs1 = log_close cs"
  by (auto simp: chargeBytes_def Let_def split: if_splits)

lemma close_reason_complete: "close_reason cause err = ''complete'' \<Longrightarrow> EOF \<in> set (err_chain err)"
  by (auto simp: close_reason_def split: if_splits option.splits)

lemma body_inv_kept: "kept c (body_inv c)"
  unfolding kept_def
proof (intro conjI allI impI)
  show "body_inv c (new_conn i op)" for i op by (simp add: body_inv_def new_conn_def)
  fix cs cs' assume "conn_step c cs cs'" and inv: "body_inv c cs"
  then show "body_inv c cs'"
  proof cases
    case (c_data data ok cs1)
    obtain zs where "cs_rest cs = data @ zs" using c_data(5) by (auto simp: prefix_def)
    moreover have "prefix (concat (log_frames cs) @ data) (log_body cs)" if "concat (log_frames cs) @ data @ zs = log_body cs"
      using that by (metis append.assoc prefixI)
    ultimately show ?thesis using c_data inv chargeBytes_frame [OF c_data(6)] by (auto simp: body_inv_def)
  next
    case (c_end err reason)
    with inv show ?thesis by (auto simp: body_inv_def dest: close_reason_complete split: if_splits)
  next
    case (c_write f fs ok cs1 d b w)
    with inv chargeBytes_frame [OF c_write(5)] show ?thesis by (auto simp: body_inv_def stop_pump_def)
  qed (use inv in \<open>auto simp: body_inv_def stop_pump_def\<close>)
qed

lemma bytes_inv_kept:
  assumes "limits_ok c"
  shows "kept c (bytes_inv c)"
  unfolding kept_def
proof (intro conjI allI impI)
  have "0 \<le> max_bytes c" by (simp add: max_bytes_def DefaultMaxConnBytes_def)
  then show "bytes_inv c (new_conn i op)" for i op by (simp add: bytes_inv_def relayed_def stopped_pumps_def new_conn_def)
  fix cs cs' assume "conn_step c cs cs'" and inv: "bytes_inv c cs"
  then show "bytes_inv c cs'"
  proof cases
    case (c_data data ok cs1)
    with bytes_inv_outbound [OF assms inv c_data(2,4,6)] show ?thesis by simp
  next
    case (c_write f fs ok cs1 d b w)
    have inv1: "bytes_inv c (cs\<lparr>cs_in := fs\<rparr>)" and n: "int (length (tf_Data f)) \<le> 2 ^ 31"
      using inv c_write(3) by (auto simp: bytes_inv_def relayed_def stopped_pumps_def)
    have ref: "log_refused cs \<le> 1" using running_refused [OF inv] c_write(2) by simp
    note eq = chargeBytes_exact [OF assms inv1 _ _ n, simplified]
    have d: "int (length d) \<le> int (length (tf_Data f))" using c_write(6) prefix_length_le by fastforce
    show ?thesis
    proof (cases "cs_bytes cs + int (length (tf_Data f)) \<le> max_bytes c")
      case True
      with eq c_write(5) ref have "ok" "cs1 = cs\<lparr>cs_in := fs, cs_bytes := cs_bytes cs + int (length (tf_Data f))\<rparr>" by auto
      then show ?thesis using c_write(1) inv1 True d by (auto simp: bytes_inv_def relayed_def stopped_pumps_def stop_pump_def split: if_splits)
    next
      case False
      with eq c_write(5) ref have "\<not> ok"
        "cs1 = (cancel_conn (cs\<lparr>cs_in := fs, cs_bytes := cs_bytes cs + int (length (tf_Data f))\<rparr>))\<lparr>log_refused := log_refused cs + 1\<rparr>" by auto
      moreover have "cs_bytes cs + int (length (tf_Data f)) \<le> max_bytes c + 2 ^ 31 * (int (log_refused cs) + 1)"
        using inv n by (simp add: bytes_inv_def algebra_simps)
      ultimately show ?thesis using c_write(1,2) inv1 by (simp add: bytes_inv_def relayed_def stopped_pumps_def split: if_splits)
    qed
  qed (use inv in \<open>auto simp: bytes_inv_def relayed_def stopped_pumps_def stop_pump_def split: if_splits\<close>)
qed

lemma tunnel_reachable:
  assumes "(tunnel_step c)\<^sup>*\<^sup>* tunnel_init t"
  shows "reg_inv t" "all_conns (body_inv c) t" "limits_ok c \<Longrightarrow> all_conns (bytes_inv c) t"
proof -
  have "reg_inv tunnel_init" "all_conns P tunnel_init" for P by (simp_all add: reg_inv_def all_conns_def tunnel_init_def)
  with assms show "reg_inv t" "all_conns (body_inv c) t" "limits_ok c \<Longrightarrow> all_conns (bytes_inv c) t"
    by (induction rule: rtranclp_induct) (blast intro: reg_inv_step all_conns_step body_inv_kept bytes_inv_kept)+
qed

end
