(* ===== verification/Tunnel_Session.thy ===== *)
theory Tunnel_Session
  imports Tunnel_Agent
begin

text \<open>
  The sessions of the kubectl tunnel (\<open>internal/tunnelagent/client.go\<close> over \<open>handler.go\<close>): what holds of
  every connection and of the registry in every reachable state of \<open>tunnel_step\<close>, when the end of a
  session leaves no connection behind, and two runs in which the code does less than its comments promise.
\<close>

section \<open>The reset at the end of a session\<close>

text \<open>With no receive loop left, the reset has yet to wait for every connection still in the registry.\<close>

definition reset_inv :: "tunnel \<Rightarrow> bool" where
  "reset_inv t \<longleftrightarrow>
     (\<forall>ns. tn_phase t = TEnding ns \<and> log_quiet t \<longrightarrow> \<not> tn_recv t \<and> tn_late t = [] \<and> ran (tn_reg t) \<subseteq> set ns)"

lemma reset_inv_frame [simp]:
  "reset_inv (tunnel_send m t) = reset_inv t" "reset_inv (set_conn n cs t) = reset_inv t"
  "reset_inv (t\<lparr>tn_queue := q\<rparr>) = reset_inv t" "reset_inv (t\<lparr>log_wire := q\<rparr>) = reset_inv t" "reset_inv (t\<lparr>log_lost := q\<rparr>) = reset_inv t"
  "reset_inv (t\<lparr>tn_pump := b\<rparr>) = reset_inv t"
  by (simp_all add: reset_inv_def)

lemma ran_registered:
  assumes "reg_inv t"
  shows "ran (tn_reg t) = set (registered t)"
  using reg_invD [OF assms] by (fastforce simp: registered_def ran_def)

lemma handle_frame:
  "tn_phase (handle m t) = tn_phase t" "tn_recv (handle m t) = tn_recv t" "tn_late (handle m t) = tn_late t"
  "log_quiet (handle m t) = log_quiet t" "tn_queue t = [] \<Longrightarrow> tm_Payload m = POpen op \<Longrightarrow> tn_queue (handle m t) = []"
  by (simp_all add: handle_def openConn_def deliverFrame_def closeFromHub_def Let_def split: tunnel_payload.split option.split)

lemma reset_inv_handle:
  assumes "reset_inv t" and "tn_recv t \<or> tn_late t \<noteq> []"
  shows "reset_inv (handle m (t\<lparr>tn_late := l\<rparr>))"
  using assms unfolding reset_inv_def handle_frame by auto

lemma reset_inv_unregister:
  "reset_inv t \<Longrightarrow> reset_inv (unregister n t)"
  unfolding reset_inv_def unregister_def Let_def by (auto simp: ran_def split: if_splits)

lemma reset_inv_step:
  assumes "tunnel_step c t t'" and "reset_inv t" and reg: "reg_inv t"
  shows "reset_inv t'"
  using assms(1)
proof cases
  case (received m)
  with reset_inv_handle [OF assms(2), of m "tn_late t"] show ?thesis by simp
next
  case (received_late xs m ys)
  with reset_inv_handle [OF assms(2), of m "xs @ ys"] show ?thesis by simp
next
  case session_ends
  with ran_registered [OF reg] show ?thesis by (auto simp: reset_inv_def)
next
  case (reset_waited n ns)
  have "n \<notin> ran (tn_reg t)" using reg_invD [OF reg] reset_waited(3) by (auto simp: ran_def)
  with reset_waited assms(2) show ?thesis by (auto simp: reset_inv_def)
next
  case (frame_taken n ok)
  with assms(2) show ?thesis by (auto simp: inbound_frame_def Let_def split: prod.split bool.split)
next
  case (conn_returned n)
  with assms(2) show ?thesis by (simp add: reset_inv_unregister)
next
  case receive_failed
  with assms(2) show ?thesis by (auto simp: reset_inv_def)
qed (use assms(2) in \<open>auto simp: relay_failed_def relay_opened_def outbound_data_def outbound_end_def Let_def reset_inv_def
      split: prod.splits bool.splits if_splits\<close>)

lemma reset_reachable:
  assumes "(tunnel_step c)\<^sup>*\<^sup>* tunnel_init t"
  shows "reset_inv t"
  using assms
proof (induction rule: rtranclp_induct)
  case base
  show ?case by (simp add: reset_inv_def tunnel_init_def)
next
  case (step t t')
  with tunnel_reachable(1) [OF step(1)] show ?case by (blast intro: reset_inv_step)
qed


section \<open>Live connections\<close>

definition live_conns :: "tunnel \<Rightarrow> connState list" where
  "live_conns t = filter (\<lambda>cs. cs_pc cs \<noteq> Finished) (tn_conns t)"

lemma live_ids:
  assumes "reg_inv t"
  shows "distinct (map cs_id (live_conns t))" "cs_id ` set (live_conns t) = dom (tn_reg t)"
proof -
  define live where "live = filter (\<lambda>n. cs_pc (conn_at t n) \<noteq> Finished) [0..<length (tn_conns t)]"
  have "tn_conns t = map (conn_at t) [0..<length (tn_conns t)]"
    by (simp add: conn_at_def [abs_def] map_nth)
  then have eq: "live_conns t = map (conn_at t) live" unfolding live_conns_def live_def by (metis (no_types, lifting) filter_cong filter_map o_apply)
  have reg: "tn_reg t (cs_id (conn_at t n)) = Some n" if "n \<in> set live" for n
    using that assms by (auto simp: live_def reg_inv_def)
  have "inj_on (\<lambda>n. cs_id (conn_at t n)) (set live)"
    by (rule inj_onI) (metis reg option.inject)
  moreover have "distinct live" by (simp add: live_def)
  ultimately show "distinct (map cs_id (live_conns t))" unfolding eq by (simp add: distinct_map comp_def)
  have "n \<in> set live \<and> cs_id (conn_at t n) = i" if "tn_reg t i = Some n" for i n
    using reg_invD [OF assms that] by (simp add: live_def)
  then have "dom (tn_reg t) \<subseteq> cs_id ` set (live_conns t)" unfolding eq by (fastforce simp: image_iff)
  moreover have "cs_id ` set (live_conns t) \<subseteq> dom (tn_reg t)" unfolding eq using reg by auto
  ultimately show "cs_id ` set (live_conns t) = dom (tn_reg t)" by (rule equalityI [rotated])
qed

section \<open>Runs\<close>

definition default_config :: handler_config where
  "default_config = \<lparr>hc_FrameSize = 0, hc_MaxConnBytes = 0, hc_MaxConnLifetime = 0\<rparr>"

lemma default_limits [simp]:
  "frame_size default_config = 32768" "max_bytes default_config = 1073741824"
  by (simp_all add: default_config_def frame_size_def max_bytes_def DefaultFrameSize_def DefaultMaxConnBytes_def)

text \<open>A state in which a session has just begun, one open message received in it.\<close>

definition tunnel_live :: tunnel where
  "tunnel_live = tunnel_init\<lparr>tn_phase := TLive, tn_send := True, tn_queue := [], tn_recv := True, tn_pump := True\<rparr>"

definition open_message :: "string \<Rightarrow> TunnelOpen \<Rightarrow> TunnelMessage" where
  "open_message i op = \<lparr>tm_ConnectionId = i, tm_Payload = POpen (Some op)\<rparr>"

definition one_conn :: "connState \<Rightarrow> tunnel" where
  "one_conn cs = tunnel_live\<lparr>tn_conns := [cs], tn_reg := [cs_id cs \<mapsto> 0]\<rparr>"

lemma live_reachable: "(tunnel_step c)\<^sup>*\<^sup>* tunnel_init tunnel_live"
  using session_opened [of tunnel_init c] by (simp add: tunnel_live_def tunnel_init_def)

lemma handle_open:
  assumes "i \<noteq> []" and "tn_conns t = []" and "tn_reg t = Map.empty"
  shows "handle (open_message i op) t = t\<lparr>tn_conns := [new_conn i op], tn_reg := [i \<mapsto> 0]\<rparr>"
  using assms by (simp add: handle_def open_message_def openConn_def)

lemma one_conn_reachable:
  assumes "i \<noteq> []"
  shows "(tunnel_step c)\<^sup>*\<^sup>* tunnel_init (one_conn (new_conn i op))"
proof -
  have "tunnel_step c tunnel_live (handle (open_message i op) tunnel_live)"
    by (rule received) (simp_all add: tunnel_live_def message_ok_def open_message_def)
  with live_reachable [of c] handle_open [OF assms, of tunnel_live op] show ?thesis
    by (simp add: tunnel_live_def tunnel_init_def one_conn_def new_conn_def)
qed

text \<open>The send pump empties the queue of a session.\<close>

lemma pump_all:
  assumes "tn_pump t"
  shows "(tunnel_step c)\<^sup>*\<^sup>* t (t\<lparr>tn_queue := [], log_wire := log_wire t @ tn_queue t\<rparr>)"
  using assms
proof (induction "tn_queue t" arbitrary: t)
  case Nil
  then show ?case by (cases t) simp
next
  case (Cons m ms)
  let ?t = "t\<lparr>tn_queue := ms, log_wire := log_wire t @ [m]\<rparr>"
  have "tunnel_step c t ?t" using Cons by (intro pumped) simp_all
  moreover have "(tunnel_step c)\<^sup>*\<^sup>* ?t (t\<lparr>tn_queue := [], log_wire := log_wire t @ tn_queue t\<rparr>)"
    using Cons(1) [of ?t] Cons(3) unfolding Cons(2) [symmetric] by simp
  ultimately show ?case by (rule converse_rtranclp_into_rtranclp)
qed


text \<open>A connection that has relayed \<open>k\<close> bytes of a body of \<open>n\<close> bytes, each read giving one.\<close>

definition sample_request :: TunnelOpen where
  "sample_request = \<lparr>to_Method = ''GET'', to_Path = ''/api'', to_Headers = fmempty, to_UpgradeExpected = False\<rparr>"

definition sample_result :: Result where
  "sample_result = \<lparr>rs_Status = 200, rs_Header = Map.empty, rs_Body = ResponseBody, rs_Upgraded = False\<rparr>"

definition slow_body :: "nat \<Rightarrow> string" where
  "slow_body n = replicate n CHR ''x''"

definition slow_conn :: "nat \<Rightarrow> nat \<Rightarrow> connState" where
  "slow_conn n k = (new_conn ''a'' sample_request)\<lparr>cs_pc := Pumping, cs_rest := slow_body (n - k), cs_bytes := int k,
     log_frames := replicate k (slow_body 1), log_body := slow_body n\<rparr>"

definition slow_state :: "nat \<Rightarrow> nat \<Rightarrow> TunnelMessage list \<Rightarrow> TunnelMessage list \<Rightarrow> tunnel" where
  "slow_state n k q l = (one_conn (slow_conn n k))\<lparr>tn_queue := q, log_lost := l\<rparr>"

definition slow_frame :: TunnelMessage where
  "slow_frame = \<lparr>tm_ConnectionId = ''a'', tm_Payload = PFrame (Some \<lparr>tf_Data = slow_body 1, tf_HalfClose = False\<rparr>)\<rparr>"

definition slow_head :: TunnelMessage where
  "slow_head = \<lparr>tm_ConnectionId = ''a'', tm_Payload = POpenResult 200 Map.empty\<rparr>"

lemmas run_defs = slow_state_def slow_conn_def one_conn_def tunnel_live_def tunnel_init_def conn_at_def set_conn_def new_conn_def
  message_def Let_def

lemma slow_start: "(tunnel_step default_config)\<^sup>*\<^sup>* tunnel_init (slow_state n 0 [slow_head] [])"
proof -
  let ?t = "one_conn (new_conn ''a'' sample_request)"
  have "tunnel_step default_config ?t (relay_opened 0 sample_result (slow_body n) ?t)"
    by (rule relay_answers) (simp_all add: run_defs)
  also have "relay_opened 0 sample_result (slow_body n) ?t = slow_state n 0 [slow_head] []"
    by (simp add: relay_opened_def run_defs tunnel_send_def queue_cap_def sample_result_def slow_head_def headerMap_def)
  finally show ?thesis using one_conn_reachable [of "''a''" default_config sample_request] by (auto intro: rtranclp.rtrancl_into_rtrancl)
qed

lemma slow_read:
  assumes "k < n" and "n < 2 ^ 20"
  shows "tunnel_step default_config (slow_state n k q l)
    (if length q < queue_cap then slow_state n (k + 1) (q @ [slow_frame]) l else slow_state n (k + 1) q (l @ [slow_frame]))"
    (is "tunnel_step _ ?t ?t'")
proof -
  obtain j where j: "n - k = Suc j" using assms(1) by (cases "n - k") auto
  then have rest: "slow_body (n - k) = slow_body 1 @ slow_body j" "n - Suc k = j" by (simp_all add: slow_body_def)
  have "wrap64 (int k + 1) = int k + 1" using assms by (intro wrap64_small) simp_all
  moreover have "replicate k d @ [d] = d # replicate k d" for d :: string by (induction k) simp_all
  ultimately have "outbound_data default_config 0 (slow_body 1) ?t = ?t'"
    using assms rest by (auto simp: outbound_data_def run_defs chargeBytes_def tunnel_send_def slow_frame_def slow_body_def)
  moreover have "tunnel_step default_config ?t (outbound_data default_config 0 (slow_body 1) ?t)"
    using rest by (intro body_read) (simp_all add: run_defs slow_body_def)
  ultimately show ?thesis by simp
qed

lemma slow_fill:
  assumes "k \<le> n" and "n < 2 ^ 20" and "length q + k \<le> queue_cap"
  shows "(tunnel_step default_config)\<^sup>*\<^sup>* (slow_state n 0 q []) (slow_state n k (q @ replicate k slow_frame) [])"
  using assms
proof (induction k)
  case (Suc k)
  then have "tunnel_step default_config (slow_state n k (q @ replicate k slow_frame) []) (slow_state n (Suc k) (q @ replicate (Suc k) slow_frame) [])"
    using slow_read [of k n "q @ replicate k slow_frame" "[]"] by (simp add: replicate_append_same)
  with Suc show ?case by (auto intro: rtranclp.rtrancl_into_rtrancl)
qed simp


text \<open>The data of a connection among the messages on the wire.\<close>

definition wire_data :: "string \<Rightarrow> TunnelMessage list \<Rightarrow> string" where
  "wire_data i ms =
     concat (map (\<lambda>m. case tm_Payload m of PFrame (Some f) \<Rightarrow> if tm_ConnectionId m = i then tf_Data f else [] | _ \<Rightarrow> []) ms)"

lemma wire_data_frames: "wire_data ''a'' (slow_head # replicate k slow_frame @ [\<lparr>tm_ConnectionId = ''a'', tm_Payload = PClose r\<rparr>]) = slow_body k"
  by (induction k) (simp_all add: wire_data_def slow_head_def slow_frame_def slow_body_def)

lemma slow_body_longer: "strict_prefix (slow_body n) (slow_body (Suc n))"
  using replicate_append_same [of n "CHR ''x''"]
  by (auto simp: slow_body_def strict_prefix_def prefix_def intro!: exI [of _ "''x''"])

text \<open>The body has been read to its end, with \<open>q\<close> in the queue before the close.\<close>

definition ended_conn :: "nat \<Rightarrow> connState" where
  "ended_conn n = (slow_conn n n)\<lparr>cs_pc := Finishing, log_close := Some ''complete''\<rparr>"

definition ended_state :: "nat \<Rightarrow> TunnelMessage list \<Rightarrow> TunnelMessage list \<Rightarrow> TunnelMessage list \<Rightarrow> tunnel" where
  "ended_state n q w l =
     (one_conn (ended_conn n))\<lparr>tn_queue := q @ [\<lparr>tm_ConnectionId = ''a'', tm_Payload = PClose ''complete''\<rparr>], log_wire := w, log_lost := l\<rparr>"

lemma slow_end:
  assumes "length q < queue_cap"
  shows "tunnel_step default_config ((slow_state n n q l)\<lparr>log_wire := w\<rparr>) (ended_state n q w l)"
proof -
  let ?t = "(slow_state n n q l)\<lparr>log_wire := w\<rparr>"
  have "outbound_end 0 EOF ?t = ended_state n q w l"
    using assms by (simp add: outbound_end_def run_defs close_reason_def tunnel_send_def ended_state_def ended_conn_def)
  moreover have "tunnel_step default_config ?t (outbound_end 0 EOF ?t)"
    by (rule body_ended) (simp_all add: run_defs slow_body_def)
  ultimately show ?thesis by simp
qed

lemma slow_complete: "(tunnel_step default_config)\<^sup>*\<^sup>* tunnel_init (ended_state 1 [slow_head, slow_frame] [] [])"
proof -
  have "(tunnel_step default_config)\<^sup>*\<^sup>* (slow_state 1 0 [slow_head] []) (slow_state 1 1 [slow_head, slow_frame] [])"
    using slow_fill [of 1 1 "[slow_head]"] by (simp add: queue_cap_def)
  moreover have "tunnel_step default_config (slow_state 1 1 [slow_head, slow_frame] []) (ended_state 1 [slow_head, slow_frame] [] [])"
    using slow_end [where q = "[slow_head, slow_frame]" and n = 1 and l = "[]" and w = "[]"] by (simp add: queue_cap_def slow_state_def one_conn_def tunnel_live_def tunnel_init_def)
  ultimately show ?thesis using slow_start [of 1] by (meson rtranclp.rtrancl_into_rtrancl rtranclp_trans)
qed

text \<open>The receive loop fails, the reset begins, the relay gives up, the connection returns and the reset is done.\<close>

definition reset_conn :: connState where
  "reset_conn = (cancel_conn (new_conn ''a'' sample_request))\<lparr>log_close := Some ''open-failed'', cs_done := True, cs_pc := Finished\<rparr>"

definition reset_state :: tunnel where
  "reset_state = (one_conn reset_conn)\<lparr>tn_reg := Map.empty, tn_send := False, tn_recv := False, tn_phase := TEnding [],
     log_lost := map (message reset_conn) [POpenError Canceled, PClose ''open-failed'']\<rparr>"

lemma reset_run: "(tunnel_step default_config)\<^sup>*\<^sup>* tunnel_init reset_state"
proof -
  let ?S = "tunnel_step default_config" and ?t0 = "one_conn (new_conn ''a'' sample_request)"
  let ?t1 = "?t0\<lparr>tn_recv := False\<rparr>"
  let ?t2 = "?t1\<lparr>tn_send := False, tn_phase := TEnding [0]\<rparr>"
  let ?t4 = "relay_failed 0 Canceled ?t2"
  have "?S ?t0 ?t1" by (rule receive_failed) (simp add: one_conn_def tunnel_live_def)
  moreover have "?S ?t1 ?t2" using session_ends [of ?t1 default_config] by (simp add: run_defs registered_def)
  moreover have "?S ?t2 ?t4" by (rule relay_fails) (simp_all add: run_defs)
  moreover have "?S ?t4 (unregister 0 ?t4)" by (rule conn_returned) (simp_all add: relay_failed_def run_defs)
  moreover have "?S (unregister 0 ?t4) (unregister 0 ?t4\<lparr>tn_phase := TEnding []\<rparr>)"
    by (rule reset_waited [where n = 0]) (simp_all add: unregister_def relay_failed_def run_defs cancel_conn_def)
  moreover have "unregister 0 ?t4\<lparr>tn_phase := TEnding []\<rparr> = reset_state"
    by (simp add: unregister_def relay_failed_def reset_state_def reset_conn_def tunnel_send_def run_defs cancel_conn_def)
  ultimately show ?thesis
    using one_conn_reachable [of "''a''" default_config sample_request] by (simp add: rtranclp.rtrancl_into_rtrancl)
qed

section \<open>Properties\<close>

text \<open>
  C25. A tunneled connection never relays more than its byte cap, both directions counted together: in
  every reachable state the bytes written to the API server and the bytes sent to the hub stay
  within \<open>MaxConnBytes\<close>, although two goroutines charge the shared 64-bit counter and a refused
  charge leaves it above the cap.
\<close>

theorem tunnel_bytes_capped:
  assumes "(tunnel_step c)\<^sup>*\<^sup>* tunnel_init t" and "limits_ok c" and "cs \<in> set (tn_conns t)"
  shows "int (length (log_written cs)) + int (length (concat (log_frames cs))) \<le> max_bytes c"
  using tunnel_reachable(3) [OF assms(1,2)] assms(3) by (auto simp: all_conns_def bytes_inv_def relayed_def)

theorem tunnel_bytes_capped_witness:
  "int (length (log_written (ended_conn 1))) + int (length (concat (log_frames (ended_conn 1)))) \<le> max_bytes default_config
   \<and> concat (log_frames (ended_conn 1)) \<noteq> []"
  using tunnel_bytes_capped [OF slow_complete, of "ended_conn 1"]
  by (simp add: limits_ok_def ended_state_def one_conn_def ended_conn_def slow_conn_def slow_body_def)



text \<open>
  The hub can nevertheless be told that a truncated response is complete: with the send queue of the
  session full, a data frame is dropped while the connection goes on, and when the queue drains the close
  with reason "complete" follows the frames that were kept.
\<close>

theorem dropped_frame_reported_complete:
  "\<exists>t cs. (tunnel_step default_config)\<^sup>*\<^sup>* tunnel_init t \<and> tn_phase t = TLive \<and> tn_conns t = [cs] \<and> tn_queue t = []
     \<and> last (log_wire t) = message cs (PClose ''complete'') \<and> concat (log_frames cs) = log_body cs
     \<and> strict_prefix (wire_data (cs_id cs) (log_wire t)) (log_body cs)"
proof -
  let ?S = "(tunnel_step default_config)\<^sup>*\<^sup>*" and ?fs = "replicate 255 slow_frame"
  let ?t1 = "slow_state 256 256 (slow_head # ?fs) [slow_frame]" and ?t2 = "(slow_state 256 256 ?fs [slow_frame])\<lparr>log_wire := [slow_head]\<rparr>"
  let ?t3 = "ended_state 256 ?fs [slow_head] [slow_frame]"
  let ?t4 = "?t3\<lparr>tn_queue := [], log_wire := log_wire ?t3 @ tn_queue ?t3\<rparr>"
  have "?S (slow_state 256 0 [slow_head] []) (slow_state 256 255 (slow_head # ?fs) [])"
    using slow_fill [of 255 256 "[slow_head]"] by (simp add: queue_cap_def)
  moreover have "tunnel_step default_config (slow_state 256 255 (slow_head # ?fs) []) ?t1"
    using slow_read [of 255 256 "slow_head # ?fs" "[]"] by (simp add: queue_cap_def)
  moreover have "tunnel_step default_config ?t1 ?t2"
    using pumped [of ?t1 slow_head ?fs default_config] by (simp add: slow_state_def one_conn_def tunnel_live_def tunnel_init_def)
  moreover have "tunnel_step default_config ?t2 ?t3" by (rule slow_end) (simp add: queue_cap_def)
  moreover have "?S ?t3 ?t4" by (rule pump_all) (simp add: ended_state_def one_conn_def tunnel_live_def)
  ultimately have reach: "?S tunnel_init ?t4" using slow_start [of 256] by (meson rtranclp.rtrancl_into_rtrancl rtranclp_trans)
  have wire: "log_wire ?t4 = slow_head # ?fs @ [\<lparr>tm_ConnectionId = ''a'', tm_Payload = PClose ''complete''\<rparr>]" by (simp add: ended_state_def)
  have "strict_prefix (slow_body 255) (slow_body 256)" using slow_body_longer [of 255] by simp
  then have "strict_prefix (wire_data ''a'' (log_wire ?t4)) (slow_body 256)" unfolding wire wire_data_frames .
  moreover have "concat (replicate 256 (slow_body 1)) = slow_body 256" by (simp add: slow_body_def)
  moreover have "last (log_wire ?t4) = \<lparr>tm_ConnectionId = ''a'', tm_Payload = PClose ''complete''\<rparr>" unfolding wire by simp
  moreover have "tn_phase ?t4 = TLive" "tn_conns ?t4 = [ended_conn 256]" "tn_queue ?t4 = []"
    by (simp_all add: ended_state_def one_conn_def tunnel_live_def)
  moreover have "cs_id (ended_conn 256) = ''a''" "log_body (ended_conn 256) = slow_body 256"
    "log_frames (ended_conn 256) = replicate 256 (slow_body 1)"
    by (simp_all add: ended_conn_def slow_conn_def new_conn_def)
  ultimately show ?thesis using reach by (intro exI [of _ ?t4] exI [of _ "ended_conn 256"]) (simp only: message_def simp_thms)
qed


text \<open>
  A session that ends because its receive loop failed leaves nothing behind: when the reset is done, no
  connection is registered and every connection that was ever opened has returned.
\<close>

theorem receive_error_resets_all:
  assumes "(tunnel_step c)\<^sup>*\<^sup>* tunnel_init t" and "tn_phase t = TEnding []" and "log_quiet t"
  shows "ActiveConns t = 0 \<and> (\<forall>cs \<in> set (tn_conns t). cs_pc cs = Finished \<and> cs_done cs)"
proof -
  have "ran (tn_reg t) = {}" using reset_reachable [OF assms(1)] assms(2,3) by (simp add: reset_inv_def)
  then have none: "tn_reg t = Map.empty" by (auto simp: ran_def fun_eq_iff not_Some_eq [symmetric] simp del: not_Some_eq)
  have "cs_pc cs = Finished \<and> cs_done cs" if "cs \<in> set (tn_conns t)" for cs
    using that tunnel_reachable(1) [OF assms(1)] none by (auto simp: reg_inv_def in_set_conv_nth conn_at_def)
  with none show ?thesis by (simp add: ActiveConns_def)
qed

theorem receive_error_resets_all_witness:
  "tn_phase reset_state = TEnding [] \<and> ActiveConns reset_state = 0 \<and> length (tn_conns reset_state) = 1"
  using receive_error_resets_all [OF reset_run] by (simp add: reset_state_def one_conn_def tunnel_live_def tunnel_init_def)

text \<open>
  C29. A session that ends otherwise, such as by the planned rotation before the token expires, does not: its
  receive loop still runs while the connections are reset, so a connection opened then survives the
  session. It is live while no session is up, it answers on the session opened next, and there
  an open with its id is ignored.
\<close>

theorem connection_survives_reset:
  "\<exists>t t'. (tunnel_step default_config)\<^sup>*\<^sup>* tunnel_init t \<and> tn_phase t = TDown \<and> tn_reg t ''a'' = Some 0
     \<and> tunnel_step default_config t t' \<and> tn_phase t' = TLive \<and> cs_cause (conn_at t' 0) = None \<and> cs_pc (conn_at t' 0) = Opening
     \<and> (\<forall>op. handle (open_message ''a'' op) t' = t')
     \<and> (\<forall>res body. tn_queue (relay_opened 0 res body t')
          = [message (conn_at t' 0) (POpenResult (rs_Status res) (headerMap (rs_Header res)))])"
proof -
  let ?S = "tunnel_step default_config"
  define cs where "cs = new_conn ''a'' sample_request"
  define t1 where "t1 = tunnel_live\<lparr>tn_send := False, tn_phase := TEnding [], log_quiet := False\<rparr>"
  define t2 where "t2 = t1\<lparr>tn_conns := [cs], tn_reg := [''a'' \<mapsto> 0]\<rparr>"
  define t3 where "t3 = t2\<lparr>tn_phase := TDown, tn_recv := False, tn_pump := False\<rparr>"
  define t4 where "t4 = t3\<lparr>tn_phase := TLive, tn_send := True, tn_queue := [], tn_recv := True, tn_pump := True\<rparr>"
  note defs = t4_def t3_def t2_def t1_def tunnel_live_def tunnel_init_def
  have "?S tunnel_live t1" using session_ends [of tunnel_live default_config] by (simp add: defs registered_def)
  moreover have "?S t1 t2"
    using received [of t1 "open_message ''a'' sample_request" default_config] handle_open [of "''a''" t1 sample_request]
    by (simp add: t2_def cs_def) (simp add: t1_def tunnel_live_def tunnel_init_def message_ok_def open_message_def)
  moreover have "?S t2 t3" using session_closed [of t2 "[]" default_config] by (simp add: defs)
  ultimately have "?S\<^sup>*\<^sup>* tunnel_init t3" using live_reachable [of default_config] by (meson rtranclp.rtrancl_into_rtrancl)
  moreover have "?S t3 t4" using session_opened [of t3 default_config] by (simp add: defs)
  moreover have "handle (open_message ''a'' op) t4 = t4" for op
    by (simp add: handle_def open_message_def openConn_def defs)
  moreover have "tn_queue (relay_opened 0 res body t4)
      = [message (conn_at t4 0) (POpenResult (rs_Status res) (headerMap (rs_Header res)))]" for res body
    by (simp add: relay_opened_def tunnel_send_def queue_cap_def defs Let_def)
  moreover have "tn_phase t3 = TDown" "tn_reg t3 ''a'' = Some 0" "tn_phase t4 = TLive" "conn_at t4 0 = cs"
    by (simp_all add: defs conn_at_def)
  ultimately show ?thesis by (intro exI [of _ t3] exI [of _ t4]) (simp add: cs_def new_conn_def)
qed

text \<open>
  C26. The registry is exact: connections that have not returned have pairwise different ids, \<open>ActiveConns\<close>
  counts exactly these, an open for the id of one of them changes nothing, and neither does a frame or a
  close for any other id.
\<close>

theorem one_connection_per_id:
  assumes "(tunnel_step c)\<^sup>*\<^sup>* tunnel_init t"
  shows "distinct (map cs_id (live_conns t)) \<and> ActiveConns t = length (live_conns t)
    \<and> (\<forall>op. \<forall>cs \<in> set (live_conns t). openConn (cs_id cs) op t = t)
    \<and> (\<forall>i f. i \<notin> cs_id ` set (live_conns t) \<longrightarrow> deliverFrame i f t = t \<and> closeFromHub i t = t)"
proof -
  note inv = tunnel_reachable(1) [OF assms]
  have "tn_reg t i = None" if "i \<notin> cs_id ` set (live_conns t)" for i
    using that live_ids(2) [OF inv] by auto
  moreover have "tn_reg t (cs_id cs) \<noteq> None" if "cs \<in> set (live_conns t)" for cs
    using that live_ids(2) [OF inv] by auto
  moreover have "ActiveConns t = length (live_conns t)"
    using distinct_card [OF live_ids(1) [OF inv]] live_ids(2) [OF inv] by (simp add: ActiveConns_def)
  ultimately show ?thesis using live_ids(1) [OF inv]
    by (auto simp: openConn_def deliverFrame_def closeFromHub_def split: option.split)
qed

theorem one_connection_per_id_witness:
  "distinct (map cs_id (live_conns (ended_state 1 [slow_head, slow_frame] [] [])))
   \<and> ActiveConns (ended_state 1 [slow_head, slow_frame] [] []) = 1"
  using one_connection_per_id [OF slow_complete]
  by (simp add: live_conns_def ended_state_def one_conn_def ended_conn_def)

end
