(* ===== verification/GitHub_Provider.thy ===== *)
theory GitHub_Provider
  imports Git_Provider "HOL-Library.Finite_Map"
begin

text \<open>
  The production provider of the state repository (\<open>internal/git/github.go\<close>) over the Git Data API;
  how it authenticates is in \<open>App_Auth\<close>.

  The API is the parameter record \<open>'w github\<close>; \<open>github_laws\<close> states what its documentation says of
  a repository as references, commits, trees and blobs, \<open>github_answers\<close> that an available server
  answers. \<open>mem_github\<close> is a server that keeps both.
\<close>

section \<open>The API (github.com/google/go-github)\<close>

record TreeEntry =
  te_Path :: string
  te_Mode :: string
  te_Type :: string
  te_SHA :: "string option"

text \<open>A repository is an owner with a name. References are named without their \<open>refs/\<close>, but for \<open>gh_CreateRef\<close>.\<close>

type_synonym repo = "string \<times> string"

record 'w github =
  gh_GetRef :: "repo \<Rightarrow> string \<Rightarrow> 'w \<Rightarrow> string res \<times> 'w"
  gh_GetCommit :: "repo \<Rightarrow> string \<Rightarrow> 'w \<Rightarrow> string res \<times> 'w"
  gh_CreateBlob :: "repo \<Rightarrow> string \<Rightarrow> 'w \<Rightarrow> string res \<times> 'w"
  gh_CreateTree :: "repo \<Rightarrow> string \<Rightarrow> TreeEntry list \<Rightarrow> 'w \<Rightarrow> string res \<times> 'w"
  gh_CreateCommit :: "repo \<Rightarrow> string \<Rightarrow> string \<Rightarrow> string list \<Rightarrow> 'w \<Rightarrow> string res \<times> 'w"
  gh_UpdateRef :: "repo \<Rightarrow> string \<Rightarrow> string \<Rightarrow> 'w \<Rightarrow> go_err option \<times> 'w"
  gh_CreateRef :: "repo \<Rightarrow> string \<Rightarrow> string \<Rightarrow> 'w \<Rightarrow> string res \<times> 'w"
  gh_ListPRs :: "repo \<Rightarrow> string \<Rightarrow> string \<Rightarrow> 'w \<Rightarrow> string list res \<times> 'w"
  gh_CreatePR :: "repo \<Rightarrow> string \<Rightarrow> string \<Rightarrow> string \<Rightarrow> string \<Rightarrow> 'w \<Rightarrow> string res \<times> 'w"

text \<open>The status of the first \<open>github.ErrorResponse\<close> in the chain of an error.\<close>

definition github_status :: "go_err \<Rightarrow> int option" where
  "github_status e =
     (case [x \<leftarrow> err_chain e. case x of GithubError c m \<Rightarrow> True | _ \<Rightarrow> False] of
        GithubError c m # _ \<Rightarrow> Some c | _ \<Rightarrow> None)"

section \<open>The provider (github.go)\<close>

definition file_entry :: "Target \<Rightarrow> string \<Rightarrow> string option \<Rightarrow> TreeEntry" where
  "file_entry target p sha = \<lparr>te_Path = FullPath target p, te_Mode = ''100644'', te_Type = ''blob'', te_SHA = sha\<rparr>"

text \<open>The loop of \<open>commitOnto\<close> over the files.\<close>

fun create_blobs :: "'w github \<Rightarrow> repo \<Rightarrow> Target \<Rightarrow> File list \<Rightarrow> 'w \<Rightarrow> TreeEntry list res \<times> 'w" where
  "create_blobs G rp target [] w = (Inr [], w)"
| "create_blobs G rp target (f # fs) w =
     (case gh_CreateBlob G rp (f_Content f) w of
        (Inl err, w1) \<Rightarrow> (Inl (Wrapf ''git: create blob for %s: %w'' [AStr (f_Path f)] err), w1)
      | (Inr sha, w1) \<Rightarrow>
          (case create_blobs G rp target fs w1 of
             (Inl err, w2) \<Rightarrow> (Inl err, w2)
           | (Inr es, w2) \<Rightarrow> (Inr (file_entry target (f_Path f) (Some sha) # es), w2)))"

text \<open>The tree over the tree \<open>base\<close> of a commit, and a commit of it unless it is \<open>base\<close> again.\<close>

definition commit_tree :: "'w github \<Rightarrow> repo \<Rightarrow> string \<Rightarrow> string \<Rightarrow> TreeEntry list \<Rightarrow> string \<Rightarrow> 'w \<Rightarrow> (string \<times> bool) res \<times> 'w" where
  "commit_tree G rp baseSHA base entries message w =
     (case gh_CreateTree G rp base entries w of
        (Inl err, w1) \<Rightarrow> (Inl (Wrapf ''git: create tree: %w'' [] err), w1)
      | (Inr tree, w1) \<Rightarrow>
          if tree = base then (Inr (baseSHA, False), w1)
          else case gh_CreateCommit G rp message tree [baseSHA] w1 of
            (Inl err, w2) \<Rightarrow> (Inl (Wrapf ''git: create commit: %w'' [] err), w2)
          | (Inr sha, w2) \<Rightarrow> (Inr (sha, True), w2))"

definition commitOnto ::
  "'w github \<Rightarrow> repo \<Rightarrow> string \<Rightarrow> Target \<Rightarrow> File list \<Rightarrow> string \<Rightarrow> 'w \<Rightarrow> (string \<times> bool) res \<times> 'w"
where
  "commitOnto G rp baseSHA target files message w =
     (case gh_GetCommit G rp baseSHA w of
        (Inl err, w1) \<Rightarrow> (Inl (Wrapf ''git: get commit %s: %w'' [AStr baseSHA] err), w1)
      | (Inr base, w1) \<Rightarrow>
          (case create_blobs G rp target files w1 of
             (Inl err, w2) \<Rightarrow> (Inl err, w2)
           | (Inr entries, w2) \<Rightarrow> commit_tree G rp baseSHA base entries message w2))"

text \<open>The end of \<open>CommitFiles\<close> and of \<open>DeleteFiles\<close>: move the branch to the commit, if there is one.\<close>

definition move_branch :: "'w github \<Rightarrow> repo \<Rightarrow> Target \<Rightarrow> string \<Rightarrow> (string \<times> bool) res \<times> 'w \<Rightarrow> (string \<times> bool) res \<times> 'w" where
  "move_branch G rp target headSHA r =
     (case r of
        (Inl err, w) \<Rightarrow> (Inl err, w)
      | (Inr (sha, changed), w) \<Rightarrow>
          if \<not> changed then (Inr (headSHA, False), w)
          else case gh_UpdateRef G rp (''heads/'' @ t_Branch target) sha w of
            (Some err, w1) \<Rightarrow> (Inl (Wrapf ''git: update ref heads/%s in %s: %w'' [AStr (t_Branch target), AStr (t_Repo target)] err), w1)
          | (None, w1) \<Rightarrow> (Inr (sha, True), w1))"

text \<open>\<open>None\<close> is the panic of \<open>OwnerName\<close> on a repository without a slash.\<close>

definition gh_CommitFiles :: "'w github \<Rightarrow> Target \<Rightarrow> File list \<Rightarrow> string \<Rightarrow> 'w \<Rightarrow> ((string \<times> bool) res \<times> 'w) option" where
  "gh_CommitFiles G target files message w =
     (case OwnerName target of
        None \<Rightarrow> None
      | Some rp \<Rightarrow> Some
          (case gh_GetRef G rp (''heads/'' @ t_Branch target) w of
             (Inl err, w1) \<Rightarrow> (Inl (Wrapf ''git: get ref heads/%s in %s: %w'' [AStr (t_Branch target), AStr (t_Repo target)] err), w1)
           | (Inr headSHA, w1) \<Rightarrow> move_branch G rp target headSHA (commitOnto G rp headSHA target files message w1)))"

definition gh_DeleteFiles :: "'w github \<Rightarrow> Target \<Rightarrow> string list \<Rightarrow> string \<Rightarrow> 'w \<Rightarrow> ((string \<times> bool) res \<times> 'w) option" where
  "gh_DeleteFiles G target paths message w =
     (if paths = [] then Some (Inr ([], False), w)
      else case OwnerName target of
        None \<Rightarrow> None
      | Some rp \<Rightarrow> Some
          (case gh_GetRef G rp (''heads/'' @ t_Branch target) w of
             (Inl err, w1) \<Rightarrow> (Inl (Wrapf ''git: get ref heads/%s in %s: %w'' [AStr (t_Branch target), AStr (t_Repo target)] err), w1)
           | (Inr headSHA, w1) \<Rightarrow>
               (case gh_GetCommit G rp headSHA w1 of
                  (Inl err, w2) \<Rightarrow> (Inl (Wrapf ''git: get commit %s: %w'' [AStr headSHA] err), w2)
                | (Inr base, w2) \<Rightarrow>
                    move_branch G rp target headSHA
                      (commit_tree G rp headSHA base (map (\<lambda>p. file_entry target p None) paths) message w2))))"

text \<open>The head of the topic branch, which is created from the base branch when it is missing.\<close>

definition topic_branch :: "'w github \<Rightarrow> repo \<Rightarrow> string \<Rightarrow> string \<Rightarrow> 'w \<Rightarrow> string res \<times> 'w" where
  "topic_branch G rp branch baseSHA w =
     (case gh_GetRef G rp (''heads/'' @ branch) w of
        (Inr sha, w1) \<Rightarrow> (Inr sha, w1)
      | (Inl err, w1) \<Rightarrow>
          if github_status err \<noteq> Some 404 then (Inl (Wrapf ''git: get topic branch %s: %w'' [AStr branch] err), w1)
          else case gh_CreateRef G rp (''refs/heads/'' @ branch) baseSHA w1 of
            (Inl err, w2) \<Rightarrow> (Inl (Wrapf ''git: create topic branch %s: %w'' [AStr branch] err), w2)
          | (Inr sha, w2) \<Rightarrow> (Inr sha, w2))"

text \<open>The pull request of the topic branch: the first open one, or a new one.\<close>

definition pull_request :: "'w github \<Rightarrow> repo \<Rightarrow> string \<Rightarrow> string \<Rightarrow> string \<Rightarrow> string \<Rightarrow> 'w \<Rightarrow> string res \<times> 'w" where
  "pull_request G rp base branch title body w =
     (let head = fst rp @ '':'' @ branch
      in case gh_ListPRs G rp head base w of
           (Inl err, w1) \<Rightarrow> (Inl (Wrapf ''git: list PRs for %s: %w'' [AStr head] err), w1)
         | (Inr (url # _), w1) \<Rightarrow> (Inr url, w1)
         | (Inr [], w1) \<Rightarrow>
             (case gh_CreatePR G rp title branch base body w1 of
                (Inr url, w2) \<Rightarrow> (Inr url, w2)
              | (Inl err, w2) \<Rightarrow>
                  (Inl (if github_status err = Some 422
                        then Wrapf ''git: open PR %s -> %s: %w (a PR may already exist)'' [AStr branch, AStr base] err
                        else Wrapf ''git: open PR %s -> %s: %w'' [AStr branch, AStr base] err), w2)))"

definition gh_OpenPR ::
  "'w github \<Rightarrow> Target \<Rightarrow> File list \<Rightarrow> string \<Rightarrow> string \<Rightarrow> string \<Rightarrow> 'w \<Rightarrow> (string res \<times> 'w) option"
where
  "gh_OpenPR G target files branch title body w =
     (case OwnerName target of
        None \<Rightarrow> None
      | Some rp \<Rightarrow> Some
          (case gh_GetRef G rp (''heads/'' @ t_Branch target) w of
             (Inl err, w1) \<Rightarrow> (Inl (Wrapf ''git: get base ref heads/%s in %s: %w'' [AStr (t_Branch target), AStr (t_Repo target)] err), w1)
           | (Inr baseSHA, w1) \<Rightarrow>
          case topic_branch G rp branch baseSHA w1 of
             (Inl err, w2) \<Rightarrow> (Inl err, w2)
           | (Inr topic, w2) \<Rightarrow>
          case commitOnto G rp topic target files title w2 of
             (Inl err, w3) \<Rightarrow> (Inl err, w3)
           | (Inr (sha, changed), w3) \<Rightarrow>
          case (if changed then gh_UpdateRef G rp (''heads/'' @ branch) sha w3 else (None, w3)) of
             (Some err, w4) \<Rightarrow> (Inl (Wrapf ''git: update topic branch %s: %w'' [AStr branch] err), w4)
           | (None, w4) \<Rightarrow> pull_request G rp (t_Branch target) branch title body w4))"

text \<open>As a provider. Its callers validate the target, so that the panic is not reached; it is an error here.\<close>

definition total :: "'w \<Rightarrow> ('a res \<times> 'w) option \<Rightarrow> 'a res \<times> 'w" where
  "total w r = (case r of None \<Rightarrow> (Inl (ExtError ''panic''), w) | Some x \<Rightarrow> x)"

definition github_provider :: "'w github \<Rightarrow> 'w Provider" where
  "github_provider G =
     \<lparr>CommitFiles = (\<lambda>t fs msg w. total w (gh_CommitFiles G t fs msg w)),
      OpenPR = (\<lambda>t fs b ti bo w. total w (gh_OpenPR G t fs b ti bo w)),
      DeleteFiles = (\<lambda>t ps msg w. total w (gh_DeleteFiles G t ps msg w))\<rparr>"

section \<open>What the API promises\<close>

text \<open>
  A view of the server: references to commits, commits to trees, trees to files with their
  blobs, blobs to contents, and the open pull requests with head, base and URL.
\<close>

record 'w github_view =
  v_ref :: "'w \<Rightarrow> repo \<times> string \<Rightarrow> string option"
  v_commit :: "'w \<Rightarrow> repo \<times> string \<Rightarrow> string option"
  v_tree :: "'w \<Rightarrow> repo \<times> string \<Rightarrow> (string \<Rightarrow> string option) option"
  v_blob :: "'w \<Rightarrow> repo \<times> string \<Rightarrow> string option"
  v_prs :: "'w \<Rightarrow> repo \<Rightarrow> (string \<times> string \<times> string) list"

definition overlay :: "TreeEntry list \<Rightarrow> (string \<Rightarrow> string option) \<Rightarrow> string \<Rightarrow> string option" where
  "overlay es F = fold (\<lambda>e F. F(te_Path e := te_SHA e)) es F"

text \<open>Objects are only added.\<close>

definition grown :: "'w github_view \<Rightarrow> 'w \<Rightarrow> 'w \<Rightarrow> bool" where
  "grown V w w' \<longleftrightarrow> v_commit V w \<subseteq>\<^sub>m v_commit V w' \<and> v_tree V w \<subseteq>\<^sub>m v_tree V w' \<and> v_blob V w \<subseteq>\<^sub>m v_blob V w'"

text \<open>In addition, no reference and no pull request changes.\<close>

definition only_grown :: "'w github_view \<Rightarrow> 'w \<Rightarrow> 'w \<Rightarrow> bool" where
  "only_grown V w w' \<longleftrightarrow> grown V w w' \<and> v_ref V w' = v_ref V w \<and> v_prs V w' = v_prs V w"

text \<open>
  A consistent server: references lead to commits and commits to trees, and objects are addressed by
  their content, so that equal trees and equal blobs have equal names.
\<close>

definition consistent :: "'w github_view \<Rightarrow> 'w \<Rightarrow> bool" where
  "consistent V w \<longleftrightarrow>
     (\<forall>rp r c. v_ref V w (rp, r) = Some c \<longrightarrow> v_commit V w (rp, c) \<noteq> None)
     \<and> (\<forall>rp c t. v_commit V w (rp, c) = Some t \<longrightarrow> v_tree V w (rp, t) \<noteq> None)
     \<and> (\<forall>rp t t' F. v_tree V w (rp, t) = Some F \<longrightarrow> v_tree V w (rp, t') = Some F \<longrightarrow> t = t')
     \<and> (\<forall>rp b b' x. v_blob V w (rp, b) = Some x \<longrightarrow> v_blob V w (rp, b') = Some x \<longrightarrow> b = b')"

definition github_laws :: "'w github \<Rightarrow> 'w github_view \<Rightarrow> ('w \<Rightarrow> bool) \<Rightarrow> bool" where
  "github_laws G V ok \<longleftrightarrow>
     (\<forall>w. ok w \<longrightarrow> consistent V w)
     \<and> (\<forall>w rp r x w'. ok w \<longrightarrow> gh_GetRef G rp r w = (x, w') \<longrightarrow>
          ok w' \<and> only_grown V w w' \<and> (\<forall>c. x = Inr c \<longrightarrow> v_ref V w (rp, r) = Some c))
     \<and> (\<forall>w rp c x w'. ok w \<longrightarrow> gh_GetCommit G rp c w = (x, w') \<longrightarrow>
          ok w' \<and> only_grown V w w' \<and> (\<forall>t. x = Inr t \<longrightarrow> v_commit V w (rp, c) = Some t))
     \<and> (\<forall>w rp s x w'. ok w \<longrightarrow> gh_CreateBlob G rp s w = (x, w') \<longrightarrow>
          ok w' \<and> only_grown V w w' \<and> (\<forall>b. x = Inr b \<longrightarrow> v_blob V w' (rp, b) = Some s))
     \<and> (\<forall>w rp base es x w'. ok w \<longrightarrow> gh_CreateTree G rp base es w = (x, w') \<longrightarrow>
          ok w' \<and> only_grown V w w'
          \<and> (\<forall>t. x = Inr t \<longrightarrow> (\<exists>F. v_tree V w (rp, base) = Some F \<and> v_tree V w' (rp, t) = Some (overlay es F))))
     \<and> (\<forall>w rp m t ps x w'. ok w \<longrightarrow> gh_CreateCommit G rp m t ps w = (x, w') \<longrightarrow>
          ok w' \<and> only_grown V w w' \<and> (\<forall>c. x = Inr c \<longrightarrow> v_commit V w' (rp, c) = Some t))
     \<and> (\<forall>w rp r c x w'. ok w \<longrightarrow> gh_UpdateRef G rp r c w = (x, w') \<longrightarrow>
          ok w' \<and> grown V w w' \<and> v_prs V w' = v_prs V w
          \<and> v_ref V w' = (if x = None then (v_ref V w)((rp, r) \<mapsto> c) else v_ref V w))
     \<and> (\<forall>w rp r c x w'. ok w \<longrightarrow> gh_CreateRef G rp (''refs/'' @ r) c w = (x, w') \<longrightarrow>
          ok w' \<and> grown V w w' \<and> v_prs V w' = v_prs V w
          \<and> (case x of Inl _ \<Rightarrow> v_ref V w' = v_ref V w | Inr c' \<Rightarrow> c' = c \<and> v_ref V w' = (v_ref V w)((rp, r) \<mapsto> c)))
     \<and> (\<forall>w rp h b x w'. ok w \<longrightarrow> gh_ListPRs G rp h b w = (x, w') \<longrightarrow>
          ok w' \<and> only_grown V w w' \<and> (\<forall>us. x = Inr us \<longrightarrow> us = [u. (h', b', u) \<leftarrow> v_prs V w rp, h' = h \<and> b' = b]))
     \<and> (\<forall>w rp ti h b bo x w'. ok w \<longrightarrow> gh_CreatePR G rp ti h b bo w = (x, w') \<longrightarrow>
          ok w' \<and> grown V w w' \<and> v_ref V w' = v_ref V w
          \<and> (case x of Inl _ \<Rightarrow> v_prs V w' = v_prs V w
             | Inr u \<Rightarrow> v_prs V w' = (v_prs V w)(rp := (fst rp @ '':'' @ h, b, u) # v_prs V w rp)))"

text \<open>An available server answers requests about what it has, and says 404 for a branch it does not have.\<close>

definition github_answers :: "'w github \<Rightarrow> 'w github_view \<Rightarrow> ('w \<Rightarrow> bool) \<Rightarrow> bool" where
  "github_answers G V ok \<longleftrightarrow>
     (\<forall>w. ok w \<longrightarrow>
        (\<forall>rp r. case v_ref V w (rp, r) of
             Some c \<Rightarrow> fst (gh_GetRef G rp r w) = Inr c
           | None \<Rightarrow> (\<exists>m. fst (gh_GetRef G rp r w) = Inl (GithubError 404 m)))
        \<and> (\<forall>rp c. v_commit V w (rp, c) \<noteq> None \<longrightarrow> (\<exists>t. fst (gh_GetCommit G rp c w) = Inr t))
        \<and> (\<forall>rp s. \<exists>b. fst (gh_CreateBlob G rp s w) = Inr b)
        \<and> (\<forall>rp base es. v_tree V w (rp, base) \<noteq> None \<longrightarrow> (\<exists>t. fst (gh_CreateTree G rp base es w) = Inr t))
        \<and> (\<forall>rp h b. \<exists>us. fst (gh_ListPRs G rp h b w) = Inr us))"


section \<open>Single calls\<close>

lemma github_lawsD:
  assumes "github_laws G V ok" and "ok w"
  shows "consistent V w"
    and "gh_GetRef G rp r w = (x, w') \<Longrightarrow> ok w' \<and> only_grown V w w' \<and> (\<forall>c. x = Inr c \<longrightarrow> v_ref V w (rp, r) = Some c)"
    and "gh_GetCommit G rp c w = (x, w') \<Longrightarrow> ok w' \<and> only_grown V w w' \<and> (\<forall>t. x = Inr t \<longrightarrow> v_commit V w (rp, c) = Some t)"
    and "gh_CreateBlob G rp s w = (x, w') \<Longrightarrow> ok w' \<and> only_grown V w w' \<and> (\<forall>b. x = Inr b \<longrightarrow> v_blob V w' (rp, b) = Some s)"
    and "gh_CreateTree G rp base es w = (x, w') \<Longrightarrow> ok w' \<and> only_grown V w w'
          \<and> (\<forall>t. x = Inr t \<longrightarrow> (\<exists>F. v_tree V w (rp, base) = Some F \<and> v_tree V w' (rp, t) = Some (overlay es F)))"
    and "gh_CreateCommit G rp m t ps w = (x, w') \<Longrightarrow> ok w' \<and> only_grown V w w' \<and> (\<forall>c. x = Inr c \<longrightarrow> v_commit V w' (rp, c) = Some t)"
    and "gh_UpdateRef G rp r c w = (y, w') \<Longrightarrow> ok w' \<and> grown V w w' \<and> v_prs V w' = v_prs V w
          \<and> v_ref V w' = (if y = None then (v_ref V w)((rp, r) \<mapsto> c) else v_ref V w)"
    and "gh_CreateRef G rp (''refs/'' @ r) c w = (x, w') \<Longrightarrow> ok w' \<and> grown V w w' \<and> v_prs V w' = v_prs V w
          \<and> (case x of Inl _ \<Rightarrow> v_ref V w' = v_ref V w | Inr c' \<Rightarrow> c' = c \<and> v_ref V w' = (v_ref V w)((rp, r) \<mapsto> c))"
    and "gh_ListPRs G rp h b w = (z, w') \<Longrightarrow>
          ok w' \<and> only_grown V w w' \<and> (\<forall>us. z = Inr us \<longrightarrow> us = [u. (h', b', u) \<leftarrow> v_prs V w rp, h' = h \<and> b' = b])"
    and "gh_CreatePR G rp ti h b bo w = (x, w') \<Longrightarrow> ok w' \<and> grown V w w' \<and> v_ref V w' = v_ref V w
          \<and> (case x of Inl _ \<Rightarrow> v_prs V w' = v_prs V w
             | Inr u \<Rightarrow> v_prs V w' = (v_prs V w)(rp := (fst rp @ '':'' @ h, b, u) # v_prs V w rp))"
proof -
  note L = assms(1) [unfolded github_laws_def]
  show "consistent V w" by (rule L [THEN conjunct1, rule_format, OF assms(2)])
  show "ok w' \<and> only_grown V w w' \<and> (\<forall>c. x = Inr c \<longrightarrow> v_ref V w (rp, r) = Some c)" if "gh_GetRef G rp r w = (x, w')"
    by (rule L [THEN conjunct2, THEN conjunct1, rule_format, OF assms(2) that])
  show "ok w' \<and> only_grown V w w' \<and> (\<forall>t. x = Inr t \<longrightarrow> v_commit V w (rp, c) = Some t)" if "gh_GetCommit G rp c w = (x, w')"
    by (rule L [THEN conjunct2, THEN conjunct2, THEN conjunct1, rule_format, OF assms(2) that])
  show "ok w' \<and> only_grown V w w' \<and> (\<forall>b. x = Inr b \<longrightarrow> v_blob V w' (rp, b) = Some s)" if "gh_CreateBlob G rp s w = (x, w')"
    by (rule L [THEN conjunct2, THEN conjunct2, THEN conjunct2, THEN conjunct1, rule_format, OF assms(2) that])
  show "ok w' \<and> only_grown V w w'
          \<and> (\<forall>t. x = Inr t \<longrightarrow> (\<exists>F. v_tree V w (rp, base) = Some F \<and> v_tree V w' (rp, t) = Some (overlay es F)))" if "gh_CreateTree G rp base es w = (x, w')"
    by (rule L [THEN conjunct2, THEN conjunct2, THEN conjunct2, THEN conjunct2, THEN conjunct1, rule_format, OF assms(2) that])
  show "ok w' \<and> only_grown V w w' \<and> (\<forall>c. x = Inr c \<longrightarrow> v_commit V w' (rp, c) = Some t)" if "gh_CreateCommit G rp m t ps w = (x, w')"
    by (rule L [THEN conjunct2, THEN conjunct2, THEN conjunct2, THEN conjunct2, THEN conjunct2, THEN conjunct1, rule_format, OF assms(2) that])
  show "ok w' \<and> grown V w w' \<and> v_prs V w' = v_prs V w
          \<and> v_ref V w' = (if y = None then (v_ref V w)((rp, r) \<mapsto> c) else v_ref V w)" if "gh_UpdateRef G rp r c w = (y, w')"
    by (rule L [THEN conjunct2, THEN conjunct2, THEN conjunct2, THEN conjunct2, THEN conjunct2, THEN conjunct2, THEN conjunct1, rule_format, OF assms(2) that])
  show "ok w' \<and> grown V w w' \<and> v_prs V w' = v_prs V w
          \<and> (case x of Inl _ \<Rightarrow> v_ref V w' = v_ref V w | Inr c' \<Rightarrow> c' = c \<and> v_ref V w' = (v_ref V w)((rp, r) \<mapsto> c))" if "gh_CreateRef G rp (''refs/'' @ r) c w = (x, w')"
    by (rule L [THEN conjunct2, THEN conjunct2, THEN conjunct2, THEN conjunct2, THEN conjunct2, THEN conjunct2, THEN conjunct2, THEN conjunct1, rule_format, OF assms(2) that])
  show "ok w' \<and> only_grown V w w' \<and> (\<forall>us. z = Inr us \<longrightarrow> us = [u. (h', b', u) \<leftarrow> v_prs V w rp, h' = h \<and> b' = b])" if "gh_ListPRs G rp h b w = (z, w')"
    by (rule L [THEN conjunct2, THEN conjunct2, THEN conjunct2, THEN conjunct2, THEN conjunct2, THEN conjunct2, THEN conjunct2, THEN conjunct2, THEN conjunct1, rule_format, OF assms(2) that])
  show "ok w' \<and> grown V w w' \<and> v_ref V w' = v_ref V w
          \<and> (case x of Inl _ \<Rightarrow> v_prs V w' = v_prs V w
             | Inr u \<Rightarrow> v_prs V w' = (v_prs V w)(rp := (fst rp @ '':'' @ h, b, u) # v_prs V w rp))" if "gh_CreatePR G rp ti h b bo w = (x, w')"
    by (rule L [THEN conjunct2, THEN conjunct2, THEN conjunct2, THEN conjunct2, THEN conjunct2, THEN conjunct2, THEN conjunct2, THEN conjunct2, THEN conjunct2, rule_format, OF assms(2) that])
qed

lemma grown_refl [simp]: "grown V w w" "only_grown V w w"
  by (simp_all add: grown_def only_grown_def)

lemma grown_trans: "grown V w w1 \<Longrightarrow> grown V w1 w2 \<Longrightarrow> grown V w w2"
  by (meson grown_def map_le_trans)

lemma only_grown_trans: "only_grown V w w1 \<Longrightarrow> only_grown V w1 w2 \<Longrightarrow> only_grown V w w2"
  by (auto simp: only_grown_def intro: grown_trans)

lemma only_grownD: "only_grown V w w' \<Longrightarrow> grown V w w'"
  by (simp add: only_grown_def)

lemma map_leD: "m \<subseteq>\<^sub>m m' \<Longrightarrow> m k = Some x \<Longrightarrow> m' k = Some x"
  by (metis domI map_le_def)

lemma consistentD:
  assumes "consistent V w"
  shows "v_ref V w (rp, r) = Some c \<Longrightarrow> \<exists>t. v_commit V w (rp, c) = Some t"
    and "v_commit V w (rp, c) = Some t \<Longrightarrow> \<exists>F. v_tree V w (rp, t) = Some F"
    and "v_tree V w (rp, t) = Some F \<Longrightarrow> v_tree V w (rp, t') = Some F \<Longrightarrow> t = t'"
    and "v_blob V w (rp, b) = Some x \<Longrightarrow> v_blob V w (rp, b') = Some x \<Longrightarrow> b = b'"
  using assms unfolding consistent_def by blast+

text \<open>The files of a commit.\<close>

definition files_at :: "'w github_view \<Rightarrow> 'w \<Rightarrow> repo \<Rightarrow> string \<Rightarrow> (string \<Rightarrow> string option) option" where
  "files_at V w rp c = Option.bind (v_commit V w (rp, c)) (\<lambda>t. v_tree V w (rp, t))"

lemma files_at_Some:
  "files_at V w rp c = Some F \<longleftrightarrow> (\<exists>t. v_commit V w (rp, c) = Some t \<and> v_tree V w (rp, t) = Some F)"
  by (auto simp: files_at_def bind_eq_Some_conv)

lemma files_at_grown: "grown V w w' \<Longrightarrow> files_at V w rp c = Some F \<Longrightarrow> files_at V w' rp c = Some F"
  unfolding files_at_Some grown_def by (blast intro: map_leD)

text \<open>Entries that stand for the files.\<close>

definition entries_for :: "'w github_view \<Rightarrow> 'w \<Rightarrow> repo \<Rightarrow> Target \<Rightarrow> File list \<Rightarrow> TreeEntry list \<Rightarrow> bool" where
  "entries_for V w rp target =
     list_all2 (\<lambda>f e. te_Path e = FullPath target (f_Path f)
       \<and> (\<exists>b. te_SHA e = Some b \<and> v_blob V w (rp, b) = Some (f_Content f)))"

lemma entries_for_grown: "grown V w w' \<Longrightarrow> entries_for V w rp t fs es \<Longrightarrow> entries_for V w' rp t fs es"
  unfolding entries_for_def by (erule list_all2_mono) (auto simp: grown_def intro: map_leD)

lemma entries_for_unique:
  assumes "consistent V w" and "entries_for V w rp t fs es" and "entries_for V w rp t fs es'"
  shows "overlay es F = overlay es' F"
  using assms(2,3)
proof (induction fs arbitrary: es es' F)
  case (Cons f fs)
  then obtain e r e' r' where e: "es = e # r" "es' = e' # r'"
    by (auto simp: entries_for_def list_all2_Cons1)
  with Cons.prems have "te_Path e = te_Path e'" "te_SHA e = te_SHA e'"
    using consistentD(4) [OF assms(1), where rp = rp] by (auto simp: entries_for_def)
  moreover have "overlay r H = overlay r' H" for H
    using Cons.prems e by (intro Cons.IH) (simp_all add: entries_for_def)
  ultimately show ?case by (simp add: e overlay_def)
qed (simp add: entries_for_def)

lemma overlay_map_of: "overlay es F p = (case map_of (rev (map (\<lambda>e. (te_Path e, te_SHA e)) es)) p of Some s \<Rightarrow> s | None \<Rightarrow> F p)"
  by (induction es arbitrary: F) (auto simp: overlay_def map_add_def split: option.split)

lemma overlay_again [simp]: "overlay es (overlay es F) = overlay es F"
  by (rule ext) (simp add: overlay_map_of split: option.split)

lemma create_blobs_laws:
  assumes "github_laws G V ok" and "ok w" and "create_blobs G rp t fs w = (x, w')"
  shows "ok w' \<and> only_grown V w w' \<and> (\<forall>es. x = Inr es \<longrightarrow> entries_for V w' rp t fs es)"
  using assms(2,3)
proof (induction fs arbitrary: w x)
  case (Cons f fs)
  obtain b w1 where b: "gh_CreateBlob G rp (f_Content f) w = (b, w1)" by fastforce
  note 1 = github_lawsD(4) [OF assms(1) Cons.prems(1) b]
  show ?case
  proof (cases b)
    case (Inl err)
    with Cons.prems b 1 show ?thesis by auto
  next
    case (Inr sha)
    obtain r w2 where r: "create_blobs G rp t fs w1 = (r, w2)" by fastforce
    have w2: "w2 = w'" using Cons.prems(2) b Inr r by (auto split: sum.splits)
    with 1 r have 2: "ok w2 \<and> only_grown V w1 w2 \<and> (\<forall>es. r = Inr es \<longrightarrow> entries_for V w2 rp t fs es)" using Cons.IH [of w1 r] by simp
    have "v_blob V w2 (rp, sha) = Some (f_Content f)" using 1 2 Inr by (auto simp: only_grown_def grown_def intro: map_leD)
    with Cons.prems(2) b Inr r 1 2 w2 show ?thesis
      by (auto simp: entries_for_def file_entry_def split: sum.splits intro: only_grown_trans)
  qed
qed (simp add: entries_for_def)

lemma commit_tree_laws:
  assumes "github_laws G V ok" and "ok w" and "commit_tree G rp c base es msg w = (x, w')"
    and "v_commit V w (rp, c) = Some base" and "v_tree V w (rp, base) = Some F"
  shows "ok w' \<and> only_grown V w w' \<and> (\<forall>sha ch. x = Inr (sha, ch) \<longrightarrow>
    files_at V w' rp sha = Some (overlay es F) \<and> (ch \<longleftrightarrow> overlay es F \<noteq> F) \<and> (\<not> ch \<longrightarrow> sha = c))"
proof -
  obtain r w1 where r: "gh_CreateTree G rp base es w = (r, w1)" by fastforce
  note 1 = github_lawsD(5) [OF assms(1,2) r]
  show ?thesis
  proof (cases r)
    case (Inl err)
    with assms(3) r 1 show ?thesis by (auto simp: commit_tree_def)
  next
    case (Inr t)
    have t: "v_tree V w1 (rp, t) = Some (overlay es F)" "v_tree V w1 (rp, base) = Some F" "v_commit V w1 (rp, c) = Some base"
      using 1 Inr assms(4,5) by (auto simp: only_grown_def grown_def intro: map_leD)
    have "consistent V w1" using github_lawsD(1) [OF assms(1)] 1 by blast
    with t have ch: "t = base \<longleftrightarrow> overlay es F = F" using consistentD(3) [of V w1 rp t F base] by auto
    show ?thesis
    proof (cases "t = base")
      case True
      with assms(3) r 1 Inr t ch show ?thesis by (auto simp: commit_tree_def files_at_Some)
    next
      case False
      obtain y w2 where y: "gh_CreateCommit G rp msg t [c] w1 = (y, w2)" by fastforce
      have 2: "ok w2" "only_grown V w1 w2" "\<forall>d. y = Inr d \<longrightarrow> v_commit V w2 (rp, d) = Some t"
        using github_lawsD(6) [OF assms(1) _ y] 1 by auto
      have "v_tree V w2 (rp, t) = Some (overlay es F)" using 2(2) t(1) by (auto simp: only_grown_def grown_def intro: map_leD)
      with assms(3) r 1 Inr y 2 False ch show ?thesis
        by (auto simp: commit_tree_def files_at_Some split: sum.splits intro: only_grown_trans)
    qed
  qed
qed


section \<open>The operations\<close>

text \<open>\<open>c\<close> is a commit with files \<open>F\<close>; \<open>r\<close> is the commit, if any, of \<open>fs\<close> on top of it.\<close>

definition committed :: "'w github_view \<Rightarrow> 'w \<Rightarrow> repo \<Rightarrow> Target \<Rightarrow> File list \<Rightarrow> (string \<Rightarrow> string option) \<Rightarrow> string \<Rightarrow> bool" where
  "committed V w rp t fs F c \<longleftrightarrow> (\<exists>es. entries_for V w rp t fs es \<and> files_at V w rp c = Some (overlay es F))"

lemma committed_grown: "grown V w w' \<Longrightarrow> committed V w rp t fs F c \<Longrightarrow> committed V w' rp t fs F c"
  unfolding committed_def by (blast intro: entries_for_grown files_at_grown)

lemma commitOnto_laws:
  assumes "github_laws G V ok" and "ok w" and "commitOnto G rp c t fs msg w = (x, w')"
  shows "ok w' \<and> only_grown V w w' \<and> (\<forall>sha ch. x = Inr (sha, ch) \<longrightarrow>
    (\<exists>F. files_at V w rp c = Some F \<and> committed V w' rp t fs F sha \<and> (ch \<longleftrightarrow> files_at V w' rp sha \<noteq> Some F) \<and> (\<not> ch \<longrightarrow> sha = c)))"
proof -
  obtain r w1 where r: "gh_GetCommit G rp c w = (r, w1)" by fastforce
  note 1 = github_lawsD(3) [OF assms(1,2) r]
  show ?thesis
  proof (cases r)
    case (Inl err)
    with assms(3) r 1 show ?thesis by (auto simp: commitOnto_def)
  next
    case (Inr base)
    obtain F where F: "v_commit V w (rp, c) = Some base" "v_tree V w (rp, base) = Some F"
      using 1 Inr consistentD(2) [OF github_lawsD(1) [OF assms(1,2)], of rp c base] by auto
    obtain y w2 where y: "create_blobs G rp t fs w1 = (y, w2)" by fastforce
    have 2: "ok w2" "only_grown V w1 w2" "\<And>es. y = Inr es \<Longrightarrow> entries_for V w2 rp t fs es"
      using create_blobs_laws [OF assms(1) _ y] 1 by auto
    have g: "only_grown V w w2" using 1 2 by (blast intro: only_grown_trans)
    show ?thesis
    proof (cases y)
      case Inl': (Inl err)
      with assms(3) r Inr y 2 g show ?thesis by (auto simp: commitOnto_def)
    next
      case Inr': (Inr es)
      have F2: "v_commit V w2 (rp, c) = Some base" "v_tree V w2 (rp, base) = Some F"
        using F g by (auto simp: only_grown_def grown_def intro: map_leD)
      from assms(3) r Inr y Inr' have tree: "commit_tree G rp c base es msg w2 = (x, w')" by (simp add: commitOnto_def)
      note 3 = commit_tree_laws [OF assms(1) 2(1) tree F2]
      have "entries_for V w' rp t fs es" using entries_for_grown [OF only_grownD 2(3) [OF Inr']] 3 by blast
      with 3 have "committed V w' rp t fs F sha" if "x = Inr (sha, ch)" for sha ch using that unfolding committed_def by blast
      moreover have "files_at V w rp c = Some F" using F by (simp add: files_at_Some)
      moreover have "only_grown V w w'" using g 3 by (blast intro: only_grown_trans)
      ultimately show ?thesis using 3 by auto
    qed
  qed
qed

lemma move_branch_laws:
  assumes "github_laws G V ok" and "ok w" and "move_branch G rp t c (x, w) = (y, w')"
    and "v_ref V w (rp, ''heads/'' @ t_Branch t) = Some c"
  shows "ok w' \<and> grown V w w' \<and> v_prs V w' = v_prs V w \<and>
    (case y of Inl _ \<Rightarrow> v_ref V w' = v_ref V w
     | Inr (sha, ch) \<Rightarrow> (\<exists>s. x = Inr (s, ch) \<and> sha = (if ch then s else c)) \<and> v_ref V w' = (v_ref V w)((rp, ''heads/'' @ t_Branch t) \<mapsto> sha))"
proof (cases x)
  case (Inl err)
  with assms(2,3) show ?thesis by (auto simp: move_branch_def)
next
  case (Inr a)
  obtain s ch where a: "a = (s, ch)" by (cases a)
  show ?thesis
  proof (cases ch)
    case False
    have "(v_ref V w)((rp, ''heads/'' @ t_Branch t) \<mapsto> c) = v_ref V w" using assms(4) by auto
    with False Inr a assms(2,3) show ?thesis by (auto simp: move_branch_def)
  next
    case True
    obtain z w1 where z: "gh_UpdateRef G rp (''heads/'' @ t_Branch t) s w = (z, w1)" by fastforce
    from github_lawsD(7) [OF assms(1,2) z] z True Inr a assms(3) show ?thesis
      by (auto simp: move_branch_def split: option.splits)
  qed
qed

lemma branch_moved:
  assumes "github_laws G V ok" and "ok w1" and "only_grown V w w1" and "v_ref V w (rp, ''heads/'' @ t_Branch t) = Some c"
    and "\<And>sha. x = Inr (sha, False) \<Longrightarrow> sha = c" and "move_branch G rp t c (x, w1) = (y, w')"
  shows "ok w' \<and> grown V w w' \<and> grown V w1 w' \<and> v_prs V w' = v_prs V w \<and>
    (case y of Inl _ \<Rightarrow> v_ref V w' = v_ref V w
     | Inr (sha, ch) \<Rightarrow> x = y \<and> v_ref V w' = (v_ref V w)((rp, ''heads/'' @ t_Branch t) \<mapsto> sha))"
proof -
  have "v_ref V w1 (rp, ''heads/'' @ t_Branch t) = Some c" using assms(3,4) by (simp add: only_grown_def)
  from move_branch_laws [OF assms(1,2,6) this] assms(3,5) show ?thesis
    by (auto simp: only_grown_def intro: grown_trans split: sum.splits if_splits)
qed

lemma branch_head:
  assumes "github_laws G V ok" and "ok w" and "v_ref V w (rp, r) = Some c"
  obtains F where "files_at V w rp c = Some F"
  using consistentD(1,2) [OF github_lawsD(1) [OF assms(1,2)]] assms(3) that unfolding files_at_Some by metis

text \<open>The operations on a branch whose head \<open>c\<close> has the files \<open>F\<close>.\<close>

lemma CommitFiles_laws:
  assumes "github_laws G V ok" and "ok w" and "gh_CommitFiles G t fs msg w = Some (y, w')"
  shows "\<exists>rp. OwnerName t = Some rp \<and> ok w' \<and> grown V w w' \<and> v_prs V w' = v_prs V w \<and>
    (case y of Inl _ \<Rightarrow> v_ref V w' = v_ref V w
     | Inr (sha, ch) \<Rightarrow> v_ref V w' = (v_ref V w)((rp, ''heads/'' @ t_Branch t) \<mapsto> sha)
        \<and> (\<exists>c F. v_ref V w (rp, ''heads/'' @ t_Branch t) = Some c \<and> files_at V w rp c = Some F \<and> committed V w' rp t fs F sha
             \<and> (ch \<longleftrightarrow> files_at V w' rp sha \<noteq> Some F) \<and> (\<not> ch \<longrightarrow> sha = c)))"
proof -
  from assms(3) obtain rp where rp: "OwnerName t = Some rp" by (auto simp: gh_CommitFiles_def split: option.splits)
  obtain r w1 where r: "gh_GetRef G rp (''heads/'' @ t_Branch t) w = (r, w1)" by fastforce
  note 1 = github_lawsD(2) [OF assms(1,2) r]
  show ?thesis
  proof (cases r)
    case (Inl err)
    with assms(3) rp r 1 show ?thesis by (auto simp: gh_CommitFiles_def only_grown_def)
  next
    case (Inr c)
    with 1 have c: "v_ref V w (rp, ''heads/'' @ t_Branch t) = Some c" by simp
    then obtain F where F: "files_at V w rp c = Some F" using branch_head [OF assms(1,2)] by blast
    then have F1: "files_at V w1 rp c = Some F" using 1 by (blast intro: files_at_grown only_grownD)
    obtain x w2 where x: "commitOnto G rp c t fs msg w1 = (x, w2)" by fastforce
    from 1 commitOnto_laws [OF assms(1) _ x] F1 have 2: "ok w2" "only_grown V w1 w2" "\<And>sha ch. x = Inr (sha, ch) \<Longrightarrow>
       committed V w2 rp t fs F sha \<and> (ch \<longleftrightarrow> files_at V w2 rp sha \<noteq> Some F) \<and> (\<not> ch \<longrightarrow> sha = c)"
      by auto
    have mv: "move_branch G rp t c (x, w2) = (y, w')" using assms(3) rp r Inr x by (simp add: gh_CommitFiles_def)
    have g: "only_grown V w w2" using 1 2(2) by (blast intro: only_grown_trans)
    have same: "\<And>sha. x = Inr (sha, False) \<Longrightarrow> sha = c" using 2(3) by blast
    note 3 = branch_moved [OF assms(1) 2(1) g c same mv]
    have "committed V w' rp t fs F sha \<and> files_at V w' rp sha = files_at V w2 rp sha" if "committed V w2 rp t fs F sha" "grown V w2 w'" for sha
    proof
      show "committed V w' rp t fs F sha" by (rule committed_grown [OF that(2,1)])
      from that(1) obtain H where "files_at V w2 rp sha = Some H" by (auto simp: committed_def)
      with files_at_grown [OF that(2)] show "files_at V w' rp sha = files_at V w2 rp sha" by auto
    qed
    with 2(3) 3 rp c F show ?thesis by (auto split: sum.splits)
  qed
qed

lemma DeleteFiles_laws:
  assumes "github_laws G V ok" and "ok w" and "gh_DeleteFiles G t ps msg w = Some (y, w')" and "ps \<noteq> []"
  shows "\<exists>rp. OwnerName t = Some rp \<and> ok w' \<and> grown V w w' \<and> v_prs V w' = v_prs V w \<and>
    (case y of Inl _ \<Rightarrow> v_ref V w' = v_ref V w
     | Inr (sha, ch) \<Rightarrow> v_ref V w' = (v_ref V w)((rp, ''heads/'' @ t_Branch t) \<mapsto> sha)
        \<and> (\<exists>c F. v_ref V w (rp, ''heads/'' @ t_Branch t) = Some c \<and> files_at V w rp c = Some F
             \<and> files_at V w' rp sha = Some (overlay (map (\<lambda>p. file_entry t p None) ps) F)
             \<and> (ch \<longleftrightarrow> files_at V w' rp sha \<noteq> Some F) \<and> (\<not> ch \<longrightarrow> sha = c)))"
proof -
  let ?es = "map (\<lambda>p. file_entry t p None) ps"
  from assms(3,4) obtain rp where rp: "OwnerName t = Some rp" by (auto simp: gh_DeleteFiles_def split: option.splits)
  obtain r w1 where r: "gh_GetRef G rp (''heads/'' @ t_Branch t) w = (r, w1)" by fastforce
  note 1 = github_lawsD(2) [OF assms(1,2) r]
  show ?thesis
  proof (cases r)
    case (Inl err)
    with assms(3,4) rp r 1 show ?thesis by (auto simp: gh_DeleteFiles_def only_grown_def)
  next
    case (Inr c)
    with 1 have c: "v_ref V w (rp, ''heads/'' @ t_Branch t) = Some c" by simp
    obtain z w2 where z: "gh_GetCommit G rp c w1 = (z, w2)" by fastforce
    have 2: "ok w2" "only_grown V w w2" "\<And>base. z = Inr base \<Longrightarrow> v_commit V w1 (rp, c) = Some base"
      using github_lawsD(3) [OF assms(1) _ z] 1 by (auto intro: only_grown_trans)
    show ?thesis
    proof (cases z)
      case Inl': (Inl err)
      with assms(3,4) rp r Inr z 2 show ?thesis by (auto simp: gh_DeleteFiles_def only_grown_def)
    next
      case Inr': (Inr base)
      obtain F where F: "files_at V w rp c = Some F" using branch_head [OF assms(1,2) c] by blast
      have "files_at V w1 rp c = Some F" using F 1 by (blast intro: files_at_grown only_grownD)
      with 2(3) [OF Inr'] have "v_tree V w1 (rp, base) = Some F" by (auto simp: files_at_Some)
      then have base: "v_commit V w2 (rp, c) = Some base" "v_tree V w2 (rp, base) = Some F"
        using 2(3) [OF Inr'] github_lawsD(3) [OF assms(1) _ z] 1 by (auto simp: only_grown_def grown_def intro: map_leD)
      obtain x w3 where x: "commit_tree G rp c base ?es msg w2 = (x, w3)" by fastforce
      note 3 = commit_tree_laws [OF assms(1) 2(1) x base]
      have mv: "move_branch G rp t c (x, w3) = (y, w')"
        using assms(3,4) rp r Inr z Inr' x by (simp add: gh_DeleteFiles_def)
      have g: "only_grown V w w3" using 2(2) 3 by (blast intro: only_grown_trans)
      have 4: "ok w3" "\<And>sha. x = Inr (sha, False) \<Longrightarrow> sha = c" using 3 by auto
      note 5 = branch_moved [OF assms(1) 4(1) g c 4(2) mv]
      have "files_at V w' rp sha = Some (overlay ?es F)" if "x = Inr (sha, ch)" for sha ch
        using that 3 5 by (blast intro: files_at_grown)
      with 3 5 rp c F show ?thesis by (auto split: sum.splits)
    qed
  qed
qed


lemma topic_branch_laws:
  assumes "github_laws G V ok" and "ok w" and "topic_branch G rp b c w = (x, w')"
  shows "ok w' \<and> grown V w w' \<and> v_prs V w' = v_prs V w \<and> (\<forall>k. k \<noteq> (rp, ''heads/'' @ b) \<longrightarrow> v_ref V w' k = v_ref V w k)
    \<and> (\<forall>k. v_ref V w k \<noteq> None \<longrightarrow> v_ref V w' k \<noteq> None) \<and> (\<forall>sha. x = Inr sha \<longrightarrow> v_ref V w' (rp, ''heads/'' @ b) = Some sha)"
proof -
  obtain r w1 where r: "gh_GetRef G rp (''heads/'' @ b) w = (r, w1)" by fastforce
  note 1 = github_lawsD(2) [OF assms(1,2) r]
  show ?thesis
  proof (cases "\<exists>err. r = Inl err \<and> github_status err = Some 404")
    case True
    then obtain err where err: "r = Inl err" "github_status err = Some 404" by blast
    obtain z w2 where z: "gh_CreateRef G rp (''refs/'' @ ''heads/'' @ b) c w1 = (z, w2)" by fastforce
    have w2: "w' = w2" "\<And>sha. x = Inr sha \<longleftrightarrow> z = Inr sha"
      using assms(3) r err z by (auto simp: topic_branch_def split: sum.splits)
    have ok1: "ok w1" "only_grown V w w1" using 1 by simp_all
    note 2 = github_lawsD(8) [OF assms(1) ok1(1) z]
    show ?thesis
      using 2 ok1 unfolding w2 by (auto simp: only_grown_def intro: grown_trans split: sum.splits)
  next
    case False
    with assms(3) r 1 show ?thesis
      by (auto simp: topic_branch_def only_grown_def split: sum.splits if_splits)
  qed
qed

lemma pull_request_laws:
  assumes "github_laws G V ok" and "ok w" and "pull_request G rp base b ti bo w = (x, w')"
  shows "ok w' \<and> grown V w w' \<and> v_ref V w' = v_ref V w
    \<and> (\<forall>u. x = Inr u \<longrightarrow> (\<exists>us. [u. (h', b', u) \<leftarrow> v_prs V w' rp, h' = fst rp @ '':'' @ b \<and> b' = base] = u # us))"
proof -
  let ?h = "fst rp @ '':'' @ b"
  obtain r w1 where r: "gh_ListPRs G rp ?h base w = (r, w1)" by fastforce
  note 1 = github_lawsD(9) [OF assms(1,2) r]
  show ?thesis
  proof (cases "r = Inr []")
    case False
    with assms(3) r 1 show ?thesis
      by (auto simp: pull_request_def Let_def only_grown_def split: sum.splits list.splits)
  next
    case True
    obtain z w2 where z: "gh_CreatePR G rp ti b base bo w1 = (z, w2)" by fastforce
    have ok1: "ok w1" "only_grown V w w1" using 1 by simp_all
    note 2 = github_lawsD(10) [OF assms(1) ok1(1) z]
    have w2: "w' = w2" "\<And>u. x = Inr u \<longleftrightarrow> z = Inr u"
      using assms(3) r True z by (auto simp: pull_request_def Let_def split: sum.splits)
    show ?thesis using 2 ok1 unfolding w2 by (auto simp: only_grown_def intro: grown_trans split: sum.splits)
  qed
qed

lemma OpenPR_laws:
  assumes "github_laws G V ok" and "ok w" and "gh_OpenPR G t fs b ti bo w = Some (y, w')"
  shows "\<exists>rp. OwnerName t = Some rp \<and> ok w' \<and> grown V w w' \<and> (\<forall>k. k \<noteq> (rp, ''heads/'' @ b) \<longrightarrow> v_ref V w' k = v_ref V w k)
    \<and> (\<forall>u. y = Inr u \<longrightarrow> v_ref V w (rp, ''heads/'' @ t_Branch t) \<noteq> None
         \<and> (\<exists>sha F. v_ref V w' (rp, ''heads/'' @ b) = Some sha \<and> committed V w' rp t fs F sha)
         \<and> (\<exists>us. [u. (h', b', u) \<leftarrow> v_prs V w' rp, h' = fst rp @ '':'' @ b \<and> b' = t_Branch t] = u # us))"
proof -
  from assms(3) obtain rp where rp: "OwnerName t = Some rp" by (auto simp: gh_OpenPR_def split: option.splits)
  obtain r w1 where r: "gh_GetRef G rp (''heads/'' @ t_Branch t) w = (r, w1)" by fastforce
  note 1 = github_lawsD(2) [OF assms(1,2) r]
  show ?thesis
  proof (cases r)
    case (Inl err)
    with assms(3) rp r 1 show ?thesis by (auto simp: gh_OpenPR_def only_grown_def)
  next
    case base: (Inr c)
    have ok1: "ok w1" "only_grown V w w1" "v_ref V w (rp, ''heads/'' @ t_Branch t) = Some c" using 1 base by simp_all
    obtain tb w2 where tb: "topic_branch G rp b c w1 = (tb, w2)" by fastforce
    note 2 = topic_branch_laws [OF assms(1) ok1(1) tb]
    show ?thesis
    proof (cases tb)
      case (Inl err)
      with assms(3) rp r base tb ok1 2 show ?thesis by (auto simp: gh_OpenPR_def only_grown_def intro: grown_trans)
    next
      case topic: (Inr d)
      obtain x w3 where x: "commitOnto G rp d t fs ti w2 = (x, w3)" by fastforce
      have ok2: "ok w2" using 2 by simp
      note 3 = commitOnto_laws [OF assms(1) ok2 x]
      have g3: "grown V w w3" "ok w3" "\<forall>k. k \<noteq> (rp, ''heads/'' @ b) \<longrightarrow> v_ref V w3 k = v_ref V w k"
        "v_ref V w3 (rp, ''heads/'' @ b) = Some d"
        using 2 3 ok1 topic by (auto simp: only_grown_def intro: grown_trans)
      show ?thesis
      proof (cases x)
        case (Inl err)
        with assms(3) rp r base tb topic x g3 show ?thesis by (auto simp: gh_OpenPR_def)
      next
        case (Inr a)
        obtain sha ch where a: "a = (sha, ch)" by (cases a)
        obtain F where F: "committed V w3 rp t fs F sha" "\<not> ch \<longrightarrow> sha = d" using 3 Inr a by auto
        obtain z w4 where z: "(if ch then gh_UpdateRef G rp (''heads/'' @ b) sha w3 else (None, w3)) = (z, w4)" by fastforce
        have 4: "ok w4" "grown V w w4" "grown V w3 w4" "\<forall>k. k \<noteq> (rp, ''heads/'' @ b) \<longrightarrow> v_ref V w4 k = v_ref V w k"
          "z = None \<longrightarrow> v_ref V w4 (rp, ''heads/'' @ b) = Some sha"
          using z g3 F(2) github_lawsD(7) [OF assms(1) g3(2), of rp "''heads/'' @ b" sha z w4]
          by (auto intro: grown_trans split: if_splits)
        show ?thesis
        proof (cases z)
          case (Some err)
          with assms(3) rp r base tb topic x Inr a z 4 show ?thesis by (auto simp: gh_OpenPR_def)
        next
          case None
          with assms(3) rp r base tb topic x Inr a z have pr: "pull_request G rp (t_Branch t) b ti bo w4 = (y, w')"
            by (simp add: gh_OpenPR_def)
          note 5 = pull_request_laws [OF assms(1) 4(1) pr]
          have "grown V w w'" "grown V w3 w'" using 4(2,3) 5 by (blast intro: grown_trans)+
          moreover from this have "committed V w' rp t fs F sha" using committed_grown [OF _ F(1)] by blast
          ultimately show ?thesis using rp 4 5 None ok1(3) by auto
        qed
      qed
    qed
  qed
qed


section \<open>Redelivery\<close>

lemma github_answersD:
  assumes "github_answers G V ok" and "ok w"
  shows "v_ref V w (rp, r) = Some c \<Longrightarrow> \<exists>w'. gh_GetRef G rp r w = (Inr c, w')"
    and "v_commit V w (rp, c) \<noteq> None \<Longrightarrow> \<exists>t w'. gh_GetCommit G rp c w = (Inr t, w')"
    and "\<exists>b w'. gh_CreateBlob G rp s w = (Inr b, w')"
    and "v_tree V w (rp, base) \<noteq> None \<Longrightarrow> \<exists>t w'. gh_CreateTree G rp base es w = (Inr t, w')"
    and "\<exists>us w'. gh_ListPRs G rp h b w = (Inr us, w')"
proof -
  note A = assms(1) [unfolded github_answers_def, rule_format, OF assms(2)]
  show "\<exists>w'. gh_GetRef G rp r w = (Inr c, w')" if "v_ref V w (rp, r) = Some c"
    using A [THEN conjunct1, rule_format, of rp r] that by (auto simp: prod_eq_iff)
  show "\<exists>t w'. gh_GetCommit G rp c w = (Inr t, w')" if "v_commit V w (rp, c) \<noteq> None"
    using A [THEN conjunct2, THEN conjunct1, rule_format, OF that] by (auto simp: prod_eq_iff)
  show "\<exists>b w'. gh_CreateBlob G rp s w = (Inr b, w')"
    using A [THEN conjunct2, THEN conjunct2, THEN conjunct1, rule_format, of rp s] by (auto simp: prod_eq_iff)
  show "\<exists>t w'. gh_CreateTree G rp base es w = (Inr t, w')" if "v_tree V w (rp, base) \<noteq> None"
    using A [THEN conjunct2, THEN conjunct2, THEN conjunct2, THEN conjunct1, rule_format, OF that, of es] by (auto simp: prod_eq_iff)
  show "\<exists>us w'. gh_ListPRs G rp h b w = (Inr us, w')"
    using A [THEN conjunct2, THEN conjunct2, THEN conjunct2, THEN conjunct2, rule_format, of rp h b] by (auto simp: prod_eq_iff)
qed

text \<open>An API with both groups of laws is enough for the contract of a provider.\<close>

locale github_api =
  fixes G :: "'w github" and V :: "'w github_view" and ok :: "'w \<Rightarrow> bool"
  assumes laws: "github_laws G V ok" and answers: "github_answers G V ok"
begin

lemma blobs_answered: "ok w \<Longrightarrow> \<exists>es w'. create_blobs G rp t fs w = (Inr es, w')"
proof (induction fs arbitrary: w)
  case (Cons f fs)
  obtain b w1 where b: "gh_CreateBlob G rp (f_Content f) w = (Inr b, w1)" using github_answersD(3) [OF answers Cons.prems] by blast
  with github_lawsD(4) [OF laws Cons.prems b] Cons.IH [of w1] show ?case by auto
qed simp

lemma tree_again:
  assumes "ok w" and "v_commit V w (rp, c) = Some base" and "v_tree V w (rp, base) = Some H" and "overlay es H = H"
  shows "\<exists>w'. commit_tree G rp c base es msg w = (Inr (c, False), w') \<and> ok w' \<and> only_grown V w w'"
proof -
  obtain t w1 where t: "gh_CreateTree G rp base es w = (Inr t, w1)" using github_answersD(4) [OF answers assms(1)] assms(3) by blast
  note 1 = github_lawsD(5) [OF laws assms(1) t]
  have "v_tree V w1 (rp, t) = Some H" "v_tree V w1 (rp, base) = Some H"
    using 1 assms(3,4) by (auto simp: only_grown_def grown_def intro: map_leD)
  then have "t = base" using consistentD(3) [OF github_lawsD(1) [OF laws]] 1 by blast
  with t 1 show ?thesis by (simp add: commit_tree_def)
qed

lemma onto_again:
  assumes "ok w" and "committed V w rp t fs F c"
  shows "\<exists>w'. commitOnto G rp c t fs msg w = (Inr (c, False), w') \<and> ok w' \<and> only_grown V w w'"
proof -
  obtain es where es: "entries_for V w rp t fs es" "files_at V w rp c = Some (overlay es F)" using assms(2) by (auto simp: committed_def)
  then obtain base where base: "v_commit V w (rp, c) = Some base" "v_tree V w (rp, base) = Some (overlay es F)" by (auto simp: files_at_Some)
  obtain x w1 where x: "gh_GetCommit G rp c w = (Inr x, w1)" using github_answersD(2) [OF answers assms(1), of rp c] base by auto
  note 1 = github_lawsD(3) [OF laws assms(1) x]
  have xb: "x = base" using 1 base by simp
  have ok1: "ok w1" using 1 by simp
  obtain es' w2 where es': "create_blobs G rp t fs w1 = (Inr es', w2)" using blobs_answered [OF ok1] by blast
  note 2 = create_blobs_laws [OF laws ok1 es']
  have g: "only_grown V w w2" "ok w2" using 1 2 by (auto intro: only_grown_trans)
  have "entries_for V w2 rp t fs es" using entries_for_grown [OF only_grownD [OF g(1)] es(1)] .
  then have same: "overlay es' X = overlay es X" for X
    using entries_for_unique [OF github_lawsD(1) [OF laws g(2)]] 2 by blast
  have base2: "v_commit V w2 (rp, c) = Some base" "v_tree V w2 (rp, base) = Some (overlay es F)"
    using base g(1) by (auto simp: only_grown_def grown_def intro: map_leD)
  obtain w3 where w3: "commit_tree G rp c base es' msg w2 = (Inr (c, False), w3)" "ok w3" "only_grown V w2 w3"
    using tree_again [OF g(2) base2, of es' msg] same by auto
  have "commitOnto G rp c t fs msg w = (Inr (c, False), w3)" using x xb es' w3(1) by (simp add: commitOnto_def)
  with w3 g(1) show ?thesis by (blast intro: only_grown_trans)
qed

lemma move_same: "move_branch G rp t c (Inr (c, False), w) = (Inr (c, False), w)"
  by (simp add: move_branch_def)

lemma CommitFiles_again:
  assumes "ok w" and "gh_CommitFiles G t fs msg w = Some (Inr (sha, ch), w')"
  shows "\<exists>w2. gh_CommitFiles G t fs msg' w' = Some (Inr (sha, False), w2)"
proof -
  from CommitFiles_laws [OF laws assms] obtain rp where rp: "OwnerName t = Some rp" "ok w'"
    "v_ref V w' (rp, ''heads/'' @ t_Branch t) = Some sha"
    and ex: "\<exists>c F. v_ref V w (rp, ''heads/'' @ t_Branch t) = Some c \<and> files_at V w rp c = Some F \<and> committed V w' rp t fs F sha
       \<and> (ch \<longleftrightarrow> files_at V w' rp sha \<noteq> Some F) \<and> (\<not> ch \<longrightarrow> sha = c)" by (elim exE conjE) simp
  from ex obtain F where F: "committed V w' rp t fs F sha" by (elim exE conjE)
  obtain w1 where w1: "gh_GetRef G rp (''heads/'' @ t_Branch t) w' = (Inr sha, w1)" using github_answersD(1) [OF answers rp(2,3)] by blast
  note 1 = github_lawsD(2) [OF laws rp(2) w1]
  have "committed V w1 rp t fs F sha" "ok w1" using 1 committed_grown [OF only_grownD F] by simp_all
  from onto_again [OF this(2,1), of msg'] w1 rp(1) show ?thesis by (auto simp: gh_CommitFiles_def move_same)
qed

lemma DeleteFiles_again:
  assumes "ok w" and "gh_DeleteFiles G t ps msg w = Some (Inr (sha, ch), w')"
  shows "\<exists>w2. gh_DeleteFiles G t ps msg' w' = Some (Inr (sha, False), w2)"
proof (cases "ps = []")
  case True
  with assms(2) show ?thesis by (simp add: gh_DeleteFiles_def)
next
  case False
  let ?es = "map (\<lambda>p. file_entry t p None) ps"
  from DeleteFiles_laws [OF laws assms False] obtain rp where rp: "OwnerName t = Some rp" "ok w'"
    "v_ref V w' (rp, ''heads/'' @ t_Branch t) = Some sha"
    and ex: "\<exists>c F. v_ref V w (rp, ''heads/'' @ t_Branch t) = Some c \<and> files_at V w rp c = Some F
       \<and> files_at V w' rp sha = Some (overlay ?es F) \<and> (ch \<longleftrightarrow> files_at V w' rp sha \<noteq> Some F) \<and> (\<not> ch \<longrightarrow> sha = c)"
    by (elim exE conjE) simp
  from ex obtain F where F: "files_at V w' rp sha = Some (overlay ?es F)" by (elim exE conjE)
  obtain w1 where w1: "gh_GetRef G rp (''heads/'' @ t_Branch t) w' = (Inr sha, w1)" using github_answersD(1) [OF answers rp(2,3)] by blast
  note 1 = github_lawsD(2) [OF laws rp(2) w1]
  have ok1: "ok w1" "files_at V w1 rp sha = Some (overlay ?es F)" using 1 files_at_grown [OF only_grownD F] by simp_all
  then obtain base where base: "v_commit V w1 (rp, sha) = Some base" "v_tree V w1 (rp, base) = Some (overlay ?es F)" by (auto simp: files_at_Some)
  obtain x w2 where x: "gh_GetCommit G rp sha w1 = (Inr x, w2)" using github_answersD(2) [OF answers ok1(1), of rp sha] base by auto
  note 2 = github_lawsD(3) [OF laws ok1(1) x]
  have "x = base" "ok w2" "v_commit V w2 (rp, sha) = Some base" "v_tree V w2 (rp, base) = Some (overlay ?es F)"
    using 2 base by (auto simp: only_grown_def grown_def intro: map_leD)
  with tree_again [OF this(2-4), of ?es msg'] w1 x rp(1) False show ?thesis by (auto simp: gh_DeleteFiles_def move_same)
qed

lemma OpenPR_again:
  assumes "ok w" and "gh_OpenPR G t fs b ti bo w = Some (Inr url, w')"
  shows "\<exists>w2. gh_OpenPR G t fs b ti' bo' w' = Some (Inr url, w2)"
proof -
  obtain rp sha F us where rp: "OwnerName t = Some rp" "ok w'" "v_ref V w (rp, ''heads/'' @ t_Branch t) \<noteq> None"
    "\<forall>k. k \<noteq> (rp, ''heads/'' @ b) \<longrightarrow> v_ref V w' k = v_ref V w k"
    "v_ref V w' (rp, ''heads/'' @ b) = Some sha" "committed V w' rp t fs F sha"
    "[u. (h', b', u) \<leftarrow> v_prs V w' rp, h' = fst rp @ '':'' @ b \<and> b' = t_Branch t] = url # us"
    using OpenPR_laws [OF laws assms] by auto
  obtain c where c: "v_ref V w' (rp, ''heads/'' @ t_Branch t) = Some c"
    using rp(3-5) by (cases "t_Branch t = b") auto
  obtain w1 where w1: "gh_GetRef G rp (''heads/'' @ t_Branch t) w' = (Inr c, w1)" using github_answersD(1) [OF answers rp(2) c] by blast
  note 1 = github_lawsD(2) [OF laws rp(2) w1]
  have ok1: "ok w1" "v_ref V w1 (rp, ''heads/'' @ b) = Some sha" "only_grown V w' w1" using 1 rp(5) by (simp_all add: only_grown_def)
  obtain w2 where w2: "gh_GetRef G rp (''heads/'' @ b) w1 = (Inr sha, w2)" using github_answersD(1) [OF answers ok1(1,2)] by blast
  note 2 = github_lawsD(2) [OF laws ok1(1) w2]
  have ok2: "ok w2" "only_grown V w' w2" using 2 ok1 by (auto intro: only_grown_trans)
  then obtain w3 where w3: "commitOnto G rp sha t fs ti' w2 = (Inr (sha, False), w3)" "ok w3" "only_grown V w2 w3"
    using onto_again [OF ok2(1) committed_grown [OF only_grownD [OF ok2(2)] rp(6)]] by blast
  then have g3: "v_prs V w3 = v_prs V w'" using ok2(2) by (simp add: only_grown_def)
  obtain vs w4 where w4: "gh_ListPRs G rp (fst rp @ '':'' @ b) (t_Branch t) w3 = (Inr vs, w4)" using github_answersD(5) [OF answers w3(2)] by blast
  have "vs = url # us" using github_lawsD(9) [OF laws w3(2) w4] rp(7) g3 by simp
  with w4 have "pull_request G rp (t_Branch t) b ti' bo' w3 = (Inr url, w4)" by (simp add: pull_request_def Let_def)
  with rp(1) w1 w2 w3(1) show ?thesis by (simp add: gh_OpenPR_def topic_branch_def)
qed

end

lemma total_Inr: "total w r = (Inr x, w') \<longleftrightarrow> r = Some (Inr x, w')"
  by (auto simp: total_def split: option.split)

sublocale github_api \<subseteq> provider: idempotent_provider "github_provider G" ok
proof (unfold_locales, goal_cases)
  case (1 s t fs msg sha changed s' msg')
  then have "gh_CommitFiles G t fs msg s = Some (Inr (sha, changed), s')" by (simp add: github_provider_def total_Inr)
  from CommitFiles_again [OF 1(1) this, of msg'] show ?case by (auto simp: github_provider_def total_def)
next
  case (2 s t ps msg sha changed s' msg')
  then have "gh_DeleteFiles G t ps msg s = Some (Inr (sha, changed), s')" by (simp add: github_provider_def total_Inr)
  from DeleteFiles_again [OF 2(1) this, of msg'] show ?case by (auto simp: github_provider_def total_def)
next
  case (3 s t fs b ti bo url s' ti' bo')
  then have "gh_OpenPR G t fs b ti bo s = Some (Inr url, s')" by (simp add: github_provider_def total_Inr)
  from OpenPR_again [OF 3(1) this, of ti' bo'] show ?case by (auto simp: github_provider_def total_def)
qed

context github_api
begin

lemma idempotent: "idempotent_provider (github_provider G) ok"
  by (rule provider.idempotent_provider_axioms)

end


section \<open>A server in memory\<close>

text \<open>Objects are named by their kind and their position in a list without duplicates.\<close>

definition obj_name :: "char \<Rightarrow> nat \<Rightarrow> string" where
  "obj_name k i = k # show_nat i"

definition table :: "char \<Rightarrow> 'a list \<Rightarrow> string \<Rightarrow> 'a option" where
  "table k xs s = map_option (\<lambda>i. xs ! i) (find (\<lambda>i. obj_name k i = s) [0..<length xs])"

definition intern :: "char \<Rightarrow> 'a \<Rightarrow> 'a list \<Rightarrow> string \<times> 'a list" where
  "intern k x xs =
     (case find (\<lambda>i. xs ! i = x) [0..<length xs] of
        Some i \<Rightarrow> (obj_name k i, xs) | None \<Rightarrow> (obj_name k (length xs), xs @ [x]))"

lemma obj_name_inj [simp]: "obj_name k i = obj_name k j \<longleftrightarrow> i = j"
  using show_nat_inj by (auto simp: obj_name_def)

lemma find_upt: "find P [0..<n] = Some i \<Longrightarrow> i < n \<and> P i"
  by (auto simp: find_Some_iff)

lemma table_Some: "table k xs s = Some x \<longleftrightarrow> (\<exists>i < length xs. s = obj_name k i \<and> x = xs ! i)"
proof
  show "\<exists>i < length xs. s = obj_name k i \<and> x = xs ! i" if "table k xs s = Some x"
    using that by (auto simp: table_def dest: find_upt)
next
  assume "\<exists>i < length xs. s = obj_name k i \<and> x = xs ! i"
  then obtain i where i: "i < length xs" "s = obj_name k i" "x = xs ! i" by blast
  then have "find (\<lambda>i. obj_name k i = s) [0..<length xs] \<noteq> None" by (auto simp: find_None_iff)
  then obtain j where "find (\<lambda>i. obj_name k i = s) [0..<length xs] = Some j" by blast
  with find_upt [OF this] i show "table k xs s = Some x" by (simp add: table_def)
qed

lemma table_append: "table k xs \<subseteq>\<^sub>m table k (xs @ ys)"
  unfolding map_le_def
proof
  fix s assume "s \<in> dom (table k xs)"
  then obtain x where x: "table k xs s = Some x" by blast
  then obtain i where "i < length xs" "s = obj_name k i" "x = xs ! i" by (auto simp: table_Some)
  then have "table k (xs @ ys) s = Some x" unfolding table_Some by (intro exI [of _ i]) (simp add: nth_append)
  with x show "table k xs s = table k (xs @ ys) s" by simp
qed

lemma intern_laws:
  assumes "intern k x xs = (s, ys)"
  shows "table k ys s = Some x" "table k xs \<subseteq>\<^sub>m table k ys" "distinct xs \<Longrightarrow> distinct ys"
proof -
  have "table k ys s = Some x \<and> table k xs \<subseteq>\<^sub>m table k ys \<and> (distinct xs \<longrightarrow> distinct ys)"
  proof (cases "find (\<lambda>i. xs ! i = x) [0..<length xs]")
    case (Some i)
    with find_upt [OF Some] assms show ?thesis by (auto simp: intern_def table_Some)
  next
    case None
    then have eq: "s = obj_name k (length xs)" "ys = xs @ [x]" using assms by (simp_all add: intern_def)
    have "\<not> (\<exists>i < length xs. xs ! i = x)" using None by (simp add: find_None_iff)
    then have "x \<notin> set xs" by (auto simp: in_set_conv_nth)
    moreover have "\<exists>i < length ys. s = obj_name k i \<and> x = ys ! i" using eq by (intro exI [of _ "length xs"]) simp
    ultimately show ?thesis unfolding table_Some using eq(2) by (simp add: table_append)
  qed
  then show "table k ys s = Some x" "table k xs \<subseteq>\<^sub>m table k ys" "distinct xs \<Longrightarrow> distinct ys" by simp_all
qed

lemma table_unique: "distinct xs \<Longrightarrow> table k xs s = Some x \<Longrightarrow> table k xs s' = Some x \<Longrightarrow> s = s'"
  by (auto simp: table_Some nth_eq_iff_index_eq)

record mem_hub =
  mh_blobs :: "string list"
  mh_trees :: "(string, string) fmap list"
  mh_commits :: "string list"
  mh_refs :: "repo \<times> string \<Rightarrow> string option"
  mh_prs :: "repo \<Rightarrow> (string \<times> string \<times> string) list"

definition no_object :: go_err where
  "no_object = GithubError 404 ''Not Found''"

definition refused :: go_err where
  "refused = GithubError 422 ''Unprocessable Entity''"

definition tree_overlay :: "TreeEntry list \<Rightarrow> (string, string) fmap \<Rightarrow> (string, string) fmap" where
  "tree_overlay es F = fold (\<lambda>e F. case te_SHA e of Some s \<Rightarrow> fmupd (te_Path e) s F | None \<Rightarrow> fmdrop (te_Path e) F) es F"

definition mem_github :: "mem_hub github" where
  "mem_github =
     \<lparr>gh_GetRef = (\<lambda>rp r w. (case mh_refs w (rp, r) of Some c \<Rightarrow> Inr c | None \<Rightarrow> Inl no_object, w)),
      gh_GetCommit = (\<lambda>rp c w. (case table CHR ''c'' (mh_commits w) c of Some t \<Rightarrow> Inr t | None \<Rightarrow> Inl no_object, w)),
      gh_CreateBlob = (\<lambda>rp s w. case intern CHR ''b'' s (mh_blobs w) of (b, bs) \<Rightarrow> (Inr b, w\<lparr>mh_blobs := bs\<rparr>)),
      gh_CreateTree = (\<lambda>rp base es w. case table CHR ''t'' (mh_trees w) base of
         None \<Rightarrow> (Inl no_object, w)
       | Some F \<Rightarrow> (case intern CHR ''t'' (tree_overlay es F) (mh_trees w) of (t, ts) \<Rightarrow> (Inr t, w\<lparr>mh_trees := ts\<rparr>))),
      gh_CreateCommit = (\<lambda>rp m t ps w. if table CHR ''t'' (mh_trees w) t = None then (Inl refused, w)
         else (Inr (obj_name CHR ''c'' (length (mh_commits w))), w\<lparr>mh_commits := mh_commits w @ [t]\<rparr>)),
      gh_UpdateRef = (\<lambda>rp r c w. if table CHR ''c'' (mh_commits w) c = None \<or> mh_refs w (rp, r) = None then (Some refused, w)
         else (None, w\<lparr>mh_refs := (mh_refs w)((rp, r) \<mapsto> c)\<rparr>)),
      gh_CreateRef = (\<lambda>rp r c w.
         if table CHR ''c'' (mh_commits w) c = None \<or> \<not> HasPrefix r ''refs/'' \<or> mh_refs w (rp, drop 5 r) \<noteq> None then (Inl refused, w)
         else (Inr c, w\<lparr>mh_refs := (mh_refs w)((rp, drop 5 r) \<mapsto> c)\<rparr>)),
      gh_ListPRs = (\<lambda>rp h b w. (Inr [u. (h', b', u) \<leftarrow> mh_prs w rp, h' = h \<and> b' = b], w)),
      gh_CreatePR = (\<lambda>rp ti h b bo w.
         let url = ''https://example.invalid/pull/'' @ show_nat (length (mh_prs w rp) + 1)
         in (Inr url, w\<lparr>mh_prs := (mh_prs w)(rp := (fst rp @ '':'' @ h, b, url) # mh_prs w rp)\<rparr>))\<rparr>"

definition mem_view :: "mem_hub github_view" where
  "mem_view =
     \<lparr>v_ref = mh_refs, v_commit = (\<lambda>w (rp, c). table CHR ''c'' (mh_commits w) c),
      v_tree = (\<lambda>w (rp, t). map_option fmlookup (table CHR ''t'' (mh_trees w) t)),
      v_blob = (\<lambda>w (rp, b). table CHR ''b'' (mh_blobs w) b), v_prs = mh_prs\<rparr>"

definition mem_ok :: "mem_hub \<Rightarrow> bool" where
  "mem_ok w \<longleftrightarrow> distinct (mh_blobs w) \<and> distinct (mh_trees w)
     \<and> (\<forall>t \<in> set (mh_commits w). table CHR ''t'' (mh_trees w) t \<noteq> None)
     \<and> (\<forall>c \<in> ran (mh_refs w). table CHR ''c'' (mh_commits w) c \<noteq> None)"

lemma mem_view_simps [simp]:
  "v_ref mem_view w = mh_refs w" "v_commit mem_view w (rp, c) = table CHR ''c'' (mh_commits w) c"
  "v_tree mem_view w (rp, t) = map_option fmlookup (table CHR ''t'' (mh_trees w) t)"
  "v_blob mem_view w (rp, b) = table CHR ''b'' (mh_blobs w) b" "v_prs mem_view w = mh_prs w"
  by (simp_all add: mem_view_def)

lemma tree_overlay: "fmlookup (tree_overlay es F) = overlay es (fmlookup F)"
proof (induction es arbitrary: F)
  case (Cons e es)
  have "fmlookup (case te_SHA e of Some s \<Rightarrow> fmupd (te_Path e) s F | None \<Rightarrow> fmdrop (te_Path e) F) = (fmlookup F)(te_Path e := te_SHA e)"
    by (auto simp: fun_eq_iff split: option.split)
  with Cons show ?case by (simp add: tree_overlay_def overlay_def)
qed (simp add: tree_overlay_def overlay_def)


lemma mem_grownI:
  assumes "table CHR ''c'' (mh_commits w) \<subseteq>\<^sub>m table CHR ''c'' (mh_commits w')" and "table CHR ''t'' (mh_trees w) \<subseteq>\<^sub>m table CHR ''t'' (mh_trees w')"
    and "table CHR ''b'' (mh_blobs w) \<subseteq>\<^sub>m table CHR ''b'' (mh_blobs w')"
  shows "grown mem_view w w'"
  using assms unfolding grown_def map_le_def by (auto simp: dom_def)

lemma mem_okD:
  assumes "mem_ok w"
  shows "distinct (mh_blobs w)" "distinct (mh_trees w)" "t \<in> set (mh_commits w) \<Longrightarrow> \<exists>F. table CHR ''t'' (mh_trees w) t = Some F"
    "mh_refs w k = Some c \<Longrightarrow> \<exists>t. table CHR ''c'' (mh_commits w) c = Some t"
  using assms by (auto simp: mem_ok_def dest: ranI)

lemma mem_consistent:
  assumes "mem_ok w"
  shows "consistent mem_view w"
  unfolding consistent_def mem_view_simps
proof (intro conjI allI impI)
  fix rp :: repo and r c assume "mh_refs w (rp, r) = Some c"
  then show "table CHR ''c'' (mh_commits w) c \<noteq> None" using mem_okD(4) [OF assms] by blast
next
  fix rp :: repo and c t assume "table CHR ''c'' (mh_commits w) c = Some t"
  then have "t \<in> set (mh_commits w)" by (auto simp: table_Some)
  then show "map_option fmlookup (table CHR ''t'' (mh_trees w) t) \<noteq> None" using mem_okD(3) [OF assms] by auto
next
  fix rp :: repo and t t' F
  assume "map_option fmlookup (table CHR ''t'' (mh_trees w) t) = Some F" "map_option fmlookup (table CHR ''t'' (mh_trees w) t') = Some F"
  then obtain X Y where "table CHR ''t'' (mh_trees w) t = Some X" "table CHR ''t'' (mh_trees w) t' = Some Y" "fmlookup X = fmlookup Y" by auto
  then show "t = t'" using table_unique [OF mem_okD(2) [OF assms]] fmlookup_inject by metis
next
  fix rp :: repo and b b' x
  assume "table CHR ''b'' (mh_blobs w) b = Some x" "table CHR ''b'' (mh_blobs w) b' = Some x"
  then show "b = b'" by (rule table_unique [OF mem_okD(1) [OF assms]])
qed

lemma mem_ok_trees:
  assumes "mem_ok w" and "table CHR ''t'' (mh_trees w) \<subseteq>\<^sub>m table CHR ''t'' ts" and "distinct ts"
  shows "mem_ok (w\<lparr>mh_trees := ts\<rparr>)"
  using assms mem_okD(3) [OF assms(1)] map_leD [OF assms(2)] by (fastforce simp: mem_ok_def)

lemma mem_ok_commit:
  assumes "mem_ok w" and "table CHR ''t'' (mh_trees w) t \<noteq> None"
  shows "mem_ok (w\<lparr>mh_commits := mh_commits w @ [t]\<rparr>)"
  using assms map_leD [OF table_append [of "CHR ''c''" "mh_commits w" "[t]"]] by (fastforce simp: mem_ok_def)

lemma mem_ok_ref:
  assumes "mem_ok w" and "table CHR ''c'' (mh_commits w) c \<noteq> None"
  shows "mem_ok (w\<lparr>mh_refs := (mh_refs w)(k \<mapsto> c)\<rparr>)"
  using assms by (auto simp: mem_ok_def ran_def simp del: split_paired_All split_paired_Ex)

lemma mem_CreateBlob:
  assumes "mem_ok w" and "gh_CreateBlob mem_github rp s w = (x, w')"
  shows "mem_ok w' \<and> only_grown mem_view w w' \<and> (\<forall>b. x = Inr b \<longrightarrow> v_blob mem_view w' (rp, b) = Some s)"
proof -
  obtain b bs where b: "intern CHR ''b'' s (mh_blobs w) = (b, bs)" by fastforce
  from assms(2) b have "x = Inr b" "w' = w\<lparr>mh_blobs := bs\<rparr>" by (simp_all add: mem_github_def)
  with intern_laws [OF b] assms(1) show ?thesis by (auto simp: mem_ok_def only_grown_def intro!: mem_grownI)
qed

lemma mem_CreateTree:
  assumes "mem_ok w" and "gh_CreateTree mem_github rp base es w = (x, w')"
  shows "mem_ok w' \<and> only_grown mem_view w w'
    \<and> (\<forall>t. x = Inr t \<longrightarrow> (\<exists>F. v_tree mem_view w (rp, base) = Some F \<and> v_tree mem_view w' (rp, t) = Some (overlay es F)))"
proof (cases "table CHR ''t'' (mh_trees w) base")
  case None
  with assms show ?thesis by (auto simp: mem_github_def)
next
  case (Some F)
  obtain t ts where t: "intern CHR ''t'' (tree_overlay es F) (mh_trees w) = (t, ts)" by fastforce
  from assms(2) Some t have "x = Inr t" "w' = w\<lparr>mh_trees := ts\<rparr>" by (simp_all add: mem_github_def)
  with intern_laws [OF t] Some mem_ok_trees [OF assms(1)] mem_okD(2) [OF assms(1)] show ?thesis
    by (auto simp: only_grown_def tree_overlay intro!: mem_grownI)
qed

lemma mem_CreateCommit:
  assumes "mem_ok w" and "gh_CreateCommit mem_github rp m t ps w = (x, w')"
  shows "mem_ok w' \<and> only_grown mem_view w w' \<and> (\<forall>c. x = Inr c \<longrightarrow> v_commit mem_view w' (rp, c) = Some t)"
proof (cases "table CHR ''t'' (mh_trees w) t = None")
  case True
  with assms show ?thesis by (auto simp: mem_github_def)
next
  case False
  with assms(2) have x: "x = Inr (obj_name CHR ''c'' (length (mh_commits w)))" "w' = w\<lparr>mh_commits := mh_commits w @ [t]\<rparr>"
    by (simp_all add: mem_github_def)
  moreover have "table CHR ''c'' (mh_commits w @ [t]) (obj_name CHR ''c'' (length (mh_commits w))) = Some t"
    unfolding table_Some by (intro exI [of _ "length (mh_commits w)"]) simp
  ultimately show ?thesis using mem_ok_commit [OF assms(1) False] by (auto simp: only_grown_def table_append intro!: mem_grownI)
qed

lemma mem_laws: "github_laws mem_github mem_view mem_ok"
proof -
  have read: "\<forall>w rp r x w'. mem_ok w \<longrightarrow> gh_GetRef mem_github rp r w = (x, w') \<longrightarrow>
       mem_ok w' \<and> only_grown mem_view w w' \<and> (\<forall>c. x = Inr c \<longrightarrow> v_ref mem_view w (rp, r) = Some c)"
    "\<forall>w rp c x w'. mem_ok w \<longrightarrow> gh_GetCommit mem_github rp c w = (x, w') \<longrightarrow>
       mem_ok w' \<and> only_grown mem_view w w' \<and> (\<forall>t. x = Inr t \<longrightarrow> v_commit mem_view w (rp, c) = Some t)"
    "\<forall>w rp h b x w'. mem_ok w \<longrightarrow> gh_ListPRs mem_github rp h b w = (x, w') \<longrightarrow>
       mem_ok w' \<and> only_grown mem_view w w' \<and> (\<forall>us. x = Inr us \<longrightarrow> us = [u. (h', b', u) \<leftarrow> v_prs mem_view w rp, h' = h \<and> b' = b])"
    by (auto simp: mem_github_def split: option.splits)
  have ref: "mem_ok w' \<and> grown mem_view w w' \<and> v_prs mem_view w' = v_prs mem_view w
       \<and> v_ref mem_view w' = (if x = None then (v_ref mem_view w)((rp, r) \<mapsto> c) else v_ref mem_view w)"
    if "mem_ok w" "gh_UpdateRef mem_github rp r c w = (x, w')" for w rp r c x w'
    using that mem_ok_ref [OF that(1), of c "(rp, r)"] by (auto simp: mem_github_def intro!: mem_grownI split: if_splits)
  have new: "mem_ok w' \<and> grown mem_view w w' \<and> v_prs mem_view w' = v_prs mem_view w
       \<and> (case x of Inl _ \<Rightarrow> v_ref mem_view w' = v_ref mem_view w
          | Inr c' \<Rightarrow> c' = c \<and> v_ref mem_view w' = (v_ref mem_view w)((rp, r) \<mapsto> c))"
    if "mem_ok w" "gh_CreateRef mem_github rp (''refs/'' @ r) c w = (x, w')" for w rp r c x w'
    using that mem_ok_ref [OF that(1), of c "(rp, r)"] by (auto simp: mem_github_def intro!: mem_grownI split: if_splits)
  have pr: "mem_ok w' \<and> grown mem_view w w' \<and> v_ref mem_view w' = v_ref mem_view w
       \<and> (case x of Inl _ \<Rightarrow> v_prs mem_view w' = v_prs mem_view w
          | Inr u \<Rightarrow> v_prs mem_view w' = (v_prs mem_view w)(rp := (fst rp @ '':'' @ h, b, u) # v_prs mem_view w rp))"
    if "mem_ok w" "gh_CreatePR mem_github rp ti h b bo w = (x, w')" for w rp ti h b bo x w'
    using that by (auto simp: mem_github_def mem_ok_def Let_def intro!: mem_grownI)
  show ?thesis
    unfolding github_laws_def
    apply (rule conjI, intro allI impI, erule mem_consistent)
    apply (rule conjI, rule read(1))
    apply (rule conjI, rule read(2))
    apply (rule conjI, intro allI impI, erule (1) mem_CreateBlob)
    apply (rule conjI, intro allI impI, erule (1) mem_CreateTree)
    apply (rule conjI, intro allI impI, erule (1) mem_CreateCommit)
    apply (rule conjI, intro allI impI, erule (1) ref)
    apply (rule conjI, intro allI impI, erule (1) new)
    apply (rule conjI, rule read(3))
    apply (intro allI impI, erule (1) pr)
    done
qed

lemma mem_answers: "github_answers mem_github mem_view mem_ok"
  unfolding github_answers_def
  by (auto simp: mem_github_def no_object_def Let_def split: option.split prod.split)

interpretation mgh: github_api mem_github mem_view mem_ok
  by unfold_locales (rule mem_laws, rule mem_answers)


section \<open>Properties\<close>

text \<open>The files by their paths in the repository, later ones first.\<close>

definition written :: "Target \<Rightarrow> File list \<Rightarrow> string \<Rightarrow> string option" where
  "written t fs = map_of (rev (map (\<lambda>f. (FullPath t (f_Path f), f_Content f)) fs))"

lemma entries_written:
  assumes "entries_for V w rp t fs es"
  shows "case written t fs p of Some x \<Rightarrow> (\<exists>b. overlay es F p = Some b \<and> v_blob V w (rp, b) = Some x) | None \<Rightarrow> overlay es F p = F p"
  using assms
proof (induction fs arbitrary: es F)
  case (Cons f fs)
  then obtain e r where e: "es = e # r" "te_Path e = FullPath t (f_Path f)" "entries_for V w rp t fs r"
    and b: "\<exists>b. te_SHA e = Some b \<and> v_blob V w (rp, b) = Some (f_Content f)"
    by (auto simp: entries_for_def list_all2_Cons1)
  have "overlay es F = overlay r (F(te_Path e := te_SHA e))" by (simp add: e(1) overlay_def)
  moreover have "written t (f # fs) p = (case written t fs p of Some x \<Rightarrow> Some x | None \<Rightarrow> if p = te_Path e then Some (f_Content f) else None)"
    by (simp add: written_def map_add_def e(2) split: option.split)
  ultimately show ?case
    using Cons.IH [OF e(3), of "F(te_Path e := te_SHA e)"] b by (cases "written t fs p") auto
qed (simp add: entries_for_def overlay_def written_def)




text \<open>A repository with one file on its main branch.\<close>

definition sample_hub :: mem_hub where
  "sample_hub =
     \<lparr>mh_blobs = [''old''], mh_trees = [fmap_of_list [(''README'', obj_name CHR ''b'' 0)]], mh_commits = [obj_name CHR ''t'' 0],
      mh_refs = [((''acme'', ''state''), ''heads/main'') \<mapsto> obj_name CHR ''c'' 0], mh_prs = (\<lambda>_. [])\<rparr>"

definition state_target :: Target where
  "state_target = \<lparr>t_Repo = ''acme/state'', t_Path = ''clusters/'', t_Branch = ''main''\<rparr>"

definition state_files :: "File list" where
  "state_files = [\<lparr>f_Path = ''db.yaml'', f_Content = ''new''\<rparr>]"

lemma sample_hub_ok: "mem_ok sample_hub"
proof -
  have t: "table CHR ''t'' (mh_trees sample_hub) (obj_name CHR ''t'' 0) \<noteq> None" by (simp add: sample_hub_def table_def)
  have c: "table CHR ''c'' (mh_commits sample_hub) (obj_name CHR ''c'' 0) \<noteq> None" by (simp add: sample_hub_def table_def)
  have "mh_commits sample_hub = [obj_name CHR ''t'' 0]" "ran (mh_refs sample_hub) = {obj_name CHR ''c'' 0}"
    "distinct (mh_blobs sample_hub)" "distinct (mh_trees sample_hub)" by (simp_all add: sample_hub_def)
  with t c show ?thesis by (simp add: mem_ok_def)
qed

lemma sample_commit:
  "\<exists>w'. gh_CommitFiles mem_github state_target state_files ''add'' sample_hub = Some (Inr (''c1'', True), w')"
proof -
  have "map_option fst (gh_CommitFiles mem_github state_target state_files ''add'' sample_hub) = Some (Inr (''c1'', True))" by code_simp
  then show ?thesis by auto
qed



end
