(* ===== verification/App_Auth.thy ===== *)
theory App_Auth
  imports GitHub_Provider Tunnel_Relay Stream_Client
begin

text \<open>
  How the provider authenticates (\<open>internal/git/appauth.go\<close> and the construction of the clients in
  \<open>github.go\<close>): the credentials of a GitHub App, the short-lived JWT signed with them, the installation token it
  is exchanged for, and the transports that put them into requests.

  The parser of PEM keys, the signature, the exchange and the HTTP transport are parameters. Times are
  nanoseconds; \<open>now\<close> reads the clock of a world.
\<close>

section \<open>Credentials (appauth.go)\<close>

record 'k AppCredentials =
  app_AppID :: int
  app_InstallationID :: int
  app_PrivateKey :: 'k

definition bytes_of :: "(string \<Rightarrow> string option) \<Rightarrow> string \<Rightarrow> string" where
  "bytes_of data k = (case data k of None \<Rightarrow> [] | Some v \<Rightarrow> v)"

definition num_err :: "num_error \<Rightarrow> go_err" where
  "num_err e = ExtError (case e of ErrSyntax \<Rightarrow> ''invalid syntax'' | ErrRange \<Rightarrow> ''value out of range'')"

definition ParseAppCredentials :: "(string \<Rightarrow> 'k res) \<Rightarrow> (string \<Rightarrow> string option) \<Rightarrow> 'k AppCredentials res" where
  "ParseAppCredentials parsePEM data =
     (case ParseInt64 (bytes_of data ''app-id'') of
        (_, Some err) \<Rightarrow> Inl (Wrapf ''git: github app credentials: bad app-id: %w'' [] (num_err err))
      | (appID, None) \<Rightarrow>
      case ParseInt64 (bytes_of data ''installation-id'') of
        (_, Some err) \<Rightarrow> Inl (Wrapf ''git: github app credentials: bad installation-id: %w'' [] (num_err err))
      | (instID, None) \<Rightarrow>
      case parsePEM (bytes_of data ''private-key'') of
        Inl err \<Rightarrow> Inl (Wrapf ''git: github app credentials: bad private-key: %w'' [] err)
      | Inr key \<Rightarrow> Inr \<lparr>app_AppID = appID, app_InstallationID = instID, app_PrivateKey = key\<rparr>)"

section \<open>Tokens (appauth.go)\<close>

text \<open>Numeric dates are in seconds.\<close>

record RegisteredClaims =
  rc_Issuer :: string
  rc_IssuedAt :: int
  rc_ExpiresAt :: int

definition NumericDate :: "int \<Rightarrow> int" where
  "NumericDate t = t div seconds 1"

record 'k appTokenSource =
  ats_creds :: "'k AppCredentials"
  ats_token :: string
  ats_expiresAt :: int

definition app_claims :: "'k AppCredentials \<Rightarrow> int \<Rightarrow> RegisteredClaims" where
  "app_claims creds t =
     \<lparr>rc_Issuer = show_int (app_AppID creds), rc_IssuedAt = NumericDate (t - seconds 30), rc_ExpiresAt = NumericDate (t + seconds (9 * 60))\<rparr>"

definition appJWT :: "('k \<Rightarrow> RegisteredClaims \<Rightarrow> string res) \<Rightarrow> 'k appTokenSource \<Rightarrow> int \<Rightarrow> string res" where
  "appJWT sign s t = sign (app_PrivateKey (ats_creds s)) (app_claims (ats_creds s) t)"

definition cached :: "'k appTokenSource \<Rightarrow> int \<Rightarrow> bool" where
  "cached s t \<longleftrightarrow> ats_token s \<noteq> [] \<and> ats_expiresAt s - t > seconds 60"

definition app_Token ::
  "('k \<Rightarrow> RegisteredClaims \<Rightarrow> string res) \<Rightarrow> (string \<Rightarrow> 'w \<Rightarrow> (string \<times> int) res \<times> 'w) \<Rightarrow> ('w \<Rightarrow> int) \<Rightarrow>
   'k appTokenSource \<Rightarrow> 'w \<Rightarrow> string res \<times> 'k appTokenSource \<times> 'w"
where
  "app_Token sign newToken now s w =
     (if cached s (now w) then (Inr (ats_token s), s, w)
      else case appJWT sign s (now w) of
        Inl err \<Rightarrow> (Inl (Wrapf ''git: sign app JWT: %w'' [] err), s, w)
      | Inr jwt \<Rightarrow>
          (case newToken jwt w of
             (Inl err, w1) \<Rightarrow> (Inl err, s, w1)
           | (Inr (tok, until), w1) \<Rightarrow> (Inr tok, s\<lparr>ats_token := tok, ats_expiresAt := until\<rparr>, w1)))"

text \<open>The headers both transports set.\<close>

definition bearer_request :: "string \<Rightarrow> http_request \<Rightarrow> http_request" where
  "bearer_request tok req =
     req\<lparr>hq_Header := header_Set ''Accept'' ''application/vnd.github+json'' (header_Set ''Authorization'' (''Bearer '' @ tok) (hq_Header req))\<rparr>"

definition token_RoundTrip ::
  "('k \<Rightarrow> RegisteredClaims \<Rightarrow> string res) \<Rightarrow> (string \<Rightarrow> 'w \<Rightarrow> (string \<times> int) res \<times> 'w) \<Rightarrow> ('w \<Rightarrow> int) \<Rightarrow>
   (http_request \<Rightarrow> 'w \<Rightarrow> http_response res \<times> 'w) \<Rightarrow> http_request \<Rightarrow> 'k appTokenSource \<Rightarrow> 'w \<Rightarrow> http_response res \<times> 'k appTokenSource \<times> 'w"
where
  "token_RoundTrip sign newToken now base req s w =
     (case app_Token sign newToken now s w of
        (Inl err, s1, w1) \<Rightarrow> (Inl err, s1, w1)
      | (Inr tok, s1, w1) \<Rightarrow> (case base (bearer_request tok req) w1 of (r, w2) \<Rightarrow> (r, s1, w2)))"

section \<open>Clients (github.go)\<close>

definition jwt_RoundTrip :: "(http_request \<Rightarrow> 'w \<Rightarrow> http_response res \<times> 'w) \<Rightarrow> string \<Rightarrow> http_request \<Rightarrow> 'w \<Rightarrow> http_response res \<times> 'w" where
  "jwt_RoundTrip base jwt req w = base (bearer_request jwt req) w"

text \<open>The URL library and the constructor of a client for a base URL.\<close>

record ('u, 'c) client_lib =
  cb_Parse :: "string \<Rightarrow> 'u res"
  cb_Path :: "'u \<Rightarrow> string"
  cb_SetPath :: "string \<Rightarrow> 'u \<Rightarrow> 'u"
  cb_String :: "'u \<Rightarrow> string"
  cb_NewClient :: "string option \<Rightarrow> 'c res"

definition newClient :: "('u, 'c) client_lib \<Rightarrow> string \<Rightarrow> 'c res" where
  "newClient L apiBase =
     (if apiBase = [] then cb_NewClient L None
      else case cb_Parse L apiBase of
        Inl err \<Rightarrow> Inl (Wrapf ''git: bad API base %q: %w'' [AStr apiBase] err)
      | Inr u \<Rightarrow>
          let u1 = (if HasSuffix (cb_Path L u) ''/'' then u else cb_SetPath L (cb_Path L u @ ''/'') u)
          in cb_NewClient L (Some (cb_String L u1)))"

text \<open>The exchange of a JWT: \<open>lib jwt\<close> builds clients that send it, \<open>create\<close> is the call of such a client.\<close>

definition installation_token ::
  "(string \<Rightarrow> ('u, 'c) client_lib) \<Rightarrow> ('c \<Rightarrow> int \<Rightarrow> 'w \<Rightarrow> (string \<times> int) res \<times> 'w) \<Rightarrow> 'k AppCredentials \<Rightarrow> string \<Rightarrow>
   string \<Rightarrow> 'w \<Rightarrow> (string \<times> int) res \<times> 'w"
where
  "installation_token lib create creds apiBase jwt w =
     (case newClient (lib jwt) apiBase of
        Inl err \<Rightarrow> (Inl err, w)
      | Inr c \<Rightarrow>
          (case create c (app_InstallationID creds) w of
             (Inl err, w1) \<Rightarrow> (Inl (Wrapf ''git: create installation token: %w'' [] err), w1)
           | (Inr r, w1) \<Rightarrow> (Inr r, w1)))"

text \<open>\<open>lib\<close> builds clients on the transport of the token source; \<open>api\<close> is the API through such a client.\<close>

definition NewGitHubProvider :: "('u, 'c) client_lib \<Rightarrow> ('c \<Rightarrow> 'w github) \<Rightarrow> string \<Rightarrow> 'w Provider res" where
  "NewGitHubProvider lib api apiBase = (case newClient lib apiBase of Inl err \<Rightarrow> Inl err | Inr c \<Rightarrow> Inr (github_provider (api c)))"

section \<open>A sequence of requests\<close>

text \<open>The token source used in the given worlds, one after the other: what each use returned, and whether it exchanged a JWT.\<close>

fun vend ::
  "('k \<Rightarrow> RegisteredClaims \<Rightarrow> string res) \<Rightarrow> (string \<Rightarrow> 'w \<Rightarrow> (string \<times> int) res \<times> 'w) \<Rightarrow> ('w \<Rightarrow> int) \<Rightarrow>
   'k appTokenSource \<Rightarrow> 'w list \<Rightarrow> (string res \<times> bool) list"
where
  "vend sign newToken now s [] = []"
| "vend sign newToken now s (w # ws) =
     (case app_Token sign newToken now s w of (r, s1, w1) \<Rightarrow> (r, \<not> cached s (now w)) # vend sign newToken now s1 ws)"

text \<open>The exchange in a world returned this token with this expiry.\<close>

definition exchanged ::
  "('k \<Rightarrow> RegisteredClaims \<Rightarrow> string res) \<Rightarrow> (string \<Rightarrow> 'w \<Rightarrow> (string \<times> int) res \<times> 'w) \<Rightarrow> ('w \<Rightarrow> int) \<Rightarrow> 'k AppCredentials \<Rightarrow>
   'w \<Rightarrow> string \<Rightarrow> int \<Rightarrow> bool"
where
  "exchanged sign newToken now creds w tok until \<longleftrightarrow>
     (\<exists>jwt. sign (app_PrivateKey creds) (app_claims creds (now w)) = Inr jwt \<and> fst (newToken jwt w) = Inr (tok, until))"

lemma app_Token_creds: "app_Token sign newToken now s w = (r, s1, w1) \<Longrightarrow> ats_creds s1 = ats_creds s"
  by (auto simp: app_Token_def split: if_splits sum.splits prod.splits)

lemma vend_length: "length (vend sign newToken now s ws) = length ws"
  by (induction ws arbitrary: s) (simp_all split: prod.split)

text \<open>What is in the cache came from an exchange in \<open>w0\<close>.\<close>

definition sourced ::
  "('k \<Rightarrow> RegisteredClaims \<Rightarrow> string res) \<Rightarrow> (string \<Rightarrow> 'w \<Rightarrow> (string \<times> int) res \<times> 'w) \<Rightarrow> ('w \<Rightarrow> int) \<Rightarrow> 'k appTokenSource \<Rightarrow> 'w \<Rightarrow> bool"
where
  "sourced sign newToken now s w0 \<longleftrightarrow> exchanged sign newToken now (ats_creds s) w0 (ats_token s) (ats_expiresAt s)"

lemma app_Token_cases:
  assumes "app_Token sign newToken now s w = (r, s1, w1)"
  obtains "cached s (now w)" "r = Inr (ats_token s)" "s1 = s"
  | err where "\<not> cached s (now w)" "r = Inl err" "s1 = s"
  | tok until where "\<not> cached s (now w)" "r = Inr tok" "s1 = s\<lparr>ats_token := tok, ats_expiresAt := until\<rparr>"
      "exchanged sign newToken now (ats_creds s) w tok until"
proof (cases "cached s (now w)")
  case True
  then have "r = Inr (ats_token s)" "s1 = s" using assms by (auto simp: app_Token_def)
  with True show ?thesis by (rule that(1))
next
  case False
  show ?thesis
  proof (cases "appJWT sign s (now w)")
    case (Inl err)
    with False assms have "s1 = s" "\<exists>e. r = Inl e" by (auto simp: app_Token_def)
    with False that(2) show ?thesis by blast
  next
    case (Inr jwt)
    obtain y w2 where y: "newToken jwt w = (y, w2)" by fastforce
    show ?thesis
    proof (cases y)
      case Inl': (Inl err)
      with False Inr y assms have "s1 = s" "\<exists>e. r = Inl e" by (auto simp: app_Token_def)
      with False that(2) show ?thesis by blast
    next
      case Inr': (Inr te)
      obtain tok e where te: "te = (tok, e)" by (cases te)
      have "exchanged sign newToken now (ats_creds s) w tok e"
        unfolding exchanged_def using Inr y Inr' te by (intro exI [of _ jwt]) (simp add: appJWT_def)
      moreover have "r = Inr tok" "s1 = s\<lparr>ats_token := tok, ats_expiresAt := e\<rparr>"
        using False Inr y Inr' te assms by (simp_all add: app_Token_def)
      ultimately show ?thesis using False by (intro that(3))
    qed
  qed
qed

lemma vend_fresh:
  assumes "i < length ws" and "vend sign newToken now s ws ! i = (Inr tok, fresh)"
  shows "(\<exists>j \<le> i. \<exists>e. exchanged sign newToken now (ats_creds s) (ws ! j) tok e \<and> (if fresh then j = i else e - now (ws ! i) > seconds 60))
    \<or> (\<not> fresh \<and> tok = ats_token s \<and> tok \<noteq> [] \<and> ats_expiresAt s - now (ws ! i) > seconds 60)"
  using assms
proof (induction ws arbitrary: s i)
  case (Cons w ws)
  obtain r s1 w1 where step: "app_Token sign newToken now s w = (r, s1, w1)" by (metis prod_cases3)
  show ?case
  proof (cases i)
    case 0
    with Cons.prems(2) step have r: "r = Inr tok" "fresh = (\<not> cached s (now w))" by simp_all
    from step show ?thesis
      by (cases rule: app_Token_cases) (use r 0 in \<open>auto simp: cached_def\<close>)
  next
    case (Suc k)
    with Cons.prems step have k: "k < length ws" "vend sign newToken now s1 ws ! k = (Inr tok, fresh)" by simp_all
    note ih = Cons.IH [OF k]
    have creds: "ats_creds s1 = ats_creds s" using app_Token_creds [OF step] .
    consider j e where "j \<le> k" "exchanged sign newToken now (ats_creds s) (ws ! j) tok e" "if fresh then j = k else e - now (ws ! k) > seconds 60"
      | "\<not> fresh" "tok = ats_token s1" "tok \<noteq> []" "ats_expiresAt s1 - now (ws ! k) > seconds 60"
      using ih creds by auto
    then show ?thesis
    proof cases
      case 1
      with Suc show ?thesis by (intro disjI1 exI [of _ "Suc j"]) (auto split: if_splits)
    next
      case 2
      from step show ?thesis
      proof (cases rule: app_Token_cases)
        case (3 t u)
        with 2 Suc show ?thesis by (intro disjI1 exI [of _ 0]) auto
      qed (use 2 Suc in auto)
    qed
  qed
qed simp

lemma vend_cached:
  "\<forall>w \<in> set ws. cached s (now w) \<Longrightarrow> vend sign newToken now s ws = replicate (length ws) (Inr (ats_token s), False)"
  by (induction ws) (simp_all add: app_Token_def)

section \<open>Properties\<close>

text \<open>
  Requests to GitHub carry a live token of this installation: over any sequence of uses of a new token source, a
  token that is handed out was obtained by exchanging a JWT signed with the key of the App, issued for at most
  ten minutes; either in this very use, or in an earlier one and then with more than a minute left
  of its life. The request that goes out has it as its only authorization header.
\<close>

theorem app_token_fresh:
  assumes "ats_token s = []" and "i < length ws" and "vend sign newToken now s ws ! i = (Inr tok, fresh)"
  shows "\<exists>j \<le> i. \<exists>e. exchanged sign newToken now (ats_creds s) (ws ! j) tok e \<and> (if fresh then j = i else e - now (ws ! i) > seconds 60)
    \<and> rc_ExpiresAt (app_claims (ats_creds s) (now (ws ! j))) - rc_IssuedAt (app_claims (ats_creds s) (now (ws ! j))) \<le> 10 * 60
    \<and> (\<forall>req. hq_Header (bearer_request tok req) ''Authorization'' = Some [''Bearer '' @ tok])"
proof -
  have "(t + seconds 540) div seconds 1 - (t - seconds 30) div seconds 1 \<le> 600" for t
    using div_mult_self2 [of "seconds 1" "t - seconds 30" 570] by (simp add: seconds_def)
  then have life: "rc_ExpiresAt (app_claims c t) - rc_IssuedAt (app_claims c t) \<le> 10 * 60" for c :: "'a AppCredentials" and t
    by (simp add: app_claims_def NumericDate_def)
  have "CanonicalHeaderKey ''Accept'' = ''Accept''" by code_simp
  then have auth: "hq_Header (bearer_request tok req) ''Authorization'' = Some [''Bearer '' @ tok]" for req
    by (simp add: bearer_request_def header_Set_def canonical_constants)
  from vend_fresh [OF assms(2,3)] assms(1) obtain j e where "j \<le> i" "exchanged sign newToken now (ats_creds s) (ws ! j) tok e"
    "if fresh then j = i else e - now (ws ! i) > seconds 60" by auto
  with life auth show ?thesis by (intro exI [of _ j]) auto
qed

text \<open>A source whose tokens live an hour, used twice within a minute.\<close>

definition sample_source :: "unit appTokenSource" where
  "sample_source = \<lparr>ats_creds = \<lparr>app_AppID = 7, app_InstallationID = 8, app_PrivateKey = ()\<rparr>, ats_token = [], ats_expiresAt = 0\<rparr>"

definition sample_exchange :: "string \<Rightarrow> int \<Rightarrow> (string \<times> int) res \<times> int" where
  "sample_exchange jwt t = (Inr (''tok'', t + seconds 3600), t)"

lemma sample_vend:
  "vend (\<lambda>k c. Inr (rc_Issuer c)) sample_exchange (\<lambda>t. t) sample_source [0, seconds 50] = [(Inr ''tok'', True), (Inr ''tok'', False)]"
  by (simp add: app_Token_def cached_def sample_source_def sample_exchange_def appJWT_def seconds_def)

theorem app_token_fresh_witness:
  "\<exists>j \<le> (1 :: nat). \<exists>e. exchanged (\<lambda>k c. Inr (rc_Issuer c)) sample_exchange (\<lambda>t. t) (ats_creds sample_source) ([0, seconds 50] ! j) ''tok'' e
     \<and> e - seconds 50 > seconds 60"
proof -
  let ?sign = "\<lambda>k c. Inr (rc_Issuer c)"
  have "ats_token sample_source = []" by (simp add: sample_source_def)
  from app_token_fresh [where i = 1 and ws = "[0, seconds 50]" and sign = ?sign and newToken = sample_exchange and now = "\<lambda>t. t" and fresh = False
      and tok = "''tok''", OF this] sample_vend show ?thesis by auto
qed


end
