(* ===== verification/Watchers.thy ===== *)
theory Watchers
  imports Aggregator
begin

text \<open>
  The watchers themselves (\<open>internal/capability\<close>): what each source watches and how, the start of a watcher, and the
  fan-in of \<open>Aggregator.Run\<close>. A watcher registers its handlers on an informer for a resource, a namespace and a label
  selector; what the API server delivers afterwards is a sequence of events. The last section composes the watchers
  with the aggregator: the snapshot is a projection of the cluster.
\<close>

section \<open>Sources (watcher.go)\<close>

datatype Source =
    SourceCRD | SourceOLM | SourceCrossplaneXRD | SourceCrossplaneProv | SourceHelmRelease | SourceKRORGD | SourceClusterMetadata

definition source_string :: "Source \<Rightarrow> string" where
  "source_string s =
     (case s of SourceCRD \<Rightarrow> ''crd'' | SourceOLM \<Rightarrow> ''olm'' | SourceCrossplaneXRD \<Rightarrow> ''crossplane-xrd''
      | SourceCrossplaneProv \<Rightarrow> ''crossplane-provider'' | SourceHelmRelease \<Rightarrow> ''helm-release'' | SourceKRORGD \<Rightarrow> ''kro-rgd''
      | SourceClusterMetadata \<Rightarrow> ''cluster-metadata'')"

section \<open>Watchers (dynamic.go, metadatawatch.go, metadata.go)\<close>

record dynamicWatcher =
  dw_source :: Source
  dw_kind :: CapabilityKind
  dw_gvr :: GVR
  dw_namespace :: string
  dw_selector :: string
  dw_mapFn :: "obj \<Rightarrow> Capability res"

record metadataWatcher =
  mw_source :: Source
  mw_kind :: CapabilityKind
  mw_gvr :: GVR
  mw_namespace :: string
  mw_selector :: string
  mw_fetchFull :: bool
  mw_mapFn :: "obj \<Rightarrow> Capability res"

text \<open>A \<open>MetadataWatcher\<close> carries the namespace of its addons.\<close>

datatype Watcher = Dynamic dynamicWatcher | Metadata metadataWatcher | Cluster string

definition watcher_source :: "Watcher \<Rightarrow> Source" where
  "watcher_source w = (case w of Dynamic d \<Rightarrow> dw_source d | Metadata m \<Rightarrow> mw_source m | Cluster _ \<Rightarrow> SourceClusterMetadata)"

text \<open>The resource of a \<open>gvrWatcher\<close>.\<close>

definition watcher_GVR :: "Watcher \<Rightarrow> GVR option" where
  "watcher_GVR w = (case w of Dynamic d \<Rightarrow> Some (dw_gvr d) | Metadata m \<Rightarrow> Some (mw_gvr m) | Cluster _ \<Rightarrow> None)"

text \<open>What the informers of a watcher list and watch. The cluster watcher lists the nodes, in all namespaces.\<close>

record informer_scope =
  sc_GVR :: GVR
  sc_Namespace :: string
  sc_Selector :: string

definition watcher_scope :: "Watcher \<Rightarrow> informer_scope" where
  "watcher_scope w =
     (case w of
        Dynamic d \<Rightarrow> \<lparr>sc_GVR = dw_gvr d, sc_Namespace = dw_namespace d, sc_Selector = dw_selector d\<rparr>
      | Metadata m \<Rightarrow> \<lparr>sc_GVR = mw_gvr m, sc_Namespace = mw_namespace m, sc_Selector = mw_selector m\<rparr>
      | Cluster _ \<Rightarrow> \<lparr>sc_GVR = \<lparr>g_Group = [], g_Version = ''v1'', g_Resource = ''nodes''\<rparr>, sc_Namespace = [], sc_Selector = []\<rparr>)"

text \<open>
  Start of a watcher: \<open>register\<close> adds the handlers to an informer. The channel it returns is the sequence of what
  \<open>watcher_emit\<close> gives for the events that follow.
\<close>

definition watcher_Start :: "(informer_scope \<Rightarrow> go_err option) \<Rightarrow> Watcher \<Rightarrow> informer_scope res" where
  "watcher_Start register w =
     (case register (watcher_scope w) of
        None \<Rightarrow> Inr (watcher_scope w)
      | Some err \<Rightarrow>
          Inl (case w of
                 Cluster _ \<Rightarrow> Wrapf ''capability metadata: register node handler: %w'' [] err
               | _ \<Rightarrow> Wrapf ''capability %s: register informer handler: %w'' [AStr (source_string (watcher_source w))] err))"

text \<open>
  An event for a watcher: of a full object, of its metadata, or of a node; the cluster watcher also reports once
  its caches are filled. \<open>get\<close> is the one-shot GET of a full object, \<open>snap\<close> the cluster snapshot at that moment.
\<close>

datatype watch_event =
    Full "obj informer_event"
  | Partial "PartialObjectMetadata informer_event" "string \<Rightarrow> string \<Rightarrow> obj res"
  | NodeChange "Capability res"

definition cluster_emit :: "Capability res \<Rightarrow> Capability option" where
  "cluster_emit snap = (case snap of Inl err \<Rightarrow> None | Inr c \<Rightarrow> Some c)"

fun watcher_emit :: "Accessors \<Rightarrow> Watcher \<Rightarrow> watch_event \<Rightarrow> Capability option" where
  "watcher_emit A (Dynamic d) (Full ev) = dynamic_handler A (dw_kind d) (dw_mapFn d) ev"
| "watcher_emit A (Metadata m) (Partial ev get) = metadata_handler A (mw_fetchFull m) get (mw_kind m) (mw_mapFn m) ev"
| "watcher_emit A (Cluster ns) (NodeChange snap) = cluster_emit snap"
| "watcher_emit A _ _ = None"

section \<open>The sources\<close>

definition crdGVR :: GVR where
  "crdGVR = \<lparr>g_Group = ''apiextensions.k8s.io'', g_Version = ''v1'', g_Resource = ''customresourcedefinitions''\<rparr>"

definition NewCRDWatcher :: "Accessors \<Rightarrow> (obj \<Rightarrow> obj res) \<Rightarrow> Watcher" where
  "NewCRDWatcher A NewStruct =
     Metadata \<lparr>mw_source = SourceCRD, mw_kind = CAPABILITY_KIND_CRD, mw_gvr = crdGVR, mw_namespace = [], mw_selector = [],
               mw_fetchFull = True, mw_mapFn = mapCRD A NewStruct\<rparr>"

definition xrdGVR :: GVR where
  "xrdGVR = \<lparr>g_Group = ''apiextensions.crossplane.io'', g_Version = ''v1'', g_Resource = ''compositedresourcedefinitions''\<rparr>"

definition compositionGVR :: GVR where
  "compositionGVR = \<lparr>g_Group = ''apiextensions.crossplane.io'', g_Version = ''v1'', g_Resource = ''compositions''\<rparr>"

definition providerGVR :: GVR where
  "providerGVR = \<lparr>g_Group = ''pkg.crossplane.io'', g_Version = ''v1'', g_Resource = ''providers''\<rparr>"

text \<open>A watcher of full objects in all namespaces, with no selector.\<close>

definition all_objects :: "Source \<Rightarrow> CapabilityKind \<Rightarrow> GVR \<Rightarrow> (obj \<Rightarrow> Capability res) \<Rightarrow> dynamicWatcher" where
  "all_objects source kind g mapFn =
     \<lparr>dw_source = source, dw_kind = kind, dw_gvr = g, dw_namespace = [], dw_selector = [], dw_mapFn = mapFn\<rparr>"

definition NewCrossplaneXRDWatcher :: "Accessors \<Rightarrow> (obj \<Rightarrow> obj res) \<Rightarrow> Watcher list" where
  "NewCrossplaneXRDWatcher A NewStruct =
     [Dynamic (all_objects SourceCrossplaneXRD CAPABILITY_KIND_CROSSPLANE_XRD xrdGVR (mapXRD A NewStruct)),
      Dynamic (all_objects SourceCrossplaneXRD CAPABILITY_KIND_CROSSPLANE_XRD compositionGVR (mapComposition A))]"

definition NewCrossplaneProviderWatcher :: "Accessors \<Rightarrow> (obj \<Rightarrow> obj res) \<Rightarrow> Watcher" where
  "NewCrossplaneProviderWatcher A NewStruct =
     Dynamic (all_objects SourceCrossplaneProv CAPABILITY_KIND_CROSSPLANE_PROVIDER providerGVR (mapProvider A NewStruct))"

definition secretsGVR :: GVR where
  "secretsGVR = \<lparr>g_Group = [], g_Version = ''v1'', g_Resource = ''secrets''\<rparr>"

definition NewHelmReleaseWatcher :: "Accessors \<Rightarrow> (obj \<Rightarrow> obj res) \<Rightarrow> string \<Rightarrow> Watcher" where
  "NewHelmReleaseWatcher A NewStruct namespace =
     Metadata \<lparr>mw_source = SourceHelmRelease, mw_kind = CAPABILITY_KIND_HELM_RELEASE, mw_gvr = secretsGVR, mw_namespace = namespace,
               mw_selector = ''owner=helm'', mw_fetchFull = False, mw_mapFn = mapHelmSecret A NewStruct\<rparr>"

definition kroRGDGVR :: GVR where
  "kroRGDGVR = \<lparr>g_Group = ''kro.run'', g_Version = ''v1alpha1'', g_Resource = ''resourcegraphdefinitions''\<rparr>"

definition NewKROWatcher :: "Accessors \<Rightarrow> (obj \<Rightarrow> obj res) \<Rightarrow> Watcher" where
  "NewKROWatcher A NewStruct = Dynamic (all_objects SourceKRORGD CAPABILITY_KIND_KRO_RGD kroRGDGVR (mapRGD A NewStruct))"

definition csvGVR :: GVR where
  "csvGVR = \<lparr>g_Group = ''operators.coreos.com'', g_Version = ''v1alpha1'', g_Resource = ''clusterserviceversions''\<rparr>"

definition NewOLMWatcher :: "Accessors \<Rightarrow> (obj \<Rightarrow> obj res) \<Rightarrow> string \<Rightarrow> Watcher" where
  "NewOLMWatcher A NewStruct namespace =
     Dynamic ((all_objects SourceOLM CAPABILITY_KIND_OLM_CSV csvGVR (mapCSV A NewStruct))\<lparr>dw_namespace := namespace\<rparr>)"

section \<open>Fan-in (aggregate.go)\<close>

text \<open>\<open>Run\<close> starts the watchers in order; the first that does not start ends it.\<close>

fun start_watchers :: "(informer_scope \<Rightarrow> go_err option) \<Rightarrow> Watcher list \<Rightarrow> informer_scope list res" where
  "start_watchers register [] = Inr []"
| "start_watchers register (w # ws) =
     (case watcher_Start register w of
        Inl err \<Rightarrow> Inl (Wrapf ''aggregator: start %s watcher: %w'' [AStr (source_string (watcher_source w))] err)
      | Inr sc \<Rightarrow> (case start_watchers register ws of Inl err \<Rightarrow> Inl err | Inr scs \<Rightarrow> Inr (sc # scs)))"

text \<open>What reaches the merged channel for a sequence of events of the watchers.\<close>

definition merged :: "Accessors \<Rightarrow> (Watcher \<times> watch_event) list \<Rightarrow> Capability list" where
  "merged A evs = List.map_filter (\<lambda>(w, ev). watcher_emit A w ev) evs"

text \<open>\<open>batches\<close> is how the drain loop cut the merged channel.\<close>

definition aggregator_Run ::
  "(informer_scope \<Rightarrow> go_err option) \<Rightarrow> (CapabilityKind \<Rightarrow> string) \<Rightarrow> (Capability \<Rightarrow> string option) \<Rightarrow>
   (Aggregator \<Rightarrow> Capability list \<Rightarrow> 'w \<Rightarrow> go_err option \<times> 'w) \<Rightarrow> Watcher list \<Rightarrow> Capability list list \<Rightarrow> Aggregator \<Rightarrow> 'w \<Rightarrow>
   go_err option \<times> Aggregator \<times> 'w"
where
  "aggregator_Run register ks digest sender watchers batches a w =
     (case start_watchers register watchers of
        Inl err \<Rightarrow> (Some err, a, w)
      | Inr _ \<Rightarrow> run_batches ks digest sender batches a w)"

section \<open>Keys\<close>

lemma slash_split: "x \<notin> set a \<Longrightarrow> x \<notin> set b \<Longrightarrow> a @ x # r = b @ x # s \<longleftrightarrow> a = b \<and> r = s"
proof (induction a arbitrary: b)
  case Nil
  then show ?case by (cases b) auto
next
  case (Cons y ys)
  then show ?case by (cases b) auto
qed

text \<open>The generated names of the capability kinds are distinct and have no slash.\<close>

definition kind_names :: "(CapabilityKind \<Rightarrow> string) \<Rightarrow> bool" where
  "kind_names ks \<longleftrightarrow> inj ks \<and> (\<forall>k. CHR ''/'' \<notin> set (ks k))"

lemma apply_cap_own:
  assumes "cap_Group c \<noteq> []"
  shows "fmlookup (ag_snapshot (apply_cap ks digest c a)) key =
     (if key = capabilityKey ks c then if cap_Action c = CAPABILITY_ACTION_DELETE then None else Some c else fmlookup (ag_snapshot a) key)"
  using assms by (auto simp: apply_cap_def Let_def split: option.split)

lemma apply_cap_other:
  assumes "kind_names ks" and "cap_Kind c \<noteq> kind"
  shows "fmlookup (ag_snapshot (apply_cap ks digest c a)) (ks kind @ CHR ''/'' # r) = fmlookup (ag_snapshot a) (ks kind @ CHR ''/'' # r)"
proof -
  have ne: "ks (cap_Kind c) @ CHR ''/'' # s \<noteq> ks kind @ CHR ''/'' # r" for s
    using assms slash_split [of "CHR ''/''" "ks (cap_Kind c)" "ks kind" s r] by (auto simp: kind_names_def inj_eq)
  then have "capabilityKey ks c \<noteq> ks kind @ CHR ''/'' # r" by (simp add: capabilityKey_def)
  moreover have "\<not> HasPrefix (ks kind @ CHR ''/'' # r) (ks (cap_Kind c) @ ''/'')"
  proof
    assume "HasPrefix (ks kind @ CHR ''/'' # r) (ks (cap_Kind c) @ ''/'')"
    then obtain t where "ks kind @ CHR ''/'' # r = (ks (cap_Kind c) @ ''/'') @ t" unfolding HasPrefix_iff ..
    with ne [of t] show False by simp
  qed
  then have "\<not> name_matches ks c (ks kind @ CHR ''/'' # r)" by (simp add: name_matches_def)
  ultimately show ?thesis
    by (auto simp: apply_cap_def Let_def fmlookup_dom_iff split: option.split)
qed

lemma run_batches_snapshot:
  "run_batches ks digest sender batches a w = (None, a', w') \<Longrightarrow> a' = fold (apply_cap ks digest) (concat batches) a"
  by (induction batches arbitrary: a w) (auto simp: Let_def split: prod.splits option.splits)

text \<open>The mappers of the dynamic watchers identify an object by its name and do not fail.\<close>

lemma mapCSV_shape:
  "\<exists>h. mapCSV A NewStruct u = Inr (new_capability (GetName A u) ''operators.coreos.com'' (fst (NestedString A u [''spec'', ''version''])) None h)"
  unfolding mapCSV_def Let_def by (split prod.split) blast

lemma mapRGD_shape:
  "\<exists>s h. mapRGD A NewStruct u = Inr (new_capability (GetName A u) ''kro.run'' (fst (NestedString A u [''spec'', ''schema'', ''apiVersion''])) s h)"
  unfolding mapRGD_def Let_def by (split prod.split) blast

section \<open>The cluster as an informer shows it\<close>

definition event_obj :: "'o informer_event \<Rightarrow> 'o" where
  "event_obj ev = (case ev of Added u \<Rightarrow> u | Updated u \<Rightarrow> u | Deleted u \<Rightarrow> u | Tombstone u \<Rightarrow> u)"

definition view_step :: "Accessors \<Rightarrow> obj informer_event \<Rightarrow> (string \<Rightarrow> obj option) \<Rightarrow> string \<Rightarrow> obj option" where
  "view_step A ev V =
     (case ev of
        Added u \<Rightarrow> V(GetName A u \<mapsto> u) | Updated u \<Rightarrow> V(GetName A u \<mapsto> u)
      | Deleted u \<Rightarrow> V(GetName A u := None) | Tombstone u \<Rightarrow> V(GetName A u := None))"

text \<open>The objects of one watcher after a sequence of events of all of them.\<close>

fun cluster_view :: "Accessors \<Rightarrow> dynamicWatcher \<Rightarrow> (Watcher \<times> watch_event) list \<Rightarrow> (string \<Rightarrow> obj option) \<Rightarrow> string \<Rightarrow> obj option" where
  "cluster_view A d [] V = V"
| "cluster_view A d ((w, ev) # evs) V =
     cluster_view A d evs (case (w, ev) of (Dynamic d', Full e) \<Rightarrow> if d' = d then view_step A e V else V | _ \<Rightarrow> V)"

text \<open>What the catalog should hold for an object: its capability, unless it is to be ignored.\<close>

definition projected :: "Accessors \<Rightarrow> dynamicWatcher \<Rightarrow> obj option \<Rightarrow> Capability option" where
  "projected A d x =
     (case x of
        None \<Rightarrow> None
      | Some u \<Rightarrow> if Classify A u = MANAGEMENT_MODE_IGNORE then None
                  else emitCapability A (dw_kind d) (dw_mapFn d) u CAPABILITY_ACTION_UPSERT)"

text \<open>The mapper identifies an object by its name: group and version do not change under it.\<close>

definition identified :: "Accessors \<Rightarrow> dynamicWatcher \<Rightarrow> (string \<Rightarrow> string) \<Rightarrow> (string \<Rightarrow> string) \<Rightarrow> obj \<Rightarrow> bool" where
  "identified A d grp ver u \<longleftrightarrow> CHR ''/'' \<notin> set (GetName A u)
     \<and> (case dw_mapFn d u of
          Inl err \<Rightarrow> False
        | Inr c \<Rightarrow> cap_Name c = GetName A u \<and> cap_Group c = grp (GetName A u) \<and> cap_Version c = ver (GetName A u)
                 \<and> cap_ManagementMode c = MANAGEMENT_MODE_UNSPECIFIED)"

definition object_key :: "(CapabilityKind \<Rightarrow> string) \<Rightarrow> dynamicWatcher \<Rightarrow> (string \<Rightarrow> string) \<Rightarrow> (string \<Rightarrow> string) \<Rightarrow> string \<Rightarrow> string" where
  "object_key ks d grp ver n = ks (dw_kind d) @ ''/'' @ grp n @ ''/'' @ n @ ''/'' @ ver n"

definition groups_ok :: "(string \<Rightarrow> string) \<Rightarrow> bool" where
  "groups_ok grp \<longleftrightarrow> (\<forall>n. grp n \<noteq> [] \<and> CHR ''/'' \<notin> set (grp n))"

lemma object_key_eq:
  assumes "groups_ok grp" and "CHR ''/'' \<notin> set n" and "CHR ''/'' \<notin> set m"
  shows "object_key ks d grp ver n = object_key ks d grp ver m \<longleftrightarrow> n = m"
proof
  assume "object_key ks d grp ver n = object_key ks d grp ver m"
  then have "grp n @ CHR ''/'' # n @ CHR ''/'' # ver n = grp m @ CHR ''/'' # m @ CHR ''/'' # ver m" by (simp add: object_key_def)
  then have "n @ CHR ''/'' # ver n = m @ CHR ''/'' # ver m"
    using assms(1) slash_split [of "CHR ''/''" "grp n" "grp m"] by (simp add: groups_ok_def)
  then show "n = m" using assms(2,3) slash_split [of "CHR ''/''" n m] by simp
qed simp

lemma handler_emits:
  assumes "identified A d grp ver (event_obj ev)" and "groups_ok grp"
  obtains c where "dynamic_handler A (dw_kind d) (dw_mapFn d) ev = Some c" and "cap_Group c \<noteq> []"
    and "capabilityKey ks c = object_key ks d grp ver (GetName A (event_obj ev))"
    and "(if cap_Action c = CAPABILITY_ACTION_DELETE then None else Some c) = projected A d (view_step A ev V (GetName A (event_obj ev)))"
proof -
  let ?u = "event_obj ev"
  obtain c0 where m: "dw_mapFn d ?u = Inr c0" using assms(1) by (cases "dw_mapFn d ?u") (auto simp: identified_def)
  with assms have c0: "cap_Name c0 = GetName A ?u" "cap_Group c0 = grp (GetName A ?u)" "cap_Group c0 \<noteq> []" "cap_Version c0 = ver (GetName A ?u)"
    "cap_ManagementMode c0 = MANAGEMENT_MODE_UNSPECIFIED" by (simp_all add: identified_def groups_ok_def)
  define act where "act = (case ev of Added _ \<Rightarrow> CAPABILITY_ACTION_UPSERT | Updated _ \<Rightarrow> CAPABILITY_ACTION_UPSERT | _ \<Rightarrow> CAPABILITY_ACTION_DELETE)"
  define c where "c = c0\<lparr>cap_Kind := dw_kind d, cap_ManagementMode := Classify A ?u,
      cap_Action := if Classify A ?u = MANAGEMENT_MODE_IGNORE then CAPABILITY_ACTION_DELETE else act\<rparr>"
  have emit: "emitCapability A (dw_kind d) (dw_mapFn d) ?u act = Some c" using m c0(5) by (simp add: emitCapability_def Let_def c_def)
  show ?thesis
  proof
    show "dynamic_handler A (dw_kind d) (dw_mapFn d) ev = Some c"
      using emit by (cases ev) (simp_all add: dynamic_handler_def act_def event_obj_def)
    show "cap_Group c \<noteq> []" using c0(3) by (simp add: c_def)
    show "capabilityKey ks c = object_key ks d grp ver (GetName A ?u)" using c0 by (simp add: c_def capabilityKey_def object_key_def)
    show "(if cap_Action c = CAPABILITY_ACTION_DELETE then None else Some c) = projected A d (view_step A ev V (GetName A ?u))"
      using emit by (cases ev) (simp_all add: projected_def view_step_def event_obj_def act_def c_def)
  qed
qed

definition projects :: "Accessors \<Rightarrow> (CapabilityKind \<Rightarrow> string) \<Rightarrow> dynamicWatcher \<Rightarrow> (string \<Rightarrow> string) \<Rightarrow> (string \<Rightarrow> string) \<Rightarrow>
    (string \<Rightarrow> obj option) \<Rightarrow> Aggregator \<Rightarrow> bool" where
  "projects A ks d grp ver V a \<longleftrightarrow>
     (\<forall>n. CHR ''/'' \<notin> set n \<longrightarrow> fmlookup (ag_snapshot a) (object_key ks d grp ver n) = projected A d (V n))"

lemma projects_own:
  assumes "projects A ks d grp ver V a" and "identified A d grp ver (event_obj ev)" and "groups_ok grp"
    and "dynamic_handler A (dw_kind d) (dw_mapFn d) ev = Some c"
  shows "projects A ks d grp ver (view_step A ev V) (apply_cap ks digest c a)"
proof -
  let ?m = "GetName A (event_obj ev)"
  from handler_emits [OF assms(2,3), of ks V] obtain c' where c': "dynamic_handler A (dw_kind d) (dw_mapFn d) ev = Some c'" "cap_Group c' \<noteq> []"
    "capabilityKey ks c' = object_key ks d grp ver ?m"
    "(if cap_Action c' = CAPABILITY_ACTION_DELETE then None else Some c') = projected A d (view_step A ev V ?m)" .
  from c'(1) assms(4) have "c' = c" by simp
  note c = c'(2-4) [unfolded this]
  have other: "view_step A ev V n = V n" if "n \<noteq> ?m" for n
    using that by (cases ev) (auto simp: view_step_def event_obj_def)
  have m: "CHR ''/'' \<notin> set ?m" using assms(2) by (simp add: identified_def)
  show ?thesis unfolding projects_def
  proof (intro allI impI)
    fix n assume n: "CHR ''/'' \<notin> set n"
    show "fmlookup (ag_snapshot (apply_cap ks digest c a)) (object_key ks d grp ver n) = projected A d (view_step A ev V n)"
    proof (cases "n = ?m")
      case True
      then show ?thesis unfolding apply_cap_own [OF c(1)] c(2) using c(3) by simp
    next
      case False
      with object_key_eq [OF assms(3) n m, of ks d ver] other [OF False] n assms(1) show ?thesis
        unfolding apply_cap_own [OF c(1)] c(2) by (simp add: projects_def)
    qed
  qed
qed

lemma projects_merged:
  assumes "kind_names ks" and "groups_ok grp"
    and "\<forall>(w, ev) \<in> set evs. w \<noteq> Dynamic d \<longrightarrow> (\<forall>c. watcher_emit A w ev = Some c \<longrightarrow> cap_Kind c \<noteq> dw_kind d)"
    and "\<forall>ev. (Dynamic d, Full ev) \<in> set evs \<longrightarrow> identified A d grp ver (event_obj ev)"
    and "projects A ks d grp ver V a"
  shows "projects A ks d grp ver (cluster_view A d evs V) (fold (apply_cap ks digest) (merged A evs) a)"
  using assms(3-5)
proof (induction evs arbitrary: V a)
  case Nil
  then show ?case by (simp add: merged_def map_filter_simps)
next
  case (Cons x evs)
  obtain w ev where x: "x = (w, ev)" by (cases x)
  have step: "merged A (x # evs) = (case watcher_emit A w ev of None \<Rightarrow> [] | Some c \<Rightarrow> [c]) @ merged A evs"
    by (simp add: merged_def map_filter_simps x split: option.split)
  note ih = Cons.IH [OF _ _ , rotated 2]
  show ?case
  proof (cases "w = Dynamic d \<and> (\<exists>e. ev = Full e)")
    case True
    then obtain e where e: "w = Dynamic d" "ev = Full e" by blast
    with Cons.prems(2) x have id: "identified A d grp ver (event_obj e)" by simp
    from handler_emits [OF id assms(2)] obtain c where c: "dynamic_handler A (dw_kind d) (dw_mapFn d) e = Some c" by metis
    from ih [OF projects_own [OF Cons.prems(3) id assms(2) c]] Cons.prems(1,2) show ?thesis
      unfolding step by (simp add: x e c)
  next
    case False
    then have V: "cluster_view A d (x # evs) V = cluster_view A d evs V" unfolding x by (auto split: Watcher.split watch_event.split)
    show ?thesis
    proof (cases "watcher_emit A w ev")
      case None
      with ih [OF Cons.prems(3)] Cons.prems(1,2) show ?thesis unfolding step V by simp
    next
      case (Some c)
      have "w \<noteq> Dynamic d"
      proof
        assume "w = Dynamic d"
        with False Some show False by (cases ev) auto
      qed
      with Cons.prems(1) x Some have "cap_Kind c \<noteq> dw_kind d" by auto
      with Cons.prems(3) assms(1) have "projects A ks d grp ver V (apply_cap ks digest c a)"
        by (simp add: projects_def object_key_def apply_cap_other)
      from ih [OF this] Cons.prems(1,2) Some show ?thesis unfolding step V by simp
    qed
  qed
qed

section \<open>Properties\<close>


text \<open>A resource graph definition that appears while a node changes.\<close>

definition sample_kinds :: "CapabilityKind \<Rightarrow> string" where
  "sample_kinds k =
     (case k of CAPABILITY_KIND_UNSPECIFIED \<Rightarrow> ''UNSPECIFIED'' | CAPABILITY_KIND_CRD \<Rightarrow> ''CRD'' | CAPABILITY_KIND_OLM_CSV \<Rightarrow> ''OLM_CSV''
      | CAPABILITY_KIND_CROSSPLANE_XRD \<Rightarrow> ''XRD'' | CAPABILITY_KIND_CROSSPLANE_PROVIDER \<Rightarrow> ''PROVIDER'' | CAPABILITY_KIND_HELM_RELEASE \<Rightarrow> ''HELM''
      | CAPABILITY_KIND_KRO_RGD \<Rightarrow> ''RGD'' | CAPABILITY_KIND_CLUSTER_METADATA \<Rightarrow> ''CLUSTER'')"

lemma sample_kinds_ok: "kind_names sample_kinds"
proof -
  have "inj sample_kinds"
  proof (rule injI)
    show "k = k'" if "sample_kinds k = sample_kinds k'" for k k' using that by (cases k; cases k') (simp_all add: sample_kinds_def)
  qed
  moreover have "CHR ''/'' \<notin> set (sample_kinds k)" for k by (cases k) (simp_all add: sample_kinds_def)
  ultimately show ?thesis by (simp add: kind_names_def)
qed

definition sample_rgd :: obj where
  "sample_rgd = [''metadata'' \<mapsto> UMap [''name'' \<mapsto> UStr ''web''], ''spec'' \<mapsto> UMap [''schema'' \<mapsto> UMap [''apiVersion'' \<mapsto> UStr ''v1'']]]"


text \<open>
  Service versions are watched in all namespaces but identified by their name alone: when the copy of one in
  another namespace is deleted, the snapshot loses the capability although the original is still there.
\<close>

theorem copied_csv_lost:
  assumes "NewOLMWatcher A NewStruct [] = W" and "GetName A u2 = GetName A u1"
    and "fst (NestedString A u2 [''spec'', ''version'']) = fst (NestedString A u1 [''spec'', ''version''])"
    and "watcher_emit A W (Full (Added u1)) = Some c"
  shows "fmlookup (ag_snapshot (fold (apply_cap ks digest) (merged A [(W, Full (Added u1)), (W, Full (Added u2)), (W, Full (Deleted u2))]) a))
     (capabilityKey ks c) = None"
proof -
  obtain h where m: "\<And>u. mapCSV A NewStruct u = Inr (new_capability (GetName A u) ''operators.coreos.com'' (fst (NestedString A u [''spec'', ''version''])) None (h u))"
    using mapCSV_shape by metis
  obtain c2 c3 where c2: "watcher_emit A W (Full (Added u2)) = Some c2" and c3: "watcher_emit A W (Full (Deleted u2)) = Some c3"
    and k: "cap_Group c3 \<noteq> []" "cap_Action c3 = CAPABILITY_ACTION_DELETE" "capabilityKey ks c3 = capabilityKey ks c"
    using assms(1-4) m [of u1] m [of u2]
    by (auto simp: NewOLMWatcher_def all_objects_def dynamic_handler_def emitCapability_def Let_def capabilityKey_def new_capability_def)
  with assms(4) show ?thesis by (simp add: merged_def map_filter_simps apply_cap_own)
qed

end
