(* ===== verification/Agent_Main.thy ===== *)
theory Agent_Main
  imports Agent_Controller App_Auth Watchers
begin

text \<open>
  How the agent is put together from its environment (\<open>cmd/main.go\<close>): the parsing of the settings, the
  GitOps configuration, the parts of the reconciler and \<open>main\<close> itself with its exit codes. The environment is a map from names to
  values; the clients of the API server are parameters.
\<close>

section \<open>Durations (time)\<close>

text \<open>
  \<open>time.ParseDuration\<close>, in nanoseconds. The fractional part is added in floating point by the library; here it
  is exact and rounded down.
\<close>

definition unit_ns :: "string \<Rightarrow> int option" where
  "unit_ns u =
     map_of [(''ns'', 1), (''us'', 1000), ([CHR 0xC2, CHR 0xB5, CHR ''s''], 1000), ([CHR 0xCE, CHR 0xBC, CHR ''s''], 1000),
             (''ms'', 10 ^ 6), (''s'', 10 ^ 9), (''m'', 60 * 10 ^ 9), (''h'', 3600 * 10 ^ 9)] u"

fun leadingInt :: "int \<Rightarrow> string \<Rightarrow> int" where
  "leadingInt x [] = x"
| "leadingInt x (c # cs) = leadingInt (x * 10 + int (digit_val c)) cs"

text \<open>Digits of a fraction with its scale; digits that would overflow are skipped.\<close>

fun leadingFraction :: "int \<Rightarrow> int \<Rightarrow> string \<Rightarrow> int \<times> int" where
  "leadingFraction x scale [] = (x, scale)"
| "leadingFraction x scale (c # cs) =
     (if x > (2 ^ 63 - 1) div 10 then (x, scale)
      else let y = x * 10 + int (digit_val c) in if y > 2 ^ 63 then (x, scale) else leadingFraction y (scale * 10) cs)"

definition is_unit_char :: "char \<Rightarrow> bool" where
  "is_unit_char c \<longleftrightarrow> c \<noteq> CHR ''.'' \<and> \<not> is_digit c"

text \<open>What follows the integer part: the digits of the fraction and the rest.\<close>

definition fraction :: "string \<Rightarrow> string \<times> string" where
  "fraction s = (case s of c # r \<Rightarrow> if c = CHR ''.'' then (takeWhile is_digit r, dropWhile is_digit r) else ([], s) | [] \<Rightarrow> ([], []))"

lemma fraction_length: "length (snd (fraction s)) \<le> length s"
  using length_dropWhile_le [of is_digit "tl s"] by (auto simp: fraction_def split: list.split)

lemma dropWhile_shorter: "takeWhile P xs \<noteq> [] \<Longrightarrow> length (dropWhile P xs) < length xs"
proof -
  assume "takeWhile P xs \<noteq> []"
  then have "0 < length (takeWhile P xs)" by (rule length_greater_0_conv [THEN iffD2])
  moreover have "length (takeWhile P xs @ dropWhile P xs) = length xs" by (simp only: takeWhile_dropWhile_id)
  ultimately show ?thesis unfolding length_append by linarith
qed

function parse_units :: "string \<Rightarrow> int \<Rightarrow> string \<Rightarrow> int res" where
  "parse_units orig d s =
     (if s = [] then Inr d
      else let pre = takeWhile is_digit s; v0 = leadingInt 0 pre; (post, s2) = fraction (dropWhile is_digit s);
               u = takeWhile is_unit_char s2
           in if v0 > 2 ^ 63 \<or> (pre = [] \<and> post = []) then Inl (Errorf ''time: invalid duration %q'' [AStr orig])
              else if u = [] then Inl (Errorf ''time: missing unit in duration %q'' [AStr orig])
              else case unit_ns u of
                None \<Rightarrow> Inl (Errorf ''time: unknown unit %q in duration %q'' [AStr u, AStr orig])
              | Some ns \<Rightarrow>
                  if v0 > 2 ^ 63 div ns then Inl (Errorf ''time: invalid duration %q'' [AStr orig])
                  else let (f, scale) = leadingFraction 0 1 post; v = v0 * ns + f * ns div scale; d1 = (d + v) mod 2 ^ 64
                       in if v > 2 ^ 63 \<or> d1 > 2 ^ 63 then Inl (Errorf ''time: invalid duration %q'' [AStr orig])
                          else parse_units orig d1 (dropWhile is_unit_char s2))"
  by pat_completeness auto

termination
proof (relation "measure (\<lambda>(_, _, s). length s)", goal_cases)
  case (2 orig d s pre v0 p post b u ns q f scale v d1)
  then have b: "b = snd (fraction (dropWhile is_digit s))" and "takeWhile is_unit_char b \<noteq> []" by (metis snd_conv)+
  then have "length (dropWhile is_unit_char b) < length b" using dropWhile_shorter by blast
  also have "\<dots> \<le> length s" unfolding b using fraction_length [of "dropWhile is_digit s"] length_dropWhile_le [of is_digit s] by linarith
  finally show ?case by simp
qed simp

definition ParseDuration :: "string \<Rightarrow> int res" where
  "ParseDuration s0 =
     (let neg = (s0 \<noteq> [] \<and> hd s0 = CHR ''-''); s = (if s0 \<noteq> [] \<and> (hd s0 = CHR ''-'' \<or> hd s0 = CHR ''+'') then tl s0 else s0)
      in if s = ''0'' then Inr 0
         else if s = [] then Inl (Errorf ''time: invalid duration %q'' [AStr s0])
         else case parse_units s0 0 s of
           Inl err \<Rightarrow> Inl err
         | Inr d \<Rightarrow> if neg then Inr (- d)
                    else if d > 2 ^ 63 - 1 then Inl (Errorf ''time: invalid duration %q'' [AStr s0]) else Inr d)"

section \<open>Settings (cmd/main.go)\<close>

type_synonym env = "string \<Rightarrow> string option"

definition Getenv :: "env \<Rightarrow> string \<Rightarrow> string" where
  "Getenv e k = (case e k of None \<Rightarrow> [] | Some v \<Rightarrow> v)"

definition defaultReadyzDisconnectGrace :: int where
  "defaultReadyzDisconnectGrace = seconds 90"

definition readyzDisconnectGrace :: "env \<Rightarrow> int" where
  "readyzDisconnectGrace e =
     (let v = Getenv e ''INARI_READYZ_DISCONNECT_GRACE''
      in if v = [] then defaultReadyzDisconnectGrace
         else case ParseDuration v of
           Inl _ \<Rightarrow> defaultReadyzDisconnectGrace
         | Inr d \<Rightarrow> if d < 0 then defaultReadyzDisconnectGrace else d)"

definition label_of :: "string \<Rightarrow> (string \<Rightarrow> string option) \<Rightarrow> string \<Rightarrow> string option" where
  "label_of pair out = (case Cut (TrimSpace pair) (CHR ''='') of (k, v, ok) \<Rightarrow> if ok \<and> k \<noteq> [] then out(k \<mapsto> v) else out)"

definition parseLabels :: "string \<Rightarrow> string \<Rightarrow> string option" where
  "parseLabels inp = fold label_of (Split inp (CHR '','')) Map.empty"

definition parseNamespaces :: "string \<Rightarrow> string list" where
  "parseNamespaces inp =
     (let out = filter (\<lambda>ns. ns \<noteq> []) (map TrimSpace (Split inp (CHR '','')))
      in if out = [] then [''inari-system''] else out)"

definition statusWatches :: "(string \<Rightarrow> go_err option) \<Rightarrow> env \<Rightarrow> WatchResource list res" where
  "statusWatches parseSelector e =
     (let v = Getenv e ''INARI_STATUS_WATCHES''
      in if v = [] then Inr DefaultWatchResources
         else case ParseWatchResources parseSelector v of
           Inl err \<Rightarrow> Inl (Wrapf ''INARI_STATUS_WATCHES: %w'' [] err)
         | Inr ws \<Rightarrow> Inr ws)"


section \<open>Wiring (cmd/main.go)\<close>

datatype kube_client = TypedClient | DynamicClient | MetadataClient

text \<open>
  The clients and constructors \<open>main\<close> uses. \<open>md_NewForConfig\<close> is the error of constructing one of the three clients of the
  cluster, \<open>md_CallInfo\<close> tells whether the RPC library attaches call information to the context of a call.
\<close>

record ('k, 'u, 'c, 'w) main_deps =
  md_Kube :: "string \<Rightarrow> 'w ConfigMaps"
  md_Dyn :: "'w Dyn"
  md_Secret :: "string \<Rightarrow> string \<Rightarrow> 'w \<Rightarrow> (string \<Rightarrow> string option) res \<times> 'w"
  md_ParsePEM :: "string \<Rightarrow> 'k res"
  md_Lib :: "'k AppCredentials \<Rightarrow> ('u, 'c) client_lib"
  md_API :: "'c \<Rightarrow> 'w github"
  md_HTTP :: "Request \<Rightarrow> 'w \<Rightarrow> Response res \<times> 'w"
  md_ParseSelector :: "string \<Rightarrow> go_err option"
  md_Accessors :: Accessors
  md_NewStruct :: "obj \<Rightarrow> obj res"
  md_OAuth2 :: "string \<Rightarrow> string \<Rightarrow> string \<Rightarrow> 'w TokenSource"
  md_Redeem :: "string \<Rightarrow> string option \<Rightarrow> string \<Rightarrow> 'w \<Rightarrow> (string \<times> int option) res \<times> 'w"
  md_NewForConfig :: "kube_client \<Rightarrow> go_err option"
  md_CallInfo :: bool

definition creds_namespace :: "env \<Rightarrow> string" where
  "creds_namespace e = (if Getenv e ''INARI_GIT_CREDS_NAMESPACE'' = [] then ''inari-system'' else Getenv e ''INARI_GIT_CREDS_NAMESPACE'')"

definition argocd_api :: "env \<Rightarrow> (Request \<Rightarrow> 'w \<Rightarrow> Response res \<times> 'w) \<Rightarrow> 'w APIClient" where
  "argocd_api e http =
     (let argocdNS = (if Getenv e ''INARI_ARGOCD_NAMESPACE'' = [] then ''argocd'' else Getenv e ''INARI_ARGOCD_NAMESPACE'');
          apiURL = (if Getenv e ''INARI_ARGOCD_API_URL'' = [] then ''https://argocd-server.'' @ argocdNS @ ''.svc''
                    else Getenv e ''INARI_ARGOCD_API_URL'')
      in \<lparr>ac_BaseURL = apiURL, ac_Token = Getenv e ''INARI_ARGOCD_API_TOKEN'', ac_HTTP = http\<rparr>)"

definition gitops_config :: "('k, 'u, 'c, 'w) main_deps \<Rightarrow> env \<Rightarrow> 'w Provider \<Rightarrow> WatchResource list \<Rightarrow> 'w GitOpsConfig" where
  "gitops_config D e provider watches =
     (let addonScanNS = (if Getenv e ''INARI_ADDON_SCAN_NAMESPACES'' = [] then Getenv e ''INARI_HELM_NAMESPACES''
                         else Getenv e ''INARI_ADDON_SCAN_NAMESPACES'')
      in \<lparr>gop_Kube = md_Kube D, gop_Dyn = md_Dyn D, gop_Git = provider, gop_BoundStateRepo = [],
          gop_StateRepo = Getenv e ''INARI_STATE_REPO'', gop_StateRepoOrg = Getenv e ''INARI_STATE_REPO_ORG'',
          gop_Bundles = None, gop_RGDs = None, gop_ArgoCDMode = Getenv e ''INARI_ARGOCD_MODE'',
          gop_ArgoCDNamespace = Getenv e ''INARI_ARGOCD_NAMESPACE'', gop_ArgoCDManifests = [],
          gop_ArgoCDAPI = Some (argocd_api e (md_HTTP D)), gop_StatusWatches = Some watches,
          gop_AddonScanNamespaces = parseNamespaces addonScanNS, gop_JournalNamespace = creds_namespace e\<rparr>)"

definition buildGitOps :: "('k, 'u, 'c, 'w) main_deps \<Rightarrow> env \<Rightarrow> 'w \<Rightarrow> 'w GitOpsConfig option res \<times> 'w" where
  "buildGitOps D e w =
     (let credsSecret = Getenv e ''INARI_GIT_CREDS_SECRET''; credsNS = creds_namespace e
      in if credsSecret = [] then (Inr None, w)
      else case md_Secret D credsNS credsSecret w of
        (Inl err, w1) \<Rightarrow> (Inl (Wrapf ''read git credentials secret %s/%s: %w'' [AStr credsNS, AStr credsSecret] err), w1)
      | (Inr data, w1) \<Rightarrow>
      case ParseAppCredentials (md_ParsePEM D) data of
        Inl err \<Rightarrow> (Inl err, w1)
      | Inr creds \<Rightarrow>
      case NewGitHubProvider (md_Lib D creds) (md_API D) (Getenv e ''INARI_GIT_API_BASE'') of
        Inl err \<Rightarrow> (Inl err, w1)
      | Inr provider \<Rightarrow>
      case statusWatches (md_ParseSelector D) e of
        Inl err \<Rightarrow> (Inl err, w1)
      | Inr watches \<Rightarrow> (Inr (Some (gitops_config D e provider watches)), w1))"

text \<open>
  \<open>r.NewWatchers\<close>: the watchers of the agent, without those whose API the cluster does not serve. \<open>disc\<close> is the
  discovery call.
\<close>

definition agent_watchers ::
  "Accessors \<Rightarrow> (obj \<Rightarrow> obj res) \<Rightarrow> (string \<Rightarrow> string list option \<times> (go_err \<times> bool) option) \<Rightarrow> env \<Rightarrow> Watcher list"
where
  "agent_watchers A NewStruct disc e =
     FilterAvailable disc watcher_GVR
       ([NewCRDWatcher A NewStruct, NewOLMWatcher A NewStruct [], NewCrossplaneProviderWatcher A NewStruct, NewKROWatcher A NewStruct, Cluster []]
        @ NewCrossplaneXRDWatcher A NewStruct
        @ map (NewHelmReleaseWatcher A NewStruct) (parseNamespaces (Getenv e ''INARI_HELM_NAMESPACES'')))"

text \<open>\<open>r.NewStreamClient\<close>: the client of the event stream; \<open>oauth2\<close> is a source of client credential tokens.\<close>

record 'w stream_settings =
  ss_Config :: "'w client_config"
  ss_HTTP :: http_settings
  ss_Backoff :: Backoff
  ss_ReceiveTimeout :: int

definition receive_timeout :: "env \<Rightarrow> int \<Rightarrow> int" where
  "receive_timeout e dflt =
     (let v = Getenv e ''INARI_STREAM_RECEIVE_TIMEOUT''
      in if v = [] then dflt else case ParseDuration v of Inl _ \<Rightarrow> dflt | Inr d \<Rightarrow> d)"

definition new_stream_client ::
  "(string \<Rightarrow> string \<Rightarrow> string \<Rightarrow> 'w TokenSource) \<Rightarrow> string \<Rightarrow> env \<Rightarrow> Credentials \<Rightarrow> string \<Rightarrow> ('w \<Rightarrow> string) \<Rightarrow> 'w stream_settings"
where
  "new_stream_client oauth2 version e creds clientSecret checksum =
     \<lparr>ss_Config = \<lparr>cc_Address = cr_ControlPlane creds, cc_AgentVersion = version, cc_TenantID = cr_TenantID creds,
         cc_Token = oauth2 (cr_TokenURL creds) (cr_ClientID creds) clientSecret, cc_Checksum = Some checksum\<rparr>,
      ss_HTTP = DefaultHTTPClient (cr_ControlPlane creds), ss_Backoff = DefaultBackoff, ss_ReceiveTimeout = receive_timeout e 0\<rparr>"

text \<open>
  \<open>NewConnectRedeemer\<close>: the interceptor fetches the agent's token for every call and sends it along if the context has
  call information; \<open>call\<close> is the RPC to an address with an authorization header, if any.
\<close>

definition NewConnectRedeemer ::
  "bool \<Rightarrow> (string \<Rightarrow> string option \<Rightarrow> string \<Rightarrow> 'w \<Rightarrow> (string \<times> int option) res \<times> 'w) \<Rightarrow> string \<Rightarrow> 'w TokenSource \<Rightarrow>
   string \<Rightarrow> 'w \<Rightarrow> (string \<times> int option) res \<times> 'w"
where
  "NewConnectRedeemer callInfo call address ts ref w =
     (case token ts w of
        (Inl err, w1) \<Rightarrow> (Inl (Wrapf ''redeem: fetch agent token: %w'' [] err), w1)
      | (Inr (tok, _), w1) \<Rightarrow> call address (if callInfo then Some (''Bearer '' @ tok) else None) ref w1)"

definition new_redeemer :: "('k, 'u, 'c, 'w) main_deps \<Rightarrow> Credentials \<Rightarrow> string \<Rightarrow> string \<Rightarrow> 'w \<Rightarrow> (string \<times> int) res \<times> 'w" where
  "new_redeemer D creds clientSecret =
     Redeem (NewConnectRedeemer (md_CallInfo D) (md_Redeem D) (cr_ControlPlane creds) (md_OAuth2 D (cr_TokenURL creds) (cr_ClientID creds) clientSecret))"

text \<open>
  The parts of the reconciler. \<open>connect\<close> makes the RPC client of a control plane, \<open>version\<close> the server version;
  \<open>None\<close> for the parts of a standalone agent.
\<close>

record 'w lifecycle =
  lc_Reconciler :: AgentReconciler
  lc_Kube :: "(string \<Rightarrow> 'w ConfigMaps) option"
  lc_Registrar :: "'w ConnectRegistrar option"
  lc_NewWatchers :: "((string \<Rightarrow> string list option \<times> (go_err \<times> bool) option) \<Rightarrow> Watcher list) option"
  lc_NewStreamClient :: "(Credentials \<Rightarrow> string \<Rightarrow> ('w \<Rightarrow> string) \<Rightarrow> 'w stream_settings) option"
  lc_NewRedeemer :: "(Credentials \<Rightarrow> string \<Rightarrow> string \<Rightarrow> 'w \<Rightarrow> (string \<times> int) res \<times> 'w) option"
  lc_GitOps :: "'w GitOpsConfig option"

definition NewAgentReconciler :: AgentReconciler where
  "NewAgentReconciler = \<lparr>ar_BootstrapToken = [], ar_SystemNamespace = [], ar_tokenForgotten = False\<rparr>"

definition buildLifecycle ::
  "('k, 'u, 'c, 'w) main_deps \<Rightarrow> (string \<Rightarrow> RegisterClusterRequest \<Rightarrow> 'w \<Rightarrow> RegisterClusterResponse res \<times> 'w) \<Rightarrow>
   ('w \<Rightarrow> string res \<times> 'w) \<Rightarrow> string \<Rightarrow> env \<Rightarrow> 'w \<Rightarrow> 'w lifecycle res \<times> 'w"
where
  "buildLifecycle D rpc serverVersion version e w =
     (let token = Getenv e ''INARI_REGISTRATION_TOKEN''; controlPlane = Getenv e ''INARI_CONTROL_PLANE''; r = NewAgentReconciler
      in if token = [] \<or> controlPlane = [] then
           (Inr \<lparr>lc_Reconciler = r, lc_Kube = None, lc_Registrar = None, lc_NewWatchers = None, lc_NewStreamClient = None,
                 lc_NewRedeemer = None, lc_GitOps = None\<rparr>, w)
         else case List.map_filter (md_NewForConfig D) [TypedClient, DynamicClient, MetadataClient] of
           err # _ \<Rightarrow> (Inl err, w)
         | [] \<Rightarrow>
         case serverVersion w of
           (Inl err, w1) \<Rightarrow> (Inl err, w1)
         | (Inr v, w1) \<Rightarrow>
         case buildGitOps D e w1 of
           (Inl err, w2) \<Rightarrow> (Inl err, w2)
         | (Inr g, w2) \<Rightarrow>
           (Inr \<lparr>lc_Reconciler = r\<lparr>ar_BootstrapToken := token\<rparr>, lc_Kube = Some (md_Kube D),
                 lc_Registrar = Some \<lparr>rg_Client = rpc controlPlane, rg_AgentVersion = version, rg_TenantID = Getenv e ''INARI_TENANT_ID'',
                    rg_ControlPlane = controlPlane, rg_ClusterLabels = parseLabels (Getenv e ''INARI_CLUSTER_LABELS''), rg_KubernetesVersion = v\<rparr>,
                 lc_NewWatchers = Some (\<lambda>disc. agent_watchers (md_Accessors D) (md_NewStruct D) disc e),
                 lc_NewStreamClient = Some (new_stream_client (md_OAuth2 D) version e),
                 lc_NewRedeemer = Some (new_redeemer D), lc_GitOps = g\<rparr>, w2))"

text \<open>What \<open>main\<close> hands to the manager: the reconciler and the tracker behind the readiness probe.\<close>

definition main_parts ::
  "('k, 'u, 'c, 'w) main_deps \<Rightarrow> (string \<Rightarrow> RegisterClusterRequest \<Rightarrow> 'w \<Rightarrow> RegisterClusterResponse res \<times> 'w) \<Rightarrow>
   ('w \<Rightarrow> string res \<times> 'w) \<Rightarrow> string \<Rightarrow> env \<Rightarrow> 'w \<Rightarrow> ('w lifecycle \<times> StreamTracker) res \<times> 'w"
where
  "main_parts D rpc serverVersion version e w =
     (case buildLifecycle D rpc serverVersion version e w of
        (Inl err, w1) \<Rightarrow> (Inl err, w1)
      | (Inr lc, w1) \<Rightarrow> (Inr (lc, NewStreamTracker (readyzDisconnectGrace e)), w1))"

text \<open>
  \<open>main\<close>, after the flags were parsed: the exit code. The manager of controller-runtime is the record \<open>manager\<close>; its \<open>Start\<close>
  runs the reconciler it was given until the process is told to stop.
\<close>

record manager_options =
  mo_MetricsAddr :: string
  mo_ProbeAddr :: string
  mo_LeaderElection :: bool
  mo_LeaderElectionID :: string

record 'w manager =
  mg_New :: "manager_options \<Rightarrow> go_err option"
  mg_Add :: "'w lifecycle \<Rightarrow> go_err option"
  mg_AddHealthzCheck :: "string \<Rightarrow> go_err option"
  mg_AddReadyzCheck :: "string \<Rightarrow> StreamTracker \<Rightarrow> go_err option"
  mg_Start :: "'w \<Rightarrow> go_err option \<times> 'w"

definition manager_options_of :: "string \<Rightarrow> string \<Rightarrow> bool \<Rightarrow> manager_options" where
  "manager_options_of metricsAddr probeAddr enableLeaderElection =
     \<lparr>mo_MetricsAddr = metricsAddr, mo_ProbeAddr = probeAddr, mo_LeaderElection = enableLeaderElection, mo_LeaderElectionID = ''inari-agent.inari.dev''\<rparr>"

definition SetupWithManager :: "'w manager \<Rightarrow> 'w lifecycle \<Rightarrow> go_err option" where
  "SetupWithManager mgr lc = mg_Add mgr lc"

definition main_run ::
  "'w manager \<Rightarrow> ('k, 'u, 'c, 'w) main_deps \<Rightarrow> (string \<Rightarrow> RegisterClusterRequest \<Rightarrow> 'w \<Rightarrow> RegisterClusterResponse res \<times> 'w) \<Rightarrow>
   ('w \<Rightarrow> string res \<times> 'w) \<Rightarrow> string \<Rightarrow> manager_options \<Rightarrow> env \<Rightarrow> 'w \<Rightarrow> int \<times> 'w"
where
  "main_run mgr D rpc serverVersion version opts e w =
     (if mg_New mgr opts \<noteq> None then (1, w)
      else case main_parts D rpc serverVersion version e w of
        (Inl err, w1) \<Rightarrow> (1, w1)
      | (Inr (lc, readiness), w1) \<Rightarrow>
          if SetupWithManager mgr lc \<noteq> None then (1, w1)
          else if mg_AddHealthzCheck mgr ''healthz'' \<noteq> None then (1, w1)
          else if mg_AddReadyzCheck mgr ''readyz'' readiness \<noteq> None then (1, w1)
          else case mg_Start mgr w1 of (Some err, w2) \<Rightarrow> (1, w2) | (None, w2) \<Rightarrow> (0, w2))"

text \<open>The process ends with 0 only after everything was set up, both probes included, and the manager stopped without an error.\<close>

lemma main_run_zero:
  assumes "main_run mgr D rpc serverVersion version opts e w = (0, w')"
  obtains lc readiness w1 where "main_parts D rpc serverVersion version e w = (Inr (lc, readiness), w1)"
    "mg_Add mgr lc = None" "mg_AddHealthzCheck mgr ''healthz'' = None" "mg_AddReadyzCheck mgr ''readyz'' readiness = None"
    "mg_Start mgr w1 = (None, w')"
  using assms that by (auto simp: main_run_def SetupWithManager_def split: if_splits prod.splits sum.splits option.splits)

section \<open>Settings\<close>

lemma readyzDisconnectGrace_nonneg: "0 \<le> readyzDisconnectGrace e"
  by (simp add: readyzDisconnectGrace_def defaultReadyzDisconnectGrace_def seconds_def Let_def split: sum.split)

lemma parseNamespaces_shape: "parseNamespaces inp \<noteq> [] \<and> [] \<notin> set (parseNamespaces inp)"
  by (auto simp: parseNamespaces_def Let_def)

lemma buildGitOps_Some:
  assumes "buildGitOps D e w = (Inr (Some c), w')"
  shows "gop_Kube c = md_Kube D" "gop_JournalNamespace c = creds_namespace e" "gop_AddonScanNamespaces c \<noteq> []"
proof -
  obtain provider watches where "c = gitops_config D e provider watches"
    using assms by (auto simp: buildGitOps_def Let_def split: if_splits prod.splits sum.splits)
  then show "gop_Kube c = md_Kube D" "gop_JournalNamespace c = creds_namespace e" "gop_AddonScanNamespaces c \<noteq> []"
    using parseNamespaces_shape by (simp_all add: gitops_config_def Let_def)
qed

text \<open>With the configuration \<open>main\<close> builds the addon scanner is always on: an empty list of namespaces does not arise.\<close>

lemma scanner_always_on: "buildGitOps D e w = (Inr (Some c), w') \<Longrightarrow> addonScanner True c \<noteq> None"
  using buildGitOps_Some(3) [of D e w c w'] by (simp add: addonScanner_def)

lemma buildLifecycle_gitops:
  assumes "buildLifecycle D rpc sv version e w = (Inr lc, w')" and "lc_GitOps lc = Some c"
  obtains w1 w2 where "ar_SystemNamespace (lc_Reconciler lc) = []" "buildGitOps D e w1 = (Inr (Some c), w2)"
  using assms that by (auto simp: buildLifecycle_def NewAgentReconciler_def Let_def split: if_splits prod.splits sum.splits list.splits)

section \<open>Properties\<close>


text \<open>An agent in the namespace \<open>agents\<close>, with the default settings otherwise.\<close>

definition sample_deps :: "(string, string, unit, kube_server) main_deps" where
  "sample_deps =
     \<lparr>md_Kube = mem_kube, md_Dyn = gop_Dyn ctl_config,
      md_Secret = (\<lambda>ns n w. (Inr [''app-id'' \<mapsto> ''7'', ''installation-id'' \<mapsto> ''8'', ''private-key'' \<mapsto> ''pem''], w)), md_ParsePEM = Inr,
      md_Lib = (\<lambda>c. \<lparr>cb_Parse = Inr, cb_Path = (\<lambda>u. u), cb_SetPath = (\<lambda>p u. p), cb_String = (\<lambda>u. u), cb_NewClient = (\<lambda>b. Inr ())\<rparr>),
      md_API = (\<lambda>c. \<lparr>gh_GetRef = (\<lambda>rp r w. (Inl EOF, w)), gh_GetCommit = (\<lambda>rp r w. (Inl EOF, w)), gh_CreateBlob = (\<lambda>rp r w. (Inl EOF, w)),
         gh_CreateTree = (\<lambda>rp b es w. (Inl EOF, w)), gh_CreateCommit = (\<lambda>rp m t ps w. (Inl EOF, w)), gh_UpdateRef = (\<lambda>rp r c w. (Some EOF, w)),
         gh_CreateRef = (\<lambda>rp r c w. (Inl EOF, w)), gh_ListPRs = (\<lambda>rp h b w. (Inl EOF, w)), gh_CreatePR = (\<lambda>rp ti h b bo w. (Inl EOF, w))\<rparr>),
      md_HTTP = (\<lambda>q w. (Inl EOF, w)), md_ParseSelector = (\<lambda>s. None), md_Accessors = ref_accessors, md_NewStruct = Inr,
      md_OAuth2 = (\<lambda>u i s. PlainToken (\<lambda>w. (Inr s, w))), md_Redeem = (\<lambda>a h r w. (Inr (r, None), w)),
      md_NewForConfig = (\<lambda>k. None), md_CallInfo = True\<rparr>"

definition sample_environment :: env where
  "sample_environment = [''INARI_REGISTRATION_TOKEN'' \<mapsto> ''t'', ''INARI_CONTROL_PLANE'' \<mapsto> ''https://gw'',
     ''INARI_GIT_CREDS_SECRET'' \<mapsto> ''git'', ''POD_NAMESPACE'' \<mapsto> ''agents'']"

lemma sample_lifecycle:
  "\<exists>lc c. buildLifecycle sample_deps (\<lambda>cp q w. (Inl EOF, w)) (\<lambda>w. (Inr ''v1.30'', w)) ''dev'' sample_environment registered_world = (Inr lc, registered_world)
     \<and> lc_GitOps lc = Some c"
proof -
  have "ParseAppCredentials Inr [''app-id'' \<mapsto> ''7'', ''installation-id'' \<mapsto> ''8'', ''private-key'' \<mapsto> ''pem''] =
      (Inr \<lparr>app_AppID = 7, app_InstallationID = 8, app_PrivateKey = ''pem''\<rparr> :: string AppCredentials res)" by code_simp
  then show ?thesis
    by (simp add: buildLifecycle_def buildGitOps_def sample_environment_def sample_deps_def Getenv_def NewGitHubProvider_def newClient_def statusWatches_def
        map_filter_simps Let_def)
qed




end
