(* ===== verification/Agent_Process.thy ===== *)
theory Agent_Process
  imports Agent_Main
begin

text \<open>
  The agent process from its environment to the running agent: \<open>Start\<close> of \<open>internal/controller/agent_controller.go\<close>, which
  composes the identity, the watchers, the aggregator, the stream client, the dispatcher with its journal, the status
  streamer and the addon scanner out of the parts \<open>cmd/main.go\<close> built, up to the point where the goroutines run; from
  there on the agent is \<open>agent_step\<close>. The properties are about the whole process.
\<close>

section \<open>Start (agent_controller.go)\<close>

record ('p, 'w) running =
  rn_agent :: "('p, 'w GitOpsState) agent"
  rn_aggregator :: Aggregator
  rn_watchers :: "Watcher list"
  rn_stream :: "'w stream_settings option"
  rn_status :: "(string \<times> WatchResource list) option"

text \<open>
  What is started for an identity. \<open>disc\<close> is the discovery call, \<open>checksum\<close> the method of the aggregator, \<open>readiness\<close>
  the tracker of \<open>main\<close> and \<open>now\<close> the clock. The dispatcher is always the built-in one; without a GitOps
  configuration it has no handlers, and the handlers share no state.
\<close>

definition run_agent ::
  "('p, 'w) gitops_env \<Rightarrow> 'p agent_env \<Rightarrow> (string \<Rightarrow> string list option \<times> (go_err \<times> bool) option) \<Rightarrow> ('w \<Rightarrow> string) \<Rightarrow>
   StreamTracker option \<Rightarrow> int \<Rightarrow> 'w lifecycle \<Rightarrow> Credentials \<Rightarrow> string \<Rightarrow> 'w \<Rightarrow> ('p, 'w) running res"
where
  "run_agent GE E disc checksum readiness now lc creds clientSecret w =
     (let run = \<lparr>rn_agent = agent_init E NewDispatcher \<lparr>go_DefaultStateRepo = [], go_ext = w\<rparr> readiness None None now,
                 rn_aggregator = NewAggregator (cr_TenantID creds) (cr_ClusterID creds),
                 rn_watchers = (case lc_NewWatchers lc of None \<Rightarrow> [] | Some f \<Rightarrow> f disc),
                 rn_stream = map_option (\<lambda>f. f creds clientSecret checksum) (lc_NewStreamClient lc), rn_status = None\<rparr>
      in case lc_GitOps lc of
           None \<Rightarrow> Inr run
         | Some c \<Rightarrow>
             let redeemer = map_option (\<lambda>f. f creds clientSecret) (lc_NewRedeemer lc); c1 = c\<lparr>gop_BoundStateRepo := cr_BaselineRepo creds\<rparr>
             in case configure GE c1 (Some NewDispatcher) [] (cr_TenantID creds) redeemer w of
                  Inl err \<Rightarrow> Inl (Wrapf ''agent lifecycle: gitops setup: %w'' [] err)
                | Inr (d, s) \<Rightarrow>
                    Inr (run\<lparr>rn_agent := agent_init E d s readiness (Some NewStreamer) (addonScanner True c1) now,
                             rn_status := Some (streamer_args c1)\<rparr>))"

text \<open>\<open>None\<close> is the standalone agent, which waits for its context to end.\<close>

definition agent_Start ::
  "('p, 'w) gitops_env \<Rightarrow> 'p agent_env \<Rightarrow> (string \<Rightarrow> string list option \<times> (go_err \<times> bool) option) \<Rightarrow> ('w \<Rightarrow> string) \<Rightarrow>
   (SecretReference \<Rightarrow> 'w \<Rightarrow> string res \<times> 'w) \<Rightarrow> string \<Rightarrow> StreamTracker option \<Rightarrow> int \<Rightarrow> 'w lifecycle \<Rightarrow> 'w \<Rightarrow>
   ('p, 'w) running option res \<times> AgentReconciler"
where
  "agent_Start GE E disc checksum readSecret pod readiness now lc w =
     (case acquire_identity (lc_Kube lc) pod (map_option registrar_Register (lc_Registrar lc)) readSecret (lc_Reconciler lc) w of
        (Inl err, r, w1) \<Rightarrow> (Inl err, r)
      | (Inr Standalone, r, w1) \<Rightarrow> (Inr None, r)
      | (Inr (Identity creds clientSecret), r, w1) \<Rightarrow>
          (case run_agent GE E disc checksum readiness now lc creds clientSecret w1 of
             Inl err \<Rightarrow> (Inl err, r)
           | Inr run \<Rightarrow> (Inr (Some run), r)))"

text \<open>
  The loop \<open>Start\<close> ends in: the context may end, one of its goroutines may return, or an event is dispatched. The result is
  what \<open>Start\<close> returns, \<open>None\<close> while it goes on.
\<close>

datatype 'p loop_input = ContextDone | GoroutineEnded "go_err option" | Inbound "'p Event"

fun start_loop ::
  "'p Codec \<Rightarrow> (CommandAck \<Rightarrow> 'p res) \<Rightarrow> ('p Event \<Rightarrow> 'o \<Rightarrow> go_err option \<times> 'o) \<Rightarrow> ('o \<Rightarrow> go_err option \<times> 'o) \<Rightarrow>
   'p loop_input list \<Rightarrow> ('p, 's) Dispatcher \<Rightarrow> 's \<Rightarrow> 'o \<Rightarrow> go_err option option \<times> ('p, 's) Dispatcher \<times> 's \<times> 'o"
where
  "start_loop cd pk Send replay [] d s es = (None, d, s, es)"
| "start_loop cd pk Send replay (ContextDone # ins) d s es = (Some None, d, s, es)"
| "start_loop cd pk Send replay (GoroutineEnded err # ins) d s es = (Some err, d, s, es)"
| "start_loop cd pk Send replay (Inbound ev # ins) d s es =
     (case dispatch cd pk Send replay ev d s es of (d1, s1, es1) \<Rightarrow> start_loop cd pk Send replay ins d1 s1 es1)"

text \<open>The events of the inputs before the first that ends the loop.\<close>

fun loop_events :: "'p loop_input list \<Rightarrow> 'p Event list" where
  "loop_events (Inbound ev # ins) = ev # loop_events ins"
| "loop_events ins = []"

lemma dispatch_sends:
  assumes "\<forall>ack. \<exists>p. pk ack = Inr p" and "dispatch cd pk outbox (\<lambda>es. (err, es)) ev d s es = (d1, s1, es1)"
  shows "length es1 = length es + (if routed cd ev then 1 else 0)"
proof (cases "routed cd ev")
  case True
  have "length (sendAck cd pk outbox i ack ty es) = length es + 1" for i ack ty
  proof -
    obtain p where "pk ack = Inr p" using assms(1) by blast
    then show ?thesis by (simp add: sendAck_def outbox_def)
  qed
  with True assms(2) show ?thesis
    by (auto simp: dispatch_routed handleCommand_def Let_def split: sum.splits prod.splits)
next
  case False
  with assms(2) show ?thesis
    by (cases "EventTypeFromString cd (ev_Type ev) = EVENT_TYPE_RESYNC_REQUEST")
      (auto simp: dispatch_def routed_def split: EventType.splits if_splits)
qed

text \<open>Until the loop ends, every command is answered by one event, in whatever state it finds the dispatcher; afterwards none is.\<close>

lemma start_loop_answers:
  assumes "\<forall>ack. \<exists>p. pk ack = Inr p" and "start_loop cd pk outbox (\<lambda>es. (err, es)) ins d s es = (r, d1, s1, es1)"
  shows "length es1 = length es + length (filter (routed cd) (loop_events ins))"
  using assms(2)
proof (induction ins arbitrary: d s es)
  case (Cons i ins)
  then show ?case using dispatch_sends [OF assms(1)] by (cases i) (fastforce split: prod.splits)+
qed simp

section \<open>The dispatcher of the process\<close>

lemma register_handlers_seen [simp]: "d_seen (register_handlers GE c redeemer d) = d_seen d"
  by (simp add: register_handlers_def Register_def RegisterBridge_def Let_def split: option.split)

lemma configure_seen:
  assumes "configure GE c (Some NewDispatcher) ty tenant redeemer w = Inr (d, s)" and "gop_JournalNamespace c \<noteq> []"
    and "configmap_laws (gop_Kube c (gop_JournalNamespace c)) cur" and "enumerates (ge_order GE)" and "json_laws (ge_encAck GE) (ge_decAck GE)"
    and "stored_acks (ge_decAck GE) cur ''inari-agent-command-journal'' (go_ext s) i = Some ack"
  shows "d_seen d i = Some ack"
proof -
  define J where "J = ConfigMapJournal (gop_Kube c (gop_JournalNamespace c)) (ge_order GE) (ge_encAck GE) (ge_decAck GE) ''inari-agent-command-journal''"
  have durable: "durable_journal J (stored_acks (ge_decAck GE) cur ''inari-agent-command-journal'')"
    unfolding J_def by (rule configmap_journal_durable [OF assms(3-5)])
  from assms(1,2) obtain m where load: "j_Load J w = (Inr m, go_ext s)"
    and d: "d = (register_handlers GE c redeemer NewDispatcher)
        \<lparr>d_seen := (\<lambda>i. case d_seen (register_handlers GE c redeemer NewDispatcher) i of None \<Rightarrow> m i | Some ack \<Rightarrow> Some ack), d_journal := Some (ext_journal J)\<rparr>"
    by (auto simp: configure_def AttachJournal_def ext_journal_def on_ext_def Let_def J_def split: prod.splits sum.splits option.splits)
  from durable_journal.load_stored [OF durable load] assms(6) have "m i = Some ack" by simp
  then show ?thesis by (simp add: d NewDispatcher_def)
qed

text \<open>The running agent forgets no answer.\<close>

lemma dispatch_seen_mono:
  "dispatch cd pk Send replay ev d s w = (d', s', w') \<Longrightarrow> d_seen d \<subseteq>\<^sub>m d_seen d'"
proof (cases "routed cd ev")
  case True
  assume "dispatch cd pk Send replay ev d s w = (d', s', w')"
  with True have "d' = fst (snd (HandleEvent cd (Some ev) d s))"
    by (auto simp: dispatch_routed handleCommand_def Let_def split: prod.splits sum.splits)
  then show ?thesis using HandleEvent_seen_mono by metis
next
  case False
  assume "dispatch cd pk Send replay ev d s w = (d', s', w')"
  with False have "d' = d"
    by (cases "EventTypeFromString cd (ev_Type ev) = EVENT_TYPE_RESYNC_REQUEST") (simp_all add: dispatch_dropped, simp add: dispatch_def)
  then show ?thesis by simp
qed

lemma agent_seen_mono:
  assumes "(agent_step E)\<^sup>*\<^sup>* a0 a"
  shows "d_seen (ag_disp a0) \<subseteq>\<^sub>m d_seen (ag_disp a)"
  using assms
proof (induction rule: rtranclp_induct)
  case (step a1 a2)
  from step(2) have "d_seen (ag_disp a1) \<subseteq>\<^sub>m d_seen (ag_disp a2)"
    by cases (auto simp: SetConnected_def intro: dispatch_seen_mono)
  with step(3) show ?case by (rule map_le_trans)
qed simp

lemma run_agent_GitOps:
  assumes "run_agent GE E disc checksum readiness now lc creds secret w = Inr run" and "lc_GitOps lc = Some c"
  obtains d s redeemer where "configure GE (c\<lparr>gop_BoundStateRepo := cr_BaselineRepo creds\<rparr>) (Some NewDispatcher) [] (cr_TenantID creds) redeemer w = Inr (d, s)"
    and "ag_disp (rn_agent run) = SetConnected False d" and "ag_state (rn_agent run) = s"
  using assms by (auto simp: run_agent_def agent_init_def Let_def split: sum.splits)

lemma agent_Start_running:
  assumes "agent_Start GE E disc checksum readSecret pod readiness now lc w = (Inr (Some run), r)"
  obtains creds secret w1 where "run_agent GE E disc checksum readiness now lc creds secret w1 = Inr run"
  using assms by (auto simp: agent_Start_def split: prod.splits sum.splits identity.splits)

section \<open>Properties\<close>

text \<open>
  C8. Once only, across restarts of the process: with the configuration \<open>main\<close> builds, an acknowledgement that the journal holds when
  the agent starts is what every event with that command id is answered with, in every reachable state of the running
  agent, connected or not; no handler runs, and neither the dispatcher nor the state of the handlers changes.
\<close>

theorem restarted_process_replays:
  assumes "kube_laws (md_Kube D) cur" and "enumerates (ge_order GE)" and "json_laws (ge_encAck GE) (ge_decAck GE)"
    and "buildLifecycle D rpc sv version e w = (Inr lc, w1)" and "lc_GitOps lc = Some c"
    and "agent_Start GE E disc checksum readSecret pod readiness now lc w2 = (Inr (Some run), r)"
    and "stored_acks (ge_decAck GE) (\<lambda>v. cur v (creds_namespace e)) ''inari-agent-command-journal'' (go_ext (ag_state (rn_agent run))) i = Some ack"
    and "(agent_step E)\<^sup>*\<^sup>* (rn_agent run) a" and "routed (en_codec E) ev" and "event_id (en_codec E) (Some ev) = Some i"
  shows "dispatch (en_codec E) (en_packAck E) outbox replay ev (ag_disp a) (ag_state a) es =
    (ag_disp a, ag_state a,
     sendAck (en_codec E) (en_packAck E) outbox (ca_CommandId ack) ack
       (if ca_Result ack = COMMAND_RESULT_FAILED then EVENT_TYPE_COMMAND_NACK else EVENT_TYPE_COMMAND_ACK) es)"
proof -
  from buildLifecycle_gitops [OF assms(4,5)] obtain v1 v2 where g: "buildGitOps D e v1 = (Inr (Some c), v2)" .
  note c = buildGitOps_Some [OF g]
  from agent_Start_running [OF assms(6)] obtain creds secret w3 where "run_agent GE E disc checksum readiness now lc creds secret w3 = Inr run" .
  then obtain d s redeemer where conf: "configure GE (c\<lparr>gop_BoundStateRepo := cr_BaselineRepo creds\<rparr>) (Some NewDispatcher) [] (cr_TenantID creds) redeemer w3 = Inr (d, s)"
    and disp: "ag_disp (rn_agent run) = SetConnected False d" and st: "ag_state (rn_agent run) = s"
    using assms(5) by (rule run_agent_GitOps)
  have "d_seen d i = Some ack"
    by (rule configure_seen [OF conf, where cur = "\<lambda>v. cur v (creds_namespace e)"])
      (use c assms(1-3,7) st in \<open>simp_all add: kube_laws_def creds_namespace_def\<close>)
  then have "d_seen (ag_disp (rn_agent run)) i = Some ack" by (simp add: disp SetConnected_def)
  then have "d_seen (ag_disp a) i = Some ack" using agent_seen_mono [OF assms(8)] by (rule map_leD [rotated])
  from HandleEvent_seen [OF assms(10) this] show ?thesis
    by (simp add: dispatch_routed [OF assms(9)] handleCommand_def Let_def)
qed

text \<open>A registered agent with one answered command in its journal.\<close>

definition journalled_world :: kube_server where
  "journalled_world = registered_world(''inari-system'' := [''inari-agent-command-journal'' \<mapsto> (fmupd ''c1'' ''4:donec1'' fmempty, 1)])"

lemma journalled_parts:
  "\<exists>lc c. buildLifecycle sample_deps (\<lambda>cp q w. (Inl EOF, w)) (\<lambda>w. (Inr ''v1.30'', w)) ''dev'' sample_environment journalled_world = (Inr lc, journalled_world)
     \<and> lc_Kube lc = Some mem_kube \<and> ar_SystemNamespace (lc_Reconciler lc) = [] \<and> lc_GitOps lc = Some c"
proof -
  have "ParseAppCredentials Inr [''app-id'' \<mapsto> ''7'', ''installation-id'' \<mapsto> ''8'', ''private-key'' \<mapsto> ''pem''] =
      (Inr \<lparr>app_AppID = 7, app_InstallationID = 8, app_PrivateKey = ''pem''\<rparr> :: string AppCredentials res)" by code_simp
  then show ?thesis
    by (simp add: buildLifecycle_def buildGitOps_def sample_environment_def sample_deps_def Getenv_def NewGitHubProvider_def newClient_def
        statusWatches_def NewAgentReconciler_def map_filter_simps Let_def)
qed

lemma journalled_identity:
  assumes "ar_SystemNamespace r = []"
  shows "acquire_identity (Some mem_kube) ''agents'' registrar (ReadSecret poll_once sample_reader) r journalled_world =
    (Inr (Identity (sample_creds\<lparr>cr_ExpiresHint := None\<rparr>) ''s3cr3t''), r, journalled_world)"
proof -
  have ns: "systemNamespace ''agents'' r = ''agents''" using assms by (simp add: systemNamespace_def)
  have "\<exists>cm. cm_Get (mem_kube ''agents'') registrationConfigMap journalled_world = (Inr cm, journalled_world)"
    by (simp add: mem_kube_def in_ns_def mem_configmaps_def journalled_world_def registered_world_def registrationConfigMap_def fun_upd_idem fun_upd_twist)
  then obtain cm where cm: "cm_Get (mem_kube (systemNamespace ''agents'' r)) registrationConfigMap journalled_world = (Inr cm, journalled_world)"
    unfolding ns by blast
  have cur: "kube_data journalled_world (systemNamespace ''agents'' r) registrationConfigMap = Some (data_of_creds sample_creds)"
    unfolding ns by (simp add: kube_data_def mem_data_def journalled_world_def registered_world_def registrationConfigMap_def)
  have "loadPersistedCredentials (Some mem_kube) ''agents'' r journalled_world = (Inr (Some (sample_creds\<lparr>cr_ExpiresHint := None\<rparr>)), journalled_world)"
    using load_reads_current [where K = mem_kube and cur = kube_data and pod = "''agents''" and r = r and w = journalled_world and cm = cm
        and w' = journalled_world and d = "data_of_creds sample_creds"] mem_kube_laws cm cur by (simp add: creds_complete_def sample_creds_def)
  from acquire_loaded [OF this] show ?thesis by (simp add: read_identity_def sample_read)
qed

lemma journalled_configure:
  assumes "gop_Kube c = mem_kube" and "gop_JournalNamespace c = ''inari-system''"
  shows "\<exists>d s. configure secret_store_env c (Some NewDispatcher) [] tenant redeemer journalled_world = Inr (d, s) \<and> go_ext s = journalled_world"
proof -
  have "\<exists>cm. cm_Get (mem_kube ''inari-system'') ''inari-agent-command-journal'' journalled_world = (Inr cm, journalled_world)"
    by (simp add: mem_kube_def in_ns_def mem_configmaps_def journalled_world_def fun_upd_idem)
  then obtain cm where cm: "cm_Get (mem_kube ''inari-system'') ''inari-agent-command-journal'' journalled_world = (Inr cm, journalled_world)" by blast
  have total: "\<forall>i raw. fmlookup (data_of cm) i = Some raw \<longrightarrow> (\<exists>ack. sample_dec raw = Inr ack)"
    by (simp add: sample_dec_def Let_def split: prod.split)
  obtain m where "decode_all sample_dec (data_of cm) (sample_order (data_of cm)) Map.empty = Inr m"
    using decode_all_total [OF total] by blast
  with cm assms show ?thesis
    by (simp add: configure_def AttachJournal_def ext_journal_def on_ext_def ConfigMapJournal_def Load_def secret_store_env_def Let_def)
qed

theorem restarted_process_replays_witness:
  "\<exists>lc run r. buildLifecycle sample_deps (\<lambda>cp q w. (Inl EOF, w)) (\<lambda>w. (Inr ''v1.30'', w)) ''dev'' sample_environment journalled_world = (Inr lc, journalled_world)
     \<and> agent_Start secret_store_env ctl_env (\<lambda>gv. (None, None)) (\<lambda>w. []) (ReadSecret poll_once sample_reader) ''agents'' None 0 lc journalled_world = (Inr (Some run), r)
     \<and> dispatch sample_codec (\<lambda>ack. Inr (ca_CommandId ack)) outbox (\<lambda>es. (None, es)) (sample_event ''c1'') (ag_disp (rn_agent run)) (ag_state (rn_agent run)) [] =
         (ag_disp (rn_agent run), ag_state (rn_agent run), sendAck sample_codec (\<lambda>ack. Inr (ca_CommandId ack)) outbox ''c1'' sample_ack EVENT_TYPE_COMMAND_ACK [])"
proof -
  obtain lc c where lc: "buildLifecycle sample_deps (\<lambda>cp q w. (Inl EOF, w)) (\<lambda>w. (Inr ''v1.30'', w)) ''dev'' sample_environment journalled_world = (Inr lc, journalled_world)"
    "lc_Kube lc = Some mem_kube" "ar_SystemNamespace (lc_Reconciler lc) = []" "lc_GitOps lc = Some c"
    using journalled_parts by blast
  from buildLifecycle_gitops [OF lc(1,4)] obtain v1 v2 where "buildGitOps sample_deps sample_environment v1 = (Inr (Some c), v2)" .
  note c = buildGitOps_Some [OF this]
  have ns: "creds_namespace sample_environment = ''inari-system''" by (simp add: creds_namespace_def sample_environment_def Getenv_def)
  let ?cr = "sample_creds\<lparr>cr_ExpiresHint := None\<rparr>"
  obtain d s where conf: "configure secret_store_env (c\<lparr>gop_BoundStateRepo := cr_BaselineRepo ?cr\<rparr>) (Some NewDispatcher) [] (cr_TenantID ?cr)
      (map_option (\<lambda>f. f ?cr ''s3cr3t'') (lc_NewRedeemer lc)) journalled_world = Inr (d, s)" "go_ext s = journalled_world"
    using journalled_configure [of "c\<lparr>gop_BoundStateRepo := cr_BaselineRepo ?cr\<rparr>"] c ns by (fastforce simp: sample_deps_def)
  obtain run r where start: "agent_Start secret_store_env ctl_env (\<lambda>gv. (None, None)) (\<lambda>w. []) (ReadSecret poll_once sample_reader) ''agents'' None 0 lc journalled_world
      = (Inr (Some run), r)" and st: "ag_state (rn_agent run) = s"
    using conf(1) lc by (simp add: agent_Start_def journalled_identity run_agent_def agent_init_def Let_def)
  have laws: "kube_laws (md_Kube sample_deps) kube_data" using mem_kube_laws by (simp add: sample_deps_def)
  have env: "en_codec ctl_env = sample_codec" "en_packAck ctl_env = (\<lambda>ack. Inr (ca_CommandId ack))" by (simp_all add: ctl_env_def)
  have dec: "sample_dec ''4:donec1'' = Inr sample_ack" by code_simp
  have ge: "ge_order secret_store_env = sample_order" "ge_encAck secret_store_env = sample_enc" "ge_decAck secret_store_env = sample_dec"
    by (simp_all add: secret_store_env_def)
  have stored: "stored_acks (ge_decAck secret_store_env) (\<lambda>v. kube_data v (creds_namespace sample_environment)) ''inari-agent-command-journal''
      (go_ext (ag_state (rn_agent run))) ''c1'' = Some sample_ack"
    unfolding ns st conf(2) ge stored_acks_def by (simp add: kube_data_def mem_data_def journalled_world_def dec)
  have "dispatch (en_codec ctl_env) (en_packAck ctl_env) outbox (\<lambda>es. (None, es)) (sample_event ''c1'') (ag_disp (rn_agent run)) (ag_state (rn_agent run)) [] =
     (ag_disp (rn_agent run), ag_state (rn_agent run),
      sendAck (en_codec ctl_env) (en_packAck ctl_env) outbox (ca_CommandId sample_ack) sample_ack
        (if ca_Result sample_ack = COMMAND_RESULT_FAILED then EVENT_TYPE_COMMAND_NACK else EVENT_TYPE_COMMAND_ACK) [])"
    by (rule restarted_process_replays [OF laws _ _ lc(1,4) start stored rtranclp.rtrancl_refl])
      (simp_all add: ge sample_order_enumerates sample_json_laws env sample_routed)
  with lc start show ?thesis by (simp add: env sample_ack_def)
qed

end
