(* ===== verification/Tunnel_Main.thy ===== *)
theory Tunnel_Main
  imports Agent_Main Tunnel_Session
begin

text \<open>
  The tunnel agent's process (\<open>cmd/inari-tunnel-agent/main.go\<close>): its configuration from the environment, the service
  account token it re-reads from a file, what the relay, the handler and the client are built with, the probes, and the
  supervision of the two loops. Reading a file is a parameter.
\<close>

section \<open>Configuration\<close>

definition defaultSAPathPrefix :: string where
  "defaultSAPathPrefix = ''/var/run/secrets/kubernetes.io/serviceaccount''"

definition defaultAPIServerURL :: string where
  "defaultAPIServerURL = ''https://kubernetes.default.svc''"

definition envOr :: "env \<Rightarrow> string \<Rightarrow> string \<Rightarrow> string" where
  "envOr e key dflt = (if Getenv e key \<noteq> [] then Getenv e key else dflt)"

definition durationEnv :: "env \<Rightarrow> string \<Rightarrow> int \<Rightarrow> int res" where
  "durationEnv e key dflt =
     (let v = Getenv e key
      in if v = [] then Inr dflt
         else case ParseDuration v of
           Inl _ \<Rightarrow> Inl (Errorf ''invalid %s %q'' [AStr key, AStr v])
         | Inr d \<Rightarrow> if d \<le> 0 then Inl (Errorf ''invalid %s %q'' [AStr key, AStr v]) else Inr d)"

record tunnel_config =
  tc_kubeproxyURL :: string
  tc_clusterID :: string
  tc_oidcIssuer :: string
  tc_oidcTokenURL :: string
  tc_clientID :: string
  tc_clientSecret :: string
  tc_apiserverURL :: string
  tc_saTokenFile :: string
  tc_saCAFile :: string
  tc_pingInterval :: int
  tc_maxConnBytes :: int
  tc_maxConnLifetime :: int
  tc_healthAddr :: string

text \<open>The client secret: from the environment, else from a file.\<close>

definition client_secret :: "(string \<Rightarrow> string res) \<Rightarrow> env \<Rightarrow> string res" where
  "client_secret readFile e =
     (let s = Getenv e ''INARI_CLIENT_SECRET''; f = Getenv e ''INARI_CLIENT_SECRET_FILE''
      in if s \<noteq> [] then Inr s
         else if f = [] then Inr []
         else case readFile f of
           Inl err \<Rightarrow> Inl (Wrapf ''read INARI_CLIENT_SECRET_FILE: %w'' [] err)
         | Inr b \<Rightarrow> Inr (TrimSpace b))"

definition max_conn_bytes :: "env \<Rightarrow> int res" where
  "max_conn_bytes e =
     (let v = Getenv e ''INARI_TUNNEL_MAX_CONN_BYTES''
      in if v = [] then Inr DefaultMaxConnBytes
         else case ParseInt64 v of (n, err) \<Rightarrow>
           if err \<noteq> None \<or> n \<le> 0 then Inl (Errorf ''invalid INARI_TUNNEL_MAX_CONN_BYTES %q'' [AStr v]) else Inr n)"

definition configFromEnv :: "(string \<Rightarrow> string res) \<Rightarrow> env \<Rightarrow> tunnel_config res" where
  "configFromEnv readFile e =
     (let cluster = Getenv e ''INARI_CLUSTER_ID'' in
      if Getenv e ''INARI_KUBEPROXY_URL'' = [] then Inl (Errorf ''INARI_KUBEPROXY_URL is required'' [])
      else if cluster = [] then Inl (Errorf ''INARI_CLUSTER_ID is required'' [])
      else if Getenv e ''INARI_OIDC_ISSUER'' = [] \<and> Getenv e ''INARI_OIDC_TOKEN_URL'' = [] then
        Inl (Errorf ''one of INARI_OIDC_ISSUER or INARI_OIDC_TOKEN_URL is required'' [])
      else case client_secret readFile e of
        Inl err \<Rightarrow> Inl err
      | Inr secret \<Rightarrow>
      if secret = [] then Inl (Errorf ''INARI_CLIENT_SECRET or INARI_CLIENT_SECRET_FILE is required'' [])
      else case durationEnv e ''INARI_TUNNEL_PING_INTERVAL'' (seconds 30) of
        Inl err \<Rightarrow> Inl err
      | Inr ping \<Rightarrow>
      case durationEnv e ''INARI_TUNNEL_MAX_CONN_LIFETIME'' DefaultMaxConnLifetime of
        Inl err \<Rightarrow> Inl err
      | Inr lifetime \<Rightarrow>
      case max_conn_bytes e of
        Inl err \<Rightarrow> Inl err
      | Inr bytes \<Rightarrow> Inr
          \<lparr>tc_kubeproxyURL = Getenv e ''INARI_KUBEPROXY_URL'', tc_clusterID = cluster, tc_oidcIssuer = Getenv e ''INARI_OIDC_ISSUER'',
           tc_oidcTokenURL = Getenv e ''INARI_OIDC_TOKEN_URL'', tc_clientID = (if Getenv e ''INARI_CLIENT_ID'' = [] then ''tunnel-'' @ cluster else Getenv e ''INARI_CLIENT_ID''),
           tc_clientSecret = secret, tc_apiserverURL = envOr e ''INARI_APISERVER_URL'' defaultAPIServerURL,
           tc_saTokenFile = envOr e ''INARI_SA_TOKEN_FILE'' (defaultSAPathPrefix @ ''/token''),
           tc_saCAFile = envOr e ''INARI_SA_CA_FILE'' (defaultSAPathPrefix @ ''/ca.crt''), tc_pingInterval = ping, tc_maxConnBytes = bytes,
           tc_maxConnLifetime = lifetime, tc_healthAddr = envOr e ''INARI_TUNNEL_HEALTH_ADDR'' '':8082''\<rparr>)"

section \<open>What the parts are built with\<close>

definition token_url :: "tunnel_config \<Rightarrow> string" where
  "token_url cfg =
     (if tc_oidcTokenURL cfg = [] then TrimSuffix (tc_oidcIssuer cfg) ''/'' @ ''/protocol/openid-connect/token'' else tc_oidcTokenURL cfg)"

definition handler_of :: "tunnel_config \<Rightarrow> handler_config" where
  "handler_of cfg = \<lparr>hc_FrameSize = 0, hc_MaxConnBytes = tc_maxConnBytes cfg, hc_MaxConnLifetime = tc_maxConnLifetime cfg\<rparr>"

definition relay_of :: "tunnel_config \<Rightarrow> ('w \<Rightarrow> string) \<Rightarrow> 'w Relay" where
  "relay_of cfg get = \<lparr>rl_BaseURL = tc_apiserverURL cfg, rl_BearerToken = [], rl_TokenFunc = Some get, rl_ServerName = []\<rparr>"

text \<open>
  The roots of the TLS configuration: \<open>None\<close> for those of the system, when there is no CA file. \<open>systemPool\<close> is the pool of the system, if there is one, \<open>addPEM\<close> adds the
  certificates of a PEM text to a pool and fails without any.
\<close>

definition apiserverTLSConfig ::
  "(string \<Rightarrow> string res) \<Rightarrow> (go_err \<Rightarrow> bool) \<Rightarrow> 'p option \<Rightarrow> 'p \<Rightarrow> ('p \<Rightarrow> string \<Rightarrow> 'p option) \<Rightarrow> string \<Rightarrow> 'p option res"
where
  "apiserverTLSConfig readFile isNotExist systemPool newPool addPEM caFile =
     (case readFile caFile of
        Inl err \<Rightarrow> if isNotExist err then Inr None else Inl err
      | Inr pem \<Rightarrow>
          (case addPEM (case systemPool of None \<Rightarrow> newPool | Some p \<Rightarrow> p) pem of
             None \<Rightarrow> Inl (Errorf ''no certificates found in %s'' [AStr caFile])
           | Some pool \<Rightarrow> Inr (Some pool)))"

section \<open>The service account token\<close>

record fileTokenSource =
  fts_path :: string
  fts_cached :: string
  fts_at :: int

definition fts_get :: "(string \<Rightarrow> 'w \<Rightarrow> string res) \<Rightarrow> ('w \<Rightarrow> int) \<Rightarrow> fileTokenSource \<Rightarrow> 'w \<Rightarrow> string res \<times> fileTokenSource" where
  "fts_get readFile now s w =
     (if fts_cached s \<noteq> [] \<and> now w - fts_at s < seconds 60 then (Inr (fts_cached s), s)
      else case readFile (fts_path s) w of
        Inl err \<Rightarrow> (Inl err, s)
      | Inr b \<Rightarrow>
          let tok = TrimSpace b
          in if tok = [] then (Inl (Errorf ''empty token file %s'' [AStr (fts_path s)]), s)
             else (Inr tok, s\<lparr>fts_cached := tok, fts_at := now w\<rparr>))"

definition newFileTokenSource :: "(string \<Rightarrow> 'w \<Rightarrow> string res) \<Rightarrow> ('w \<Rightarrow> int) \<Rightarrow> string \<Rightarrow> 'w \<Rightarrow> fileTokenSource res" where
  "newFileTokenSource readFile now path w =
     (case fts_get readFile now \<lparr>fts_path = path, fts_cached = [], fts_at = 0\<rparr> w of
        (Inl err, _) \<Rightarrow> Inl err
      | (Inr _, s) \<Rightarrow> Inr s)"

definition fts_Get :: "(string \<Rightarrow> 'w \<Rightarrow> string res) \<Rightarrow> ('w \<Rightarrow> int) \<Rightarrow> fileTokenSource \<Rightarrow> 'w \<Rightarrow> string \<times> fileTokenSource" where
  "fts_Get readFile now s w =
     (case fts_get readFile now s w of
        (Inl err, s1) \<Rightarrow> (fts_cached s1, s1)
      | (Inr tok, s1) \<Rightarrow> (tok, s1))"

section \<open>The process\<close>

text \<open>
  The probes: status and body. \<open>ListenAndServe\<close> always ends with an error, which is \<open>errClosed\<close> after a shutdown.
\<close>

definition healthz :: "int \<times> string" where
  "healthz = (200, ''ok'')"

definition readyz :: "bool \<Rightarrow> int \<times> string" where
  "readyz conn = (if \<not> conn then (503, ''tunnel disconnected'' @ [CHR 0x0A]) else (200, ''ok''))"

definition serveHealth :: "go_err \<Rightarrow> go_err \<Rightarrow> go_err option" where
  "serveHealth errClosed err = (if errClosed \<in> set (err_chain err) then None else Some (Wrapf ''health listener: %w'' [] err))"

text \<open>What the client is built with.\<close>

record ('w, 'p) tunnel_process =
  tp_Relay :: "'w Relay"
  tp_Roots :: "'p option"
  tp_Handler :: handler_config
  tp_Address :: string
  tp_Token :: "'w TokenSource"
  tp_HTTP :: http_settings
  tp_Backoff :: Backoff
  tp_PingInterval :: int

definition tunnel_NewClient :: "string \<Rightarrow> 'w TokenSource \<Rightarrow> 'w Relay \<Rightarrow> 'p option \<Rightarrow> handler_config \<Rightarrow> ('w, 'p) tunnel_process" where
  "tunnel_NewClient address ts relay roots h =
     \<lparr>tp_Relay = relay, tp_Roots = roots, tp_Handler = h, tp_Address = address, tp_Token = ts, tp_HTTP = DefaultHTTPClient address,
      tp_Backoff = DefaultBackoff, tp_PingInterval = seconds 30\<rparr>"

text \<open>
  \<open>run\<close> up to the start of the loops; \<open>tls\<close> is \<open>apiserverTLSConfig\<close>, \<open>oauth2\<close> a source of client credential tokens
  and \<open>get\<close> the method \<open>Get\<close> of the token source, whose state is kept in the world.
\<close>

definition run_setup ::
  "(string \<Rightarrow> 'w \<Rightarrow> string res) \<Rightarrow> ('w \<Rightarrow> int) \<Rightarrow> (string \<Rightarrow> 'p option res) \<Rightarrow> (string \<Rightarrow> string \<Rightarrow> string \<Rightarrow> 'w TokenSource) \<Rightarrow>
   (fileTokenSource \<Rightarrow> 'w \<Rightarrow> string) \<Rightarrow> env \<Rightarrow> 'w \<Rightarrow> ('w, 'p) tunnel_process res"
where
  "run_setup readFile now tls oauth2 get e w =
     (case configFromEnv (\<lambda>f. readFile f w) e of
        Inl err \<Rightarrow> Inl err
      | Inr cfg \<Rightarrow>
      case newFileTokenSource readFile now (tc_saTokenFile cfg) w of
        Inl err \<Rightarrow> Inl (Wrapf ''load service account token: %w'' [] err)
      | Inr sa \<Rightarrow>
      case tls (tc_saCAFile cfg) of
        Inl err \<Rightarrow> Inl (Wrapf ''load apiserver CA: %w'' [] err)
      | Inr roots \<Rightarrow>
          Inr ((tunnel_NewClient (tc_kubeproxyURL cfg) (oauth2 (token_url cfg) (tc_clientID cfg) (tc_clientSecret cfg))
                  (relay_of cfg (get sa)) roots (handler_of cfg))\<lparr>tp_PingInterval := tc_pingInterval cfg\<rparr>))"

text \<open>The supervision: which of the two loops ended first, with what; the other one is waited for only after the client.\<close>

datatype first_end = HealthEnded "go_err option" | ClientEnded "go_err option" "go_err option"

definition supervise :: "first_end \<Rightarrow> go_err option" where
  "supervise f = (case f of HealthEnded err \<Rightarrow> err | ClientEnded runErr healthErr \<Rightarrow> (case healthErr of Some err \<Rightarrow> Some err | None \<Rightarrow> runErr))"

text \<open>The error of a session, by what ended its main loop.\<close>

datatype session_end = ContextEnded go_err | ReceiveFailed go_err | SendFailed go_err | SendPumpEnded | RotationDue

definition tunnel_session_error :: "session_end \<Rightarrow> go_err" where
  "tunnel_session_error s =
     (case s of
        ContextEnded err \<Rightarrow> err
      | ReceiveFailed err \<Rightarrow> Wrapf ''tunnelagent: receive: %w'' [] err
      | SendFailed err \<Rightarrow> Wrapf ''tunnelagent: send: %w'' [] err
      | SendPumpEnded \<Rightarrow> Errorf ''tunnelagent: send pump ended'' []
      | RotationDue \<Rightarrow> tunnel_errTokenRotation)"

text \<open>
  The reconnect loop of the client: the waits between the given sessions. A session is its error, the random number
  of the wait that follows, and whether the context ended in it or in that wait; the loop always returns nil.
\<close>

datatype stop = Running | InSession | InWait

fun tunnel_Run :: "Backoff \<Rightarrow> int \<Rightarrow> (go_err option \<times> rat \<times> stop) list \<Rightarrow> int list" where
  "tunnel_Run b delay [] = []"
| "tunnel_Run b delay ((err, r, st) # sessions) =
     (if st = InSession then []
      else case tunnel_next b delay err r of
        (None, delay') \<Rightarrow> 0 # tunnel_Run b delay' sessions
      | (Some wait, delay') \<Rightarrow> if st = InWait then [wait] else wait # tunnel_Run b delay' sessions)"

lemma rotation_only_prompt:
  assumes "\<And>err. s \<in> {ContextEnded err, ReceiveFailed err, SendFailed err} \<Longrightarrow> tunnel_errTokenRotation \<notin> set (err_chain err)"
  shows "fst (tunnel_next b delay (Some (tunnel_session_error s)) r) = None \<longleftrightarrow> s = RotationDue"
  using assms
  by (cases s) (auto simp: tunnel_next_def tunnel_session_error_def err_is_def tunnel_errTokenRotation_def)

text \<open>The tokens of a sequence of requests.\<close>

fun tokens :: "(string \<Rightarrow> 'w \<Rightarrow> string res) \<Rightarrow> ('w \<Rightarrow> int) \<Rightarrow> fileTokenSource \<Rightarrow> 'w list \<Rightarrow> string list" where
  "tokens readFile now s [] = []"
| "tokens readFile now s (w # ws) = (case fts_Get readFile now s w of (tok, s1) \<Rightarrow> tok # tokens readFile now s1 ws)"

section \<open>Properties\<close>

text \<open>The file holds this token in a world.\<close>

definition file_token :: "(string \<Rightarrow> 'w \<Rightarrow> string res) \<Rightarrow> string \<Rightarrow> 'w \<Rightarrow> string option" where
  "file_token readFile path w =
     (case readFile path w of Inl _ \<Rightarrow> None | Inr b \<Rightarrow> if TrimSpace b = [] then None else Some (TrimSpace b))"

definition cache_from :: "(string \<Rightarrow> 'w \<Rightarrow> string res) \<Rightarrow> ('w \<Rightarrow> int) \<Rightarrow> fileTokenSource \<Rightarrow> 'w \<Rightarrow> bool" where
  "cache_from readFile now s w \<longleftrightarrow> file_token readFile (fts_path s) w = Some (fts_cached s) \<and> fts_at s = now w"

lemma file_token_not_Nil: "file_token readFile path w = Some tok \<Longrightarrow> tok \<noteq> []"
  by (auto simp: file_token_def split: sum.splits if_splits)

lemma fts_get_cases:
  assumes "fts_get readFile now s w = (r, s1)"
  obtains (cached) "fts_cached s \<noteq> []" "now w - fts_at s < seconds 60" "r = Inr (fts_cached s)" "s1 = s"
  | (failed) err where "file_token readFile (fts_path s) w = None" "r = Inl err" "s1 = s"
  | (read) tok where "file_token readFile (fts_path s) w = Some tok" "r = Inr tok" "s1 = s\<lparr>fts_cached := tok, fts_at := now w\<rparr>"
proof (cases "fts_cached s \<noteq> [] \<and> now w - fts_at s < seconds 60")
  case True
  then have "r = Inr (fts_cached s)" "s1 = s" using assms by (auto simp: fts_get_def)
  with True show ?thesis by (intro cached) simp_all
next
  case False
  show ?thesis
  proof (cases "file_token readFile (fts_path s) w")
    case None
    then have "s1 = s \<and> (\<exists>err. r = Inl err)"
      using False assms by (cases "readFile (fts_path s) w") (auto simp: fts_get_def file_token_def Let_def split: if_splits intro: sym)
    with None failed show ?thesis by blast
  next
    case (Some tok)
    then have "r = Inr tok" "s1 = s\<lparr>fts_cached := tok, fts_at := now w\<rparr>"
      using False assms by (auto simp: fts_get_def file_token_def Let_def split: sum.splits if_splits)
    with Some show ?thesis by (intro read)
  qed
qed

lemma tokens_current:
  assumes "i < length ws" and "cache_from readFile now s w0"
  shows "\<exists>j \<le> Suc i. file_token readFile (fts_path s) ((w0 # ws) ! j) = Some (tokens readFile now s ws ! i)
    \<and> (now (ws ! i) - now ((w0 # ws) ! j) < seconds 60 \<or> j = Suc i \<or> file_token readFile (fts_path s) (ws ! i) = None)"
  using assms
proof (induction ws arbitrary: s i w0)
  case (Cons w ws)
  obtain r s1 where g: "fts_get readFile now s w = (r, s1)" by fastforce
  define tok where "tok = fst (fts_Get readFile now s w)"
  have run: "tokens readFile now s (w # ws) = tok # tokens readFile now s1 ws"
    using g by (simp add: tok_def fts_Get_def split: sum.split prod.split)
  have step: "(cache_from readFile now s1 w \<or> s1 = s) \<and> fts_path s1 = fts_path s
    \<and> (\<exists>j \<le> Suc 0. file_token readFile (fts_path s) ((w0 # w # ws) ! j) = Some tok
         \<and> (now w - now ((w0 # w # ws) ! j) < seconds 60 \<or> j = Suc 0 \<or> file_token readFile (fts_path s) w = None))"
    using g
  proof (cases rule: fts_get_cases)
    case cached
    with g Cons.prems(2) show ?thesis by (intro conjI exI [of _ 0]) (auto simp: tok_def fts_Get_def cache_from_def)
  next
    case (failed err)
    with g Cons.prems(2) show ?thesis by (intro conjI exI [of _ 0]) (auto simp: tok_def fts_Get_def cache_from_def)
  next
    case (read t)
    with g show ?thesis by (intro conjI exI [of _ "Suc 0"]) (auto simp: tok_def fts_Get_def cache_from_def)
  qed
  show ?case
  proof (cases i)
    case 0
    with step run show ?thesis by auto
  next
    case (Suc k)
    with Cons.prems have k: "k < length ws" by simp
    from step consider "cache_from readFile now s1 w" | "s1 = s" by blast
    then show ?thesis
    proof cases
      case 1
      from Cons.IH [OF k 1] step obtain j where "j \<le> Suc k" "file_token readFile (fts_path s) ((w # ws) ! j) = Some (tokens readFile now s1 ws ! k)"
        "now (ws ! k) - now ((w # ws) ! j) < seconds 60 \<or> j = Suc k \<or> file_token readFile (fts_path s) (ws ! k) = None" by auto
      with Suc run show ?thesis by (intro exI [of _ "Suc j"]) auto
    next
      case 2
      note ih = Cons.IH [OF k Cons.prems(2)]
      then obtain j where j: "j \<le> Suc k" "file_token readFile (fts_path s) ((w0 # ws) ! j) = Some (tokens readFile now s ws ! k)"
        "now (ws ! k) - now ((w0 # ws) ! j) < seconds 60 \<or> j = Suc k \<or> file_token readFile (fts_path s) (ws ! k) = None" by auto
      have "(w0 # w # ws) ! (if j = 0 then 0 else Suc j) = (w0 # ws) ! j" by (cases j) simp_all
      with j Suc run 2 show ?thesis by (intro exI [of _ "if j = 0 then 0 else Suc j"]) auto
    qed
  qed
qed simp

text \<open>
  C14. The tunnel follows the rotation of its service account token: once the token file could be read at start, every
  request is sent under a token that is not empty and was in the file within the last minute, or is read for this
  very request; an older one is used only while the file cannot be read.
\<close>

theorem sa_token_current:
  assumes "newFileTokenSource readFile now path w0 = Inr s" and "i < length ws"
  shows "tokens readFile now s ws ! i \<noteq> []
    \<and> (\<exists>j \<le> Suc i. file_token readFile path ((w0 # ws) ! j) = Some (tokens readFile now s ws ! i)
         \<and> (now (ws ! i) - now ((w0 # ws) ! j) < seconds 60 \<or> j = Suc i \<or> file_token readFile path (ws ! i) = None))"
proof -
  let ?s0 = "\<lparr>fts_path = path, fts_cached = [], fts_at = 0\<rparr>"
  obtain r s1 where g: "fts_get readFile now ?s0 w0 = (r, s1)" by fastforce
  then have "cache_from readFile now s w0 \<and> fts_path s = path"
  proof (cases rule: fts_get_cases)
    case (read t)
    with g assms(1) show ?thesis by (auto simp: newFileTokenSource_def cache_from_def)
  qed (use g assms(1) in \<open>auto simp: newFileTokenSource_def\<close>)
  with tokens_current [OF assms(2), of readFile now s w0] show ?thesis by (auto dest: file_token_not_Nil)
qed

theorem sa_token_current_witness:
  "\<exists>s. newFileTokenSource (\<lambda>p t. Inr (if t < seconds 10 then ''old'' else ''new'')) (\<lambda>t. t) ''tok'' 0 = Inr s
     \<and> tokens (\<lambda>p t. Inr (if t < seconds 10 then ''old'' else ''new'')) (\<lambda>t. t) s [seconds 20, seconds 90] ! 1 = ''new''"
proof -
  let ?read = "\<lambda>p t. Inr (if t < seconds 10 then ''old'' else ''new'') :: string res"
  have trim: "TrimSpace ''old'' = ''old''" "TrimSpace ''new'' = ''new''" by code_simp+
  have s: "newFileTokenSource ?read (\<lambda>t. t) ''tok'' 0 = Inr \<lparr>fts_path = ''tok'', fts_cached = ''old'', fts_at = 0\<rparr>" (is "_ = Inr ?s")
    by (simp add: newFileTokenSource_def fts_get_def Let_def trim seconds_def)
  define tok where "tok = tokens ?read (\<lambda>t. t) ?s [seconds 20, seconds 90] ! 1"
  have present: "file_token ?read ''tok'' t = Some (if t < seconds 10 then ''old'' else ''new'')" for t :: int
    by (simp add: file_token_def trim)
  from sa_token_current [OF s, of 1 "[seconds 20, seconds 90]"]
  have "\<exists>j \<le> 2. (if [0, seconds 20, seconds 90] ! j < seconds 10 then ''old'' else ''new'') = tok
      \<and> (seconds 90 - [0, seconds 20, seconds 90] ! j < seconds 60 \<or> j = 2)"
    by (simp add: present numeral_2_eq_2 del: tokens.simps flip: tok_def [unfolded One_nat_def])
  then have "tok = ''new''"
    by (auto simp: le_Suc_eq numeral_2_eq_2 seconds_def)
  then have "tokens ?read (\<lambda>t. t) ?s [seconds 20, seconds 90] ! 1 = ''new''" by (simp only: tok_def)
  with s show ?thesis by blast
qed

section \<open>The process\<close>

lemma configFromEnv_Inr:
  assumes "configFromEnv readFile e = Inr cfg"
  shows "0 < tc_maxConnBytes cfg" "0 < tc_maxConnLifetime cfg" "0 < tc_pingInterval cfg" "tc_clientSecret cfg \<noteq> []"
    "tc_clientID cfg \<noteq> []" "tc_kubeproxyURL cfg \<noteq> []" "tc_oidcTokenURL cfg = [] \<Longrightarrow> tc_oidcIssuer cfg \<noteq> []"
proof -
  have d: "0 < x" if "durationEnv e k dflt = Inr x" "0 < dflt" for k dflt x
    using that by (auto simp: durationEnv_def Let_def split: if_splits sum.splits)
  have b: "0 < x" if "max_conn_bytes e = Inr x" for x
    using that by (auto simp: max_conn_bytes_def DefaultMaxConnBytes_def Let_def split: if_splits prod.splits)
  from assms obtain ping life bytes secret where
    p: "durationEnv e ''INARI_TUNNEL_PING_INTERVAL'' (seconds 30) = Inr ping" and
    l: "durationEnv e ''INARI_TUNNEL_MAX_CONN_LIFETIME'' DefaultMaxConnLifetime = Inr life" and
    n: "max_conn_bytes e = Inr bytes" and
    cfg: "tc_pingInterval cfg = ping" "tc_maxConnLifetime cfg = life" "tc_maxConnBytes cfg = bytes" "tc_clientSecret cfg \<noteq> []"
      "tc_clientID cfg \<noteq> []" "tc_kubeproxyURL cfg \<noteq> []" "tc_oidcTokenURL cfg = [] \<Longrightarrow> tc_oidcIssuer cfg \<noteq> []"
    by (auto simp: configFromEnv_def Let_def split: if_splits sum.splits)
  from d [OF p] d [OF l] b [OF n] cfg show "0 < tc_maxConnBytes cfg" "0 < tc_maxConnLifetime cfg" "0 < tc_pingInterval cfg"
    "tc_clientSecret cfg \<noteq> []" "tc_clientID cfg \<noteq> []" "tc_kubeproxyURL cfg \<noteq> []" "tc_oidcTokenURL cfg = [] \<Longrightarrow> tc_oidcIssuer cfg \<noteq> []"
    by (simp_all add: seconds_def DefaultMaxConnLifetime_def)
qed

text \<open>The limits of the environment are the limits of the handler.\<close>

lemma configured_limits:
  assumes "configFromEnv readFile e = Inr cfg"
  shows "max_bytes (handler_of cfg) = tc_maxConnBytes cfg" "conn_lifetime (handler_of cfg) = tc_maxConnLifetime cfg"
  using configFromEnv_Inr [OF assms] by (simp_all add: handler_of_def max_bytes_def conn_lifetime_def)

text \<open>
  The tunnel never starts half configured, and the byte cap of its environment holds for every connection: when the
  process is set up, it has a client secret, a client id and positive limits, and in every reachable state a connection
  has relayed at most the configured number of bytes.
\<close>

theorem configured_cap_enforced:
  assumes "run_setup readFile now tls oauth2 get e w = Inr p" and "max_conn_bytes e = Inr n" and "n \<le> 2 ^ 62"
    and "(tunnel_step (tp_Handler p))\<^sup>*\<^sup>* tunnel_init t" and "cs \<in> set (tn_conns t)"
  shows "0 < n \<and> 0 < tp_PingInterval p \<and> 0 < conn_lifetime (tp_Handler p)
    \<and> int (length (log_written cs)) + int (length (concat (log_frames cs))) \<le> n"
proof -
  from assms(1) obtain cfg where cfg: "configFromEnv (\<lambda>f. readFile f w) e = Inr cfg" and p: "tp_Handler p = handler_of cfg" "tp_PingInterval p = tc_pingInterval cfg"
    by (auto simp: run_setup_def tunnel_NewClient_def split: sum.splits)
  have n: "tc_maxConnBytes cfg = n"
    using cfg assms(2) by (auto simp: configFromEnv_def Let_def split: if_splits sum.splits)
  note limits = configured_limits [OF cfg] configFromEnv_Inr(1-3) [OF cfg]
  have "limits_ok (tp_Handler p)"
    using limits n assms(3) by (simp add: p limits_ok_def handler_of_def frame_size_def DefaultFrameSize_def)
  from tunnel_reachable(3) [OF assms(4) this] assms(5)
  have "relayed cs \<le> max_bytes (tp_Handler p)" by (auto simp: all_conns_def bytes_inv_def)
  with limits n show ?thesis by (simp add: p relayed_def)
qed

text \<open>
  The backoff of the tunnel is only reset by a rotation: after \<open>k\<close> sessions that ended in an error, however long each
  of them had been healthy, the delay of the next wait is \<open>2 ^ k\<close> seconds, up to five minutes.
\<close>

definition failed_session :: "go_err option \<times> rat \<times> stop \<Rightarrow> bool" where
  "failed_session s \<longleftrightarrow> (case s of (err, r, st) \<Rightarrow> err \<noteq> None \<and> \<not> err_is err tunnel_errTokenRotation \<and> st = Running)"

lemma tunnel_Run_failed:
  assumes "failed_session (err, r, st)"
  shows "tunnel_Run DefaultBackoff delay ((err, r, st) # ss) = jitterDelay delay r # tunnel_Run DefaultBackoff (nextDelay delay DefaultBackoff) ss"
  using assms by (simp add: failed_session_def tunnel_next_def run_backoff_def DefaultBackoff_def seconds_def)

lemma tunnel_waits:
  assumes "\<forall>s \<in> set ss. failed_session s"
  shows "tunnel_Run DefaultBackoff delay ss = map (\<lambda>i. jitterDelay (((\<lambda>d. nextDelay d DefaultBackoff) ^^ i) delay) (fst (snd (ss ! i)))) [0..<length ss]"
  using assms
proof (induction ss arbitrary: delay)
  case (Cons s ss)
  obtain e x st where s: "s = (e, x, st)" by (cases s) auto
  have swap: "((\<lambda>d. nextDelay d DefaultBackoff) ^^ i) (nextDelay delay DefaultBackoff) = ((\<lambda>d. nextDelay d DefaultBackoff) ^^ Suc i) delay" for i
    by (simp only: funpow_Suc_right comp_def)
  have "tunnel_Run DefaultBackoff delay (s # ss) = jitterDelay delay x # tunnel_Run DefaultBackoff (nextDelay delay DefaultBackoff) ss"
    using Cons.prems unfolding s by (intro tunnel_Run_failed) simp
  also have "tunnel_Run DefaultBackoff (nextDelay delay DefaultBackoff) ss =
      map (\<lambda>i. jitterDelay (((\<lambda>d. nextDelay d DefaultBackoff) ^^ Suc i) delay) (fst (snd (ss ! i)))) [0..<length ss]"
    using Cons.IH [of "nextDelay delay DefaultBackoff"] Cons.prems unfolding swap by simp
  finally show ?case by (simp add: s map_upt_Suc del: funpow.simps upt_Suc)
qed simp

lemma tunnel_backoff_ratchets:
  assumes "\<forall>s \<in> set ss. failed_session s" and "k < length ss"
  shows "tunnel_Run DefaultBackoff (seconds 1) ss ! k = jitterDelay (min (seconds (2 ^ k)) (seconds 300)) (fst (snd (ss ! k)))"
proof -
  have "((\<lambda>d. nextDelay d DefaultBackoff) ^^ k) (seconds 1) = min (seconds (2 ^ k)) (seconds 300)"
    using nextDelay_doubles [of DefaultBackoff "seconds 1" k] by (simp add: DefaultBackoff_def max_delay_def seconds_def min_def)
  with tunnel_waits [OF assms(1), of "seconds 1"] assms(2) show ?thesis by simp
qed

end
