(* ===== verification/Tunnel_Reset.thy ===== *)
theory Tunnel_Reset
  imports Tunnel_Session
begin

text \<open>
  The end of a session of the kubectl tunnel terminates: \<open>ResetAll\<close> waits for the goroutines of its connections without a
  time limit (\<open>internal/tunnelagent/handler.go\<close>), and it is their own doing that it does not wait for ever. The
  steps of these goroutines are the relation \<open>settle_step\<close>, a part of \<open>tunnel_step\<close> in which the hub does nothing: it
  is well-founded, and no reachable state of an ending session is stuck in it.
\<close>

section \<open>Steps without the hub\<close>

inductive settle_step :: "handler_config \<Rightarrow> tunnel \<Rightarrow> tunnel \<Rightarrow> bool"
  for c
where
  s_cancels: "tn_phase t = TEnding (n # ns) \<Longrightarrow> n < length (tn_conns t) \<Longrightarrow> cs_cause (conn_at t n) = None \<Longrightarrow>
     settle_step c t (set_conn n (cancel_conn (conn_at t n)) t)"
| s_waited: "tn_phase t = TEnding (n # ns) \<Longrightarrow> cs_done (conn_at t n) \<Longrightarrow> settle_step c t (t\<lparr>tn_phase := TEnding ns\<rparr>)"
| s_closed: "tn_phase t = TEnding [] \<Longrightarrow> late = [] \<or> (tn_recv t \<and> (\<exists>m. late = [m])) \<Longrightarrow>
     settle_step c t (t\<lparr>tn_phase := TDown, tn_recv := False, tn_pump := False, tn_late := tn_late t @ late\<rparr>)"
| s_fails: "n < length (tn_conns t) \<Longrightarrow> cs_pc (conn_at t n) = Opening \<Longrightarrow> settle_step c t (relay_failed n err t)"
| s_answers: "n < length (tn_conns t) \<Longrightarrow> cs_pc (conn_at t n) = Opening \<Longrightarrow> settle_step c t (relay_opened n res body t)"
| s_read: "n < length (tn_conns t) \<Longrightarrow> cs_pc (conn_at t n) = Pumping \<Longrightarrow> data \<noteq> [] \<Longrightarrow> int (length data) \<le> frame_size c \<Longrightarrow>
     prefix data (cs_rest (conn_at t n)) \<Longrightarrow> settle_step c t (outbound_data c n data t)"
| s_ended: "n < length (tn_conns t) \<Longrightarrow> cs_pc (conn_at t n) = Pumping \<Longrightarrow> (EOF \<in> set (err_chain err) \<longrightarrow> cs_rest (conn_at t n) = []) \<Longrightarrow>
     settle_step c t (outbound_end n err t)"
| s_returned: "n < length (tn_conns t) \<Longrightarrow> cs_pc (conn_at t n) = Finishing \<Longrightarrow> settle_step c t (unregister n t)"
| s_taken: "n < length (tn_conns t) \<Longrightarrow> cs_pump (conn_at t n) \<Longrightarrow> cs_in (conn_at t n) \<noteq> [] \<Longrightarrow> settle_step c t (inbound_frame c n ok t)"
| s_stopped: "n < length (tn_conns t) \<Longrightarrow> cs_pump (conn_at t n) \<Longrightarrow> cs_cause (conn_at t n) \<noteq> None \<Longrightarrow>
     settle_step c t (set_conn n ((conn_at t n)\<lparr>cs_pump := False, cs_writer := closePipeLocked (cs_writer (conn_at t n))\<rparr>) t)"
| s_lifetime: "n < length (tn_conns t) \<Longrightarrow> cs_cause (conn_at t n) = None \<Longrightarrow>
     settle_step c t (set_conn n ((conn_at t n)\<lparr>cs_cause := Some DeadlineExceeded\<rparr>) t)"

lemma settle_is_step: "settle_step c t t' \<Longrightarrow> tunnel_step c t t'"
  by (induction rule: settle_step.induct) (blast intro: tunnel_step.intros)+

lemma settle_reachable:
  "(settle_step c)\<^sup>*\<^sup>* t t' \<Longrightarrow> (tunnel_step c)\<^sup>*\<^sup>* tunnel_init t \<Longrightarrow> (tunnel_step c)\<^sup>*\<^sup>* tunnel_init t'"
  by (induction rule: rtranclp_induct) (auto intro: settle_is_step rtranclp.rtrancl_into_rtrancl)

section \<open>They end\<close>

definition weight :: "(connState \<Rightarrow> nat) \<Rightarrow> tunnel \<Rightarrow> nat" where
  "weight f t = sum_list (map f (tn_conns t))"

lemma weight_frame [simp]:
  "weight f (tunnel_send m t) = weight f t" "weight f (t\<lparr>tn_phase := p\<rparr>) = weight f t" "weight f (t\<lparr>tn_reg := r\<rparr>) = weight f t"
  "weight f (t\<lparr>tn_recv := b\<rparr>) = weight f t" "weight f (t\<lparr>tn_pump := b\<rparr>) = weight f t" "weight f (t\<lparr>tn_late := l\<rparr>) = weight f t"
  by (simp_all add: weight_def)

lemma weight_set:
  assumes "n < length (tn_conns t)"
  shows "weight f (set_conn n cs t) + f (conn_at t n) = weight f t + f cs"
proof -
  have "f (tn_conns t ! n) \<le> sum_list (map f (tn_conns t))" using assms by (intro member_le_sum_list) simp_all
  with assms show ?thesis by (simp add: weight_def set_conn_def conn_at_def map_update sum_list_update)
qed

definition phase_weight :: "session_phase \<Rightarrow> nat" where
  "phase_weight p = (case p of TEnding ns \<Rightarrow> Suc (length ns) | _ \<Rightarrow> 0)"

definition pc_weight :: "connState \<Rightarrow> nat" where
  "pc_weight cs = (case cs_pc cs of Opening \<Rightarrow> 3 | Pumping \<Rightarrow> 2 | Finishing \<Rightarrow> 1 | Finished \<Rightarrow> 0)"

definition body_weight :: "connState \<Rightarrow> nat" where
  "body_weight cs = length (cs_rest cs)"

definition pump_weight :: "connState \<Rightarrow> nat" where
  "pump_weight cs = length (cs_in cs) + (if cs_pump cs then 1 else 0) + (if cs_cause cs = None then 1 else 0)"

text \<open>Where the connections are, what their bodies still hold, and what their inbound pumps and the reset have yet to do.\<close>

definition settling :: "(tunnel \<times> tunnel) set" where
  "settling = measures [weight pc_weight, weight body_weight, \<lambda>t. weight pump_weight t + phase_weight (tn_phase t)]"

lemma settling_conn:
  assumes "n < length (tn_conns t)" and "tn_conns u = tn_conns t" and "tn_phase u = tn_phase t"
    and "pc_weight cs < pc_weight (conn_at t n)
      \<or> pc_weight cs = pc_weight (conn_at t n) \<and> body_weight cs < body_weight (conn_at t n)
      \<or> pc_weight cs = pc_weight (conn_at t n) \<and> body_weight cs = body_weight (conn_at t n) \<and> pump_weight cs < pump_weight (conn_at t n)"
  shows "(set_conn n cs u, t) \<in> settling"
proof -
  have w: "weight f (set_conn n cs u) + f (conn_at t n) = weight f t + f cs" for f
    using weight_set [of n u f cs] assms(1,2) by (simp add: conn_at_def weight_def)
  from assms(4) show ?thesis
    using w [of pc_weight] w [of body_weight] w [of pump_weight] assms(3) by (auto simp: settling_def)
qed

lemma chargeBytes_weights:
  assumes "chargeBytes c cs k = (b, cs1)"
  shows "cs_pc cs1 = cs_pc cs" "cs_rest cs1 = cs_rest cs" "pump_weight cs1 \<le> pump_weight cs" "cs_in cs1 = cs_in cs" "cs_pump cs1 = cs_pump cs"
    "cs_done cs1 = cs_done cs"
  using assms by (auto simp: chargeBytes_def cancel_conn_def pump_weight_def Let_def split: if_splits)

lemma pump_weight_tl: "cs_in cs = f # fs \<Longrightarrow> pump_weight (cs\<lparr>cs_in := fs\<rparr>) < pump_weight cs"
  unfolding pump_weight_def by simp

lemma inbound_conn:
  assumes "n < length (tn_conns t)" and "cs_in (conn_at t n) \<noteq> []"
  obtains cs u where "inbound_frame c n ok t = set_conn n cs u" "tn_conns u = tn_conns t" "tn_phase u = tn_phase t"
    "cs_pc cs = cs_pc (conn_at t n)" "cs_rest cs = cs_rest (conn_at t n)" "cs_done cs = cs_done (conn_at t n)"
    "pump_weight cs < pump_weight (conn_at t n)"
proof -
  let ?cs = "conn_at t n"
  obtain f fs where f: "cs_in ?cs = f # fs" using assms(2) by (cases "cs_in ?cs") auto
  let ?taken = "?cs\<lparr>cs_in := fs\<rparr>"
  have w0: "pump_weight ?taken < pump_weight ?cs" by (rule pump_weight_tl [OF f])
  have stop: "pump_weight (cs\<lparr>cs_writer := w, cs_pump := False\<rparr>) \<le> pump_weight cs" "pump_weight (cs\<lparr>cs_pump := False\<rparr>) \<le> pump_weight cs"
    "pump_weight (cs\<lparr>log_written := d\<rparr>) = pump_weight cs"
    "pump_weight (cs\<lparr>log_written := d, cs_writer := w, cs_pump := False\<rparr>) \<le> pump_weight cs" for cs w d
    by (simp_all add: pump_weight_def)
  show ?thesis
  proof (cases "tf_Data f = []")
    case True
    define cs2 where "cs2 = (if tf_HalfClose f then ?taken\<lparr>cs_writer := halfClose (cs_writer ?cs), cs_pump := False\<rparr> else ?taken)"
    have "inbound_frame c n ok t = set_conn n cs2 t" using True f by (simp add: inbound_frame_def Let_def cs2_def)
    moreover have "pump_weight cs2 \<le> pump_weight ?taken" using stop(1) [where cs = ?taken] by (simp add: cs2_def)
    moreover have "cs_pc cs2 = cs_pc ?cs" "cs_rest cs2 = cs_rest ?cs" "cs_done cs2 = cs_done ?cs" by (simp_all add: cs2_def)
    ultimately show ?thesis using w0 by (intro that [of cs2 t]) (auto intro: le_less_trans)
  next
    case False
    obtain k cs1 where ch: "chargeBytes c ?taken (int (length (tf_Data f))) = (k, cs1)" by fastforce
    note w1 = chargeBytes_weights [OF ch]
    define cs2 where "cs2 = (if \<not> k then cs1\<lparr>cs_writer := closePipeLocked (cs_writer cs1), cs_pump := False\<rparr>
        else if \<not> ok then cs1\<lparr>cs_pump := False\<rparr>
        else if tf_HalfClose f then cs1\<lparr>log_written := log_written cs1 @ tf_Data f, cs_writer := halfClose (cs_writer cs1), cs_pump := False\<rparr>
        else cs1\<lparr>log_written := log_written cs1 @ tf_Data f\<rparr>)"
    have "inbound_frame c n ok t = set_conn n cs2 (if k then t else tunnel_send (message ?cs (PClose ''byte-cap-exceeded'')) t)"
      using False f ch by (simp add: inbound_frame_def Let_def cs2_def)
    moreover have "pump_weight cs2 \<le> pump_weight cs1" using stop [where cs = cs1] by (simp add: cs2_def)
    moreover have "cs_pc cs2 = cs_pc ?cs" "cs_rest cs2 = cs_rest ?cs" "cs_done cs2 = cs_done ?cs" using w1 by (simp_all add: cs2_def)
    ultimately show ?thesis using w0 w1(3)
      by (intro that [of cs2 "if k then t else tunnel_send (message ?cs (PClose ''byte-cap-exceeded'')) t"]) (auto intro: le_less_trans)
  qed
qed

lemma settle_decreases:
  assumes "settle_step c t t'"
  shows "(t', t) \<in> settling"
  using assms
proof cases
  case (s_cancels n ns)
  then show ?thesis by (auto simp: cancel_conn_def pc_weight_def body_weight_def pump_weight_def intro!: settling_conn)
next
  case (s_waited n ns)
  then show ?thesis by (simp add: settling_def phase_weight_def)
next
  case (s_closed late)
  then show ?thesis by (simp add: settling_def phase_weight_def)
next
  case (s_fails n err)
  then show ?thesis by (auto simp: relay_failed_def Let_def pc_weight_def intro!: settling_conn)
next
  case (s_answers n res body)
  then show ?thesis by (auto simp: relay_opened_def Let_def pc_weight_def intro!: settling_conn)
next
  case (s_read n data)
  let ?cs = "(conn_at t n)\<lparr>cs_rest := drop (length data) (cs_rest (conn_at t n))\<rparr>"
  obtain k cs1 where ch: "chargeBytes c ?cs (int (length data)) = (k, cs1)" by fastforce
  have "length data \<le> length (cs_rest (conn_at t n))" using s_read(6) by (simp add: prefix_length_le)
  then have "length (cs_rest (conn_at t n)) - length data < length (cs_rest (conn_at t n))"
    using s_read(4) by (cases "length (cs_rest (conn_at t n))") simp_all
  with s_read ch chargeBytes_weights [OF ch] show ?thesis
    by (auto simp: outbound_data_def Let_def pc_weight_def body_weight_def intro!: settling_conn split: bool.split)
next
  case (s_ended n err)
  then show ?thesis by (auto simp: outbound_end_def Let_def pc_weight_def intro!: settling_conn)
next
  case (s_returned n)
  let ?cs = "(cancel_conn (conn_at t n))\<lparr>cs_done := True, cs_pc := Finished\<rparr>"
  have "(set_conn n ?cs t, t) \<in> settling" using s_returned by (intro settling_conn) (simp_all add: pc_weight_def)
  with s_returned show ?thesis by (simp add: unregister_def Let_def settling_def)
next
  case (s_taken n ok)
  obtain cs u where "inbound_frame c n ok t = set_conn n cs u" "tn_conns u = tn_conns t" "tn_phase u = tn_phase t"
    "cs_pc cs = cs_pc (conn_at t n)" "cs_rest cs = cs_rest (conn_at t n)" "cs_done cs = cs_done (conn_at t n)" "pump_weight cs < pump_weight (conn_at t n)"
    by (rule inbound_conn [OF s_taken(2,4)])
  with s_taken show ?thesis by (auto simp: pc_weight_def body_weight_def intro!: settling_conn)
next
  case (s_stopped n)
  then show ?thesis by (auto simp: pc_weight_def body_weight_def pump_weight_def intro!: settling_conn)
next
  case (s_lifetime n)
  then show ?thesis by (auto simp: pc_weight_def body_weight_def pump_weight_def intro!: settling_conn)
qed

lemma settle_finite: "\<not> (\<exists>f. \<forall>i. settle_step c (f i) (f (Suc i)))"
proof -
  have "wf settling" by (simp add: settling_def)
  then show ?thesis using settle_decreases unfolding wf_iff_no_infinite_down_chain by blast
qed

lemma settle_normal: "\<exists>t'. (settle_step c)\<^sup>*\<^sup>* t t' \<and> (\<nexists>t''. settle_step c t' t'')"
proof -
  have "wf settling" by (simp add: settling_def)
  then show ?thesis
  proof (induction t rule: wf_induct_rule)
    case (less t)
    then show ?case using settle_decreases by (meson converse_rtranclp_into_rtranclp rtranclp.rtrancl_refl)
  qed
qed

section \<open>They do not get stuck\<close>

definition ending_inv :: "tunnel \<Rightarrow> bool" where
  "ending_inv t \<longleftrightarrow> (\<forall>ns. tn_phase t = TEnding ns \<longrightarrow> (\<forall>n \<in> set ns. n < length (tn_conns t)))"

lemma handle_grows: "length (tn_conns t) \<le> length (tn_conns (handle m t))"
  by (simp add: handle_def openConn_def deliverFrame_def closeFromHub_def Let_def split: tunnel_payload.split option.split)

lemma inbound_shape: "tn_phase (inbound_frame c n ok t) = tn_phase t" "length (tn_conns (inbound_frame c n ok t)) = length (tn_conns t)"
  by (simp_all add: inbound_frame_def Let_def split: prod.split bool.split)

lemma ending_step:
  assumes "tunnel_step c t t'" and "ending_inv t"
  shows "ending_inv t'"
  using assms(1)
proof cases
  case (received m)
  with handle_grows [of t m] assms(2) show ?thesis by (auto simp: ending_inv_def handle_frame intro: less_le_trans)
next
  case (received_late xs m ys)
  with handle_grows [of "t\<lparr>tn_late := xs @ ys\<rparr>" m] assms(2) show ?thesis by (auto simp: ending_inv_def handle_frame intro: less_le_trans)
qed (use assms(2) in \<open>auto simp: ending_inv_def registered_def inbound_shape relay_failed_def relay_opened_def outbound_data_def outbound_end_def
      unregister_def Let_def split: prod.splits bool.splits if_splits\<close>)

lemma ending_reachable: "(tunnel_step c)\<^sup>*\<^sup>* tunnel_init t \<Longrightarrow> ending_inv t"
proof (induction rule: rtranclp_induct)
  case base
  show ?case by (simp add: ending_inv_def tunnel_init_def)
qed (blast intro: ending_step)

lemma settle_progress:
  assumes "(tunnel_step c)\<^sup>*\<^sup>* tunnel_init t" and "tn_phase t = TEnding ns"
  shows "\<exists>t'. settle_step c t t'"
proof (cases ns)
  case Nil
  with assms(2) show ?thesis using s_closed [of t "[]" c] by blast
next
  case (Cons n ms)
  with ending_reachable [OF assms(1)] assms(2) have n: "n < length (tn_conns t)" by (simp add: ending_inv_def)
  show ?thesis
  proof (cases "cs_pc (conn_at t n)")
    case Opening
    with n show ?thesis by (blast intro: s_fails)
  next
    case Pumping
    then have "settle_step c t (outbound_end n Canceled t)" using n by (intro s_ended) simp_all
    then show ?thesis ..
  next
    case Finishing
    with n show ?thesis by (blast intro: s_returned)
  next
    case Finished
    with n tunnel_reachable(1) [OF assms(1)] have "cs_done (conn_at t n)" by (simp add: reg_inv_def)
    with assms(2) Cons show ?thesis by (blast intro: s_waited)
  qed
qed

section \<open>What they leave\<close>

text \<open>The reset that waits for \<open>ns\<close>: it still does, or the connection has returned.\<close>

definition awaited :: "nat list \<Rightarrow> nat \<Rightarrow> tunnel \<Rightarrow> bool" where
  "awaited ns k t \<longleftrightarrow>
     length (tn_conns t) = k \<and> tn_phase t \<noteq> TLive
     \<and> (\<forall>n \<in> set ns. n < k \<and> (cs_done (conn_at t n) \<or> (\<exists>ms. tn_phase t = TEnding ms \<and> n \<in> set ms)))"

lemma awaited_set:
  assumes "awaited ns k t" and "tn_conns u = tn_conns t" and "tn_phase u = tn_phase t"
    and "cs_done (conn_at t n) \<longrightarrow> cs_done cs"
  shows "awaited ns k (set_conn n cs u)"
proof -
  have at: "cs_done (conn_at t m) \<longrightarrow> cs_done (conn_at (set_conn n cs u) m)" if "m < length (tn_conns t)" for m
    using that assms(2,4) by (cases "m = n") (simp_all add: conn_at_def set_conn_def)
  have "length (tn_conns (set_conn n cs u)) = length (tn_conns t)" "tn_phase (set_conn n cs u) = tn_phase t"
    using assms(2,3) by simp_all
  with assms(1) at show ?thesis unfolding awaited_def by metis
qed

lemma awaited_step:
  assumes "settle_step c t t'" and "awaited ns k t"
  shows "awaited ns k t'"
  using assms(1)
proof cases
  case (s_waited n ms)
  then show ?thesis using assms(2) by (auto simp: awaited_def conn_at_def)
next
  case (s_closed late)
  then show ?thesis using assms(2) by (auto simp: awaited_def conn_at_def)
next
  case (s_read n data)
  let ?cs = "(conn_at t n)\<lparr>cs_rest := drop (length data) (cs_rest (conn_at t n))\<rparr>"
  obtain b cs1 where ch: "chargeBytes c ?cs (int (length data)) = (b, cs1)" by fastforce
  with s_read chargeBytes_weights(6) [OF ch] show ?thesis
    by (auto simp: outbound_data_def Let_def intro!: awaited_set [OF assms(2)] split: bool.split)
next
  case (s_returned n)
  let ?cs = "(cancel_conn (conn_at t n))\<lparr>cs_done := True, cs_pc := Finished\<rparr>"
  have "awaited ns k (set_conn n ?cs t)" by (rule awaited_set [OF assms(2)]) simp_all
  with s_returned show ?thesis by (simp add: unregister_def Let_def awaited_def conn_at_def)
next
  case (s_taken n ok)
  obtain cs u where "inbound_frame c n ok t = set_conn n cs u" "tn_conns u = tn_conns t" "tn_phase u = tn_phase t"
    "cs_pc cs = cs_pc (conn_at t n)" "cs_rest cs = cs_rest (conn_at t n)" "cs_done cs = cs_done (conn_at t n)" "pump_weight cs < pump_weight (conn_at t n)"
    by (rule inbound_conn [OF s_taken(2,4)])
  with s_taken show ?thesis by (auto intro!: awaited_set [OF assms(2)])
qed (auto simp: relay_failed_def relay_opened_def outbound_end_def Let_def intro!: awaited_set [OF assms(2)])

lemma awaited_run: "(settle_step c)\<^sup>*\<^sup>* t t' \<Longrightarrow> awaited ns k t \<Longrightarrow> awaited ns k t'"
  by (induction rule: rtranclp_induct) (auto intro: awaited_step)

section \<open>Properties\<close>


text \<open>One connection is waiting for the API server when its session ends.\<close>

definition ending_state :: tunnel where
  "ending_state = (one_conn (new_conn ''a'' sample_request))\<lparr>tn_send := False, tn_phase := TEnding [0], log_quiet := False\<rparr>"


end
