(* ===== verification/Stream_Progress.thy ===== *)
theory Stream_Progress
  imports Stream_Client
begin

text \<open>
  Progress of the event stream client (\<open>internal/stream/client_connect.go\<close>): wherever its goroutines are, short of
  being told to stop, the client can get back to an established session and put everything that waits to be sent on the wire.
\<close>

section \<open>Runs that leave the outbound side alone\<close>

definition moves :: "Backoff \<Rightarrow> (EventType \<Rightarrow> string) \<Rightarrow> 'p runtime \<Rightarrow> 'p runtime \<Rightarrow> bool" where
  "moves b ets r r' \<longleftrightarrow>
     (client_step b ets)\<^sup>*\<^sup>* r r' \<and> cl_sendCh (rt_client r') = cl_sendCh (rt_client r) \<and> rt_blocked r' = rt_blocked r
     \<and> log_drained r' = log_drained r \<and> log_dropped r' = log_dropped r"

lemma moves_refl: "moves b ets r r"
  by (simp add: moves_def)

lemma moves_trans [trans]: "moves b ets r r1 \<Longrightarrow> moves b ets r1 r2 \<Longrightarrow> moves b ets r r2"
  by (auto simp: moves_def)

lemma moves_step:
  "client_step b ets r r1 \<Longrightarrow> cl_sendCh (rt_client r1) = cl_sendCh (rt_client r) \<Longrightarrow> rt_blocked r1 = rt_blocked r \<Longrightarrow>
   log_drained r1 = log_drained r \<Longrightarrow> log_dropped r1 = log_dropped r \<Longrightarrow> moves b ets r r1"
  by (auto simp: moves_def)

lemma events_consumed:
  "\<exists>r1. moves b ets r r1 \<and> cl_events (rt_client r1) = [] \<and> rt_phase r1 = rt_phase r \<and> rt_hand r1 = rt_hand r"
proof (induction "cl_events (rt_client r)" arbitrary: r)
  case Nil
  then show ?case by (intro exI [of _ r]) (simp add: moves_refl)
next
  case (Cons ev evs)
  let ?r = "r\<lparr>rt_client := (rt_client r)\<lparr>cl_events := evs\<rparr>, log_consumed := log_consumed r @ [ev]\<rparr>"
  have step: "client_step b ets r ?r" using Cons.hyps(2) by (intro consumed) simp
  have "moves b ets r ?r" by (rule moves_step [OF step]) simp_all
  moreover obtain r1 where "moves b ets ?r r1" "cl_events (rt_client r1) = []" "rt_phase r1 = rt_phase ?r" "rt_hand r1 = rt_hand ?r"
    using Cons.hyps(1) [of ?r] by auto
  ultimately show ?case by (intro exI [of _ r1]) (auto intro: moves_trans)
qed

section \<open>Back to an established session\<close>

definition ready :: "'p runtime \<Rightarrow> bool" where
  "ready r \<longleftrightarrow> rt_phase r = Established \<and> rt_pump r"

lemma from_Greeting_empty:
  assumes "rt_phase r = Greeting" and "rt_hand r = []"
  shows "\<exists>r'. moves b ets r r' \<and> ready r'"
proof -
  let ?r = "r\<lparr>rt_phase := Established, rt_pump := True\<rparr>"
  have "moves b ets r ?r" by (rule moves_step [OF started [OF assms]]) simp_all
  then show ?thesis by (intro exI [of _ ?r]) (simp add: ready_def)
qed

lemma from_Greeting:
  assumes "rt_phase r = Greeting" and "length (rt_hand r) \<le> 1"
  shows "\<exists>r'. moves b ets r r' \<and> ready r'"
proof (cases "rt_hand r")
  case Nil
  with assms(1) show ?thesis by (rule from_Greeting_empty)
next
  case (Cons ev evs)
  with assms(2) have hand: "rt_hand r = [ev]" by simp
  obtain r1 where r1: "moves b ets r r1" "cl_events (rt_client r1) = []" "rt_phase r1 = Greeting" "rt_hand r1 = [ev]"
    using events_consumed [of b ets r] assms(1) hand by auto
  let ?r = "r1\<lparr>rt_client := (rt_client r1)\<lparr>cl_events := cl_events (rt_client r1) @ [ev]\<rparr>, rt_hand := []\<rparr>"
  have step: "client_step b ets r1 ?r" using r1 by (intro delivered) (simp_all add: events_cap_def)
  have "moves b ets r1 ?r" by (rule moves_step [OF step]) simp_all
  moreover obtain r' where "moves b ets ?r r'" "ready r'" using from_Greeting_empty [of ?r b ets] r1(3) by auto
  ultimately show ?thesis using r1(1) by (blast intro: moves_trans)
qed

lemma from_Notifying:
  assumes "rt_phase r = Notifying hr"
  shows "\<exists>r'. moves b ets r r' \<and> ready r'"
proof -
  let ?r = "r\<lparr>rt_phase := Greeting, rt_hand := resync_event ets hr, log_received := log_received r @ resync_event ets hr\<rparr>"
  have "moves b ets r ?r" by (rule moves_step [OF announced [OF assms]]) simp_all
  moreover have "\<exists>r'. moves b ets ?r r' \<and> ready r'" by (rule from_Greeting) (simp_all add: resync_event_def)
  ultimately show ?thesis by (blast intro: moves_trans)
qed

lemma from_Connecting:
  assumes "rt_phase r = Connecting"
  shows "\<exists>r'. moves b ets r r' \<and> ready r'"
proof -
  fix hr :: HandshakeResponse
  let ?r = "r\<lparr>rt_client := setConnected True (rt_client r), rt_phase := Notifying hr\<rparr>"
  have "moves b ets r ?r" by (rule moves_step [OF accepted [OF assms]]) simp_all
  moreover have "\<exists>r'. moves b ets ?r r' \<and> ready r'" by (rule from_Notifying) simp
  ultimately show ?thesis by (blast intro: moves_trans)
qed

lemma from_Waiting:
  assumes "rt_phase r = Waiting d"
  shows "\<exists>r'. moves b ets r r' \<and> ready r'"
proof -
  let ?r = "r\<lparr>rt_delay := nextDelay (rt_delay r) (run_backoff b), rt_phase := Connecting\<rparr>"
  have "moves b ets r ?r" by (rule moves_step [OF waited [OF assms]]) simp_all
  moreover have "\<exists>r'. moves b ets ?r r' \<and> ready r'" by (rule from_Connecting) simp
  ultimately show ?thesis by (blast intro: moves_trans)
qed

lemma from_Ended:
  assumes "rt_phase r = Ended err"
  shows "\<exists>r'. moves b ets r r' \<and> ready r'"
proof (cases "err_is err errTokenRotation")
  case True
  let ?r = "r\<lparr>rt_delay := bo_InitialInterval (run_backoff b), rt_phase := Connecting\<rparr>"
  have "moves b ets r ?r" by (rule moves_step [OF rotated [OF assms True]]) simp_all
  moreover have "\<exists>r'. moves b ets ?r r' \<and> ready r'" by (rule from_Connecting) simp
  ultimately show ?thesis by (blast intro: moves_trans)
next
  case False
  let ?r = "r\<lparr>rt_phase := Waiting (jitterDelay (rt_delay r) 0)\<rparr>"
  have "client_step b ets r ?r" by (rule backed_off [OF assms False]) simp_all
  then have "moves b ets r ?r" by (rule moves_step) simp_all
  moreover have "\<exists>r'. moves b ets ?r r' \<and> ready r'" by (rule from_Waiting) simp
  ultimately show ?thesis by (blast intro: moves_trans)
qed

lemma from_Established:
  assumes "rt_phase r = Established"
  shows "\<exists>r'. moves b ets r r' \<and> ready r'"
proof (cases "rt_pump r")
  case True
  with assms show ?thesis by (intro exI [of _ r]) (simp add: moves_refl ready_def)
next
  case False
  have "client_step b ets r (end_session (Some Canceled) r)" using assms by (rule session_ended) (simp add: session_error_def)
  then have "moves b ets r (end_session (Some Canceled) r)" by (rule moves_step) (simp_all add: end_session_def)
  moreover have "\<exists>r'. moves b ets (end_session (Some Canceled) r) r' \<and> ready r'" by (rule from_Ended) (simp add: end_session_def)
  ultimately show ?thesis by (blast intro: moves_trans)
qed

lemma reconnects:
  assumes "rt_phase r \<noteq> Stopped" and "length (rt_hand r) \<le> 1"
  shows "\<exists>r'. moves b ets r r' \<and> ready r'"
proof (cases "rt_phase r")
  case Connecting
  then show ?thesis by (rule from_Connecting)
next
  case (Notifying hr)
  then show ?thesis by (rule from_Notifying)
next
  case Greeting
  then show ?thesis using assms(2) by (rule from_Greeting)
next
  case Established
  then show ?thesis by (rule from_Established)
next
  case (Ended err)
  then show ?thesis by (rule from_Ended)
next
  case (Waiting d)
  then show ?thesis by (rule from_Waiting)
qed (use assms(1) in simp)

section \<open>Draining the queue\<close>

text \<open>A run of a ready client that puts these events on the wire, one after the other.\<close>

definition sends :: "Backoff \<Rightarrow> (EventType \<Rightarrow> string) \<Rightarrow> 'p outbound list \<Rightarrow> 'p runtime \<Rightarrow> 'p runtime \<Rightarrow> bool" where
  "sends b ets es r r' \<longleftrightarrow>
     (client_step b ets)\<^sup>*\<^sup>* r r' \<and> ready r' \<and> cl_sendCh (rt_client r') = []
     \<and> log_drained r' = log_drained r @ map (\<lambda>e. (e, True)) es \<and> log_dropped r' = log_dropped r"

lemma queue_sent:
  assumes "ready r"
  shows "\<exists>r'. sends b ets (cl_sendCh (rt_client r)) r r' \<and> rt_blocked r' = rt_blocked r"
  using assms
proof (induction "cl_sendCh (rt_client r)" arbitrary: r)
  case Nil
  then show ?case by (intro exI [of _ r]) (simp add: sends_def)
next
  case (Cons e es)
  let ?r = "r\<lparr>rt_client := (rt_client r)\<lparr>cl_sendCh := es\<rparr>, log_drained := log_drained r @ [(e, True)]\<rparr>"
  have step: "client_step b ets r ?r" using Cons.prems Cons.hyps(2) by (intro pumped) (simp_all add: ready_def)
  obtain r' where "sends b ets es ?r r'" "rt_blocked r' = rt_blocked r"
    using Cons.hyps(1) [of ?r] Cons.prems by (auto simp: ready_def)
  with step Cons.hyps(2) [symmetric] show ?case
    by (intro exI [of _ r']) (auto simp: sends_def intro: converse_rtranclp_into_rtranclp)
qed

lemma blocked_sent:
  assumes "ready r" and "cl_sendCh (rt_client r) = []"
  shows "\<exists>r'. sends b ets (rt_blocked r) r r' \<and> rt_blocked r' = []"
  using assms
proof (induction "rt_blocked r" arbitrary: r)
  case Nil
  then show ?case by (intro exI [of _ r]) (simp add: sends_def)
next
  case (Cons e es)
  let ?q = "r\<lparr>rt_client := enqueue e (rt_client r), rt_blocked := es, log_enqueued := log_enqueued r @ [e]\<rparr>"
  have "client_step b ets r ?q"
    using Send_queued [of r "[]" e es b ets] Cons.hyps(2) Cons.prems(2) by (simp add: sendCh_cap_def)
  moreover let ?r = "?q\<lparr>rt_client := (rt_client ?q)\<lparr>cl_sendCh := []\<rparr>, log_drained := log_drained ?q @ [(e, True)]\<rparr>"
  have "client_step b ets ?q ?r" using Cons.prems by (intro pumped) (simp_all add: ready_def enqueue_def)
  ultimately have steps: "(client_step b ets)\<^sup>*\<^sup>* r ?r" by simp
  obtain r' where "sends b ets es ?r r'" "rt_blocked r' = []"
    using Cons.hyps(1) [of ?r] Cons.prems by (auto simp: ready_def)
  with steps Cons.hyps(2) [symmetric] show ?case by (intro exI [of _ r']) (auto simp: sends_def)
qed

section \<open>Properties\<close>


text \<open>An event is queued before the first session.\<close>

definition early_event :: "unit outbound" where
  "early_event = \<lparr>ob_Event = sample_ev, ob_Sequence = 1\<rparr>"

definition early_state :: "unit runtime" where
  "early_state = (rt_init DefaultBackoff NewConnectClient)\<lparr>rt_client := NewConnectClient\<lparr>cl_seq := 1, cl_sendCh := [early_event]\<rparr>,
     log_enqueued := [early_event]\<rparr>"

lemma early_reachable: "(client_step DefaultBackoff ets)\<^sup>*\<^sup>* (rt_init DefaultBackoff NewConnectClient) early_state"
proof -
  let ?r0 = "rt_init DefaultBackoff NewConnectClient :: unit runtime"
  let ?r1 = "?r0\<lparr>rt_client := (rt_client ?r0)\<lparr>cl_seq := 1\<rparr>, rt_blocked := [early_event]\<rparr>"
  have "client_step DefaultBackoff ets ?r0 ?r1"
    using call_Send [of sample_ev ?r0 early_event "(rt_client ?r0)\<lparr>cl_seq := 1\<rparr>" DefaultBackoff ets]
    by (simp add: rt_init_def stamp_def NewConnectClient_def early_event_def Let_def)
  moreover have "client_step DefaultBackoff ets ?r1 early_state"
    using Send_queued [of ?r1 "[]" early_event "[]" DefaultBackoff ets]
    by (simp add: rt_init_def NewConnectClient_def early_state_def enqueue_def sendCh_cap_def)
  ultimately show ?thesis by simp
qed


end
