(* ===== verification/Spec2Isabelle.thy ===== *)
theory Spec2Isabelle
  imports Command_Handlers Aggregator Status_Streamer Addon_Scanner Stream_Client Agent_Controller Tunnel_Session Agent_Process Tunnel_Main Tunnel_Reset Stream_Progress
begin

text \<open>
  A verification of the Inari agent (\<open>src/\<close>, Go), which connects a tenant's Kubernetes cluster to the Inari control
  plane. The repository builds two programs.

  \<^bold>\<open>The agent\<close> (\<open>cmd/main.go\<close>) exchanges a one-time bootstrap token for the identity of the cluster and keeps that
  identity in a ConfigMap. It then holds one bidirectional stream to the gateway. Inbound events are commands, which a
  dispatcher hands to handlers that write a git state repository, register or operate ArgoCD applications or rebind the
  repository; every command is answered once, and answers are journalled in a ConfigMap so that a restart replays them.
  Outbound go the acknowledgements, the capabilities the watchers discover, the status of watched objects and a report
  of known addons. The state of the stream gates the dispatcher and the readiness probe.

  \<^bold>\<open>The tunnel agent\<close> (\<open>cmd/inari-tunnel-agent/main.go\<close>) multiplexes kubectl connections over a stream of its own and
  relays each to the API server under its service account token.

  \<^bold>\<open>Conventions.\<close>
  \<^item> A Go struct is a record, an enumeration a datatype, a function of the source a definition of the same name (with a
    prefix where two packages share one: \<open>gh_CommitFiles\<close>, \<open>tunnel_nextDelay\<close>, \<open>scanner_Run\<close>).
  \<^item> Errors are values of \<open>go_err\<close>, results are \<open>go_err + 'a\<close>; a panic is \<open>None\<close>. A \<open>%s\<close> or \<open>%d\<close> whose text matters is spelled
    out, \<open>%q\<close>, \<open>%v\<close> and \<open>%w\<close> stay symbolic.
  \<^item> Code that acts on the outside is a function on a world \<open>'w\<close> that it returns changed. Code outside of the
    repository (the API server, GitHub, protobuf, YAML, JSON, SHA-256, HTTP, clocks) is a parameter: a function or a
    record of functions. What is relied on is a named predicate, \<open>configmap_laws\<close>, \<open>kube_laws\<close>, \<open>github_laws\<close>, \<open>github_answers\<close>,
    \<open>json_laws\<close>, \<open>reuse_laws\<close>, and the witnesses evaluate instances that keep it: \<open>mem_configmaps\<close>, \<open>mem_kube\<close>, \<open>mem_github\<close>,
    \<open>ref_accessors\<close>, \<open>sample_codec\<close>. The unspecified iteration order of a Go map is a parameter.
  \<^item> Goroutines are the inductive step relations \<open>client_step\<close>, \<open>agent_step\<close> and \<open>tunnel_step\<close>, at the granularity of channel and
    lock operations; fields named \<open>log_\<close> record what happened and decide nothing. Code that a single goroutine runs is a
    function, and its runs are sequences of operations.
  \<^item> Durations and times are nanoseconds in \<open>int\<close>; the factors of the backoff and of the jitter are rational and the
    product is rounded down. The byte counter of a tunnelled connection wraps at 64 bits (\<open>wrap64\<close>), as parsed numbers and
    durations are checked against that range; the sequence numbers of the stream, one per sent event, are unbounded.
  \<^item> Interfaces are locales: \<open>idempotent_provider\<close> and \<open>git_provider\<close> (the git \<open>Provider\<close>, interpreted on the in-memory one,
    while \<open>github_api\<close> gives it for GitHub), \<open>durable_journal\<close> (the \<open>Journal\<close>, interpreted on the ConfigMap journal) and
    \<open>dedupe_sender\<close> (interpreted on the status streamer and on the addon scanner).

  \<^bold>\<open>Theories, and what their lemmas show.\<close>
  \<^descr>[\<open>Agent_Prelude\<close>, \<open>Agent_Proto\<close>] Strings, errors and decoded documents as Go has them; the messages of the contract.
  \<^descr>[\<open>Dispatcher\<close>] \<open>internal/command/dispatcher.go\<close>, \<open>bridge.go\<close>. An answered command is replayed and never run again;
    a new one is refused while the stream is down; a failing journal write is hidden by the replay.
  \<^descr>[\<open>Command_Journal\<close>] \<open>journal.go\<close>: \<open>Load\<close>, \<open>Record\<close> with its eviction and its retries on conflicts. At most 1000 entries, the new
    one among them; a restarted dispatcher answers from the journal.
  \<^descr>[\<open>Git_Provider\<close>, \<open>GitHub_Provider\<close>, \<open>App_Auth\<close>] \<open>internal/git\<close>. Targets and paths are validated; a commit writes exactly the given
    files on exactly one branch; repeated operations change nothing; the tokens of the GitHub App are fresh.
  \<^descr>[\<open>Render\<close>] \<open>internal/render\<close>. Secret stores reference only their own namespace, instances are complete, bundles have the
    requested checksum. Reading a cloned tree is a recursion with fuel, which the depth of the tree bounds: fuel above the
    depth gives a result.
  \<^descr>[\<open>ArgoCD\<close>] \<open>internal/argocd\<close>. The gate leaves an existing installation alone; \<open>upsert\<close> changes only what the agent owns.
  \<^descr>[\<open>Command_Handlers\<close>] \<open>handlers_*.go\<close>, \<open>redeem.go\<close>. Writes stay inside the state repository; actions are limited to the
    allow-list, to managed applications and to the redeemed credential of their user; a rebinding is durable or has no effect.
  \<^descr>[\<open>Capability\<close>, \<open>Aggregator\<close>, \<open>Watchers\<close>] \<open>internal/capability\<close>. Mappers, classification and watchers; the incremental
    checksum equals the recomputed one; a replay ends with its terminal chunk; the snapshot is a projection of the cluster.
  \<^descr>[\<open>Event_Sender\<close>, \<open>Status_Streamer\<close>, \<open>Addon_Scanner\<close>] \<open>internal/status\<close>, \<open>internal/addonscan\<close>. What did not change is sent until
    it is accepted and not again; the watch configuration is read back as printed.
  \<^descr>[\<open>Stream_Client\<close>] \<open>internal/stream\<close>. The wire carries a subsequence of the queue, no received event is lost but by an ended
    session, the delays are bounded, rotated sessions get a fresh token.
  \<^descr>[\<open>Stream_Progress\<close>] The stream client is never stuck: from every reachable state in which it was not told to stop there is a
    run to an established session that puts everything queued on the wire, in order (\<open>queue_deliverable\<close>).
  \<^descr>[\<open>Registration\<close>] \<open>internal/registration\<close> and the first half of \<open>Start\<close>. The token is used once, the identity is complete and
    survives restarts.
  \<^descr>[\<open>Agent_Controller\<close>] \<open>internal/controller\<close>, \<open>internal/health\<close>: routing, acknowledgements and the whole agent as \<open>agent_step\<close> over
    \<open>client_step\<close>. The stream gates commands and readiness; every command is answered; a full queue can starve a reconnect.
  \<^descr>[\<open>Agent_Main\<close>, \<open>Agent_Process\<close>] \<open>cmd/main.go\<close> and \<open>Start\<close>: from the environment to the running agent and the exit
    code of the process (\<open>main_run\<close>). Secrets are read as metadata only; what the journal holds is replayed by the restarted
    process.
  \<^descr>[\<open>Tunnel_Relay\<close>, \<open>Tunnel_Agent\<close>, \<open>Tunnel_Session\<close>, \<open>Tunnel_Main\<close>] \<open>internal/tunnelagent\<close> and its process. The hub cannot choose the
    credential; bytes are capped; there is one connection per id; a close as complete means a whole body; the service
    account token is current.
  \<^descr>[\<open>Tunnel_Reset\<close>] \<open>ResetAll\<close> returns: the connection goroutines it waits for end in a number of steps that a measure bounds,
    and no schedule of them is stuck before that (\<open>reset_completes\<close>).
  \<^descr>[\<open>Spec2Isabelle\<close>] imports all of them and composes the command handlers with the GitHub provider.

  Several theorems show runs in which the code does less than it promises: \<open>reconnect_starves_agent\<close>, \<open>secret_store_commands_dropped\<close>,
  \<open>connection_survives_reset\<close>, \<open>rebind_misses_registration\<close> and, in the libraries of the components, \<open>dropped_frame_reported_complete\<close>,
  \<open>journal_failure_hidden_by_replay\<close>, \<open>sequence_order_lost\<close>, \<open>reset_lost_by_inflight_emit\<close>, \<open>failed_report_not_retried\<close>,
  \<open>version_change_keeps_old_entry\<close>, \<open>name_only_delete_reach\<close>, \<open>filter_decided_by_first\<close>, \<open>copied_csv_lost\<close>, \<open>tunnel_backoff_ratchets\<close>.

  \<^bold>\<open>Not modelled.\<close> Logging and the Prometheus collectors (\<open>metrics.go\<close>), which the program never reads; the parsing of flags,
  whose values are arguments of \<open>manager_options_of\<close>; the inside of the controller-runtime manager, whose construction, probes and
  start are the functions of the record \<open>manager\<close> that \<open>main_run\<close> takes as a parameter; TLS, HTTP and RPC transports beyond their settings;
  the time stamps of events; deadlines of contexts but for the errors they cause; charts, manifests and tests.
\<close>

section \<open>Commands on a GitHub state repository\<close>


definition hub_state :: "mem_hub GitOpsState" where
  "hub_state = \<lparr>go_DefaultStateRepo = ''acme/state'', go_ext = sample_hub\<rparr>"

lemma hub_apply_applied:
  "\<exists>s1. SecretStoreApplyHandler handler_codec (\<lambda>ob. Inr ''doc'') (github_provider mem_github) (sample_event ''c1'') hub_state
     = ((COMMAND_RESULT_APPLIED, Text ''commit c1'', None), s1)"
proof -
  have "fst (SecretStoreApplyHandler handler_codec (\<lambda>ob. Inr ''doc'') (github_provider mem_github) (sample_event ''c1'') hub_state)
     = (COMMAND_RESULT_APPLIED, Text ''commit c1'', None)" by code_simp
  then show ?thesis by (metis prod.collapse)
qed


end
